(* ===== verification/Prelude.thy ===== *)
theory Prelude
  imports
    Complex_Main
    "HOL-Library.AList"
    "HOL-Library.Char_ord"
    "HOL-Library.List_Lexorder"
    "HOL-Library.Multiset"
    "HOL-Library.Sublist"
    "HOL-Library.Word"
begin

text \<open>
  Shared vocabulary of the development: results of fallible code, Python dictionaries as
  association lists in insertion order, Python strings, JSON values, and the values the
  budget ledgers keep once per scope (session, agent, lineage).

  Conventions used by every component theory:
  \<^item> a function that may raise returns \<open>'e + 'a\<close>, \<open>Inl\<close> for the exception; the
    message is kept where the source gives one;
  \<^item> a \<^typ>\<open>string\<close> is a Python \<open>str\<close> over the first 256 code points, so that
    \<open>len\<close> is \<^const>\<open>length\<close> and the UTF-8 encoding is written out (\<open>utf8\<close>);
  \<^item> a dictionary with string keys is an association list with distinct keys, updated in
    place or at the end as CPython does;
  \<^item> a finite float is its exact rational value.
\<close>

named_theorems result_simps \<open>rewriting of results of fallible code\<close>
named_theorems dict_simps \<open>rewriting of dictionary operations\<close>
named_theorems hash_simps \<open>shape of digests\<close>

section \<open>Results of fallible code\<close>

definition rbind :: "'err + 'x \<Rightarrow> ('x \<Rightarrow> 'err + 'y) \<Rightarrow> 'err + 'y" where
  "rbind r k = case_sum Inl k r"

lemma rbind_simps [simp, result_simps]:
  "rbind (Inl e) f = Inl e"
  "rbind (Inr x) f = f x"
  by (simp_all add: rbind_def)

lemma rbind_Inr_iff [result_simps]:
  "rbind r k = Inr out \<longleftrightarrow> (\<exists>x. r = Inr x \<and> k x = Inr out)"
  by (cases r) simp_all

lemma rbind_Inl_iff:
  "rbind m f = Inl e \<longleftrightarrow> m = Inl e \<or> (\<exists>x. m = Inr x \<and> f x = Inl e)"
  by (cases m) simp_all

lemma rbind_InrE [elim!]:
  assumes "rbind m f = Inr y"
  obtains x where "m = Inr x" and "f x = Inr y"
  using assms by (auto simp: rbind_Inr_iff)

lemma rbind_cong [fundef_cong]:
  assumes "m = m'" and "\<And>x. m' = Inr x \<Longrightarrow> f x = g x"
  shows "rbind m f = rbind m' g"
  using assms by (cases m') simp_all

text \<open>A guard that raises unless its condition holds.\<close>

definition ensure :: "bool \<Rightarrow> 'e \<Rightarrow> 'e + unit" where
  "ensure b e = (if b then Inr () else Inl e)"

lemma ensure_simps [simp, result_simps]:
  "ensure True e = Inr ()"
  "ensure False e = Inl e"
  by (simp_all add: ensure_def)

lemma ensure_Inr_iff [simp, result_simps]: "ensure b e = Inr u \<longleftrightarrow> b"
  by (simp add: ensure_def)

lemma ensure_Inl_iff [simp, result_simps]: "ensure b e = Inl x \<longleftrightarrow> \<not> b \<and> x = e"
  by (auto simp: ensure_def)

text \<open>The three loops over a list that may raise: building a list, threading a state,
  and checking every element.\<close>

fun mapM :: "('x \<Rightarrow> 'err + 'y) \<Rightarrow> 'x list \<Rightarrow> 'err + 'y list" where
  "mapM step [] = Inr []"
| "mapM step (x # rest) =
    rbind (step x) (\<lambda>y. rbind (mapM step rest) (\<lambda>ys. Inr (y # ys)))"

fun foldM :: "('st \<Rightarrow> 'x \<Rightarrow> 'err + 'st) \<Rightarrow> 'st \<Rightarrow> 'x list \<Rightarrow> 'err + 'st" where
  "foldM step st [] = Inr st"
| "foldM step st (x # rest) = rbind (step st x) (\<lambda>st'. foldM step st' rest)"

fun checkM :: "('a \<Rightarrow> 'e + unit) \<Rightarrow> 'a list \<Rightarrow> 'e + unit" where
  "checkM f [] = Inr ()"
| "checkM f (x # xs) = rbind (f x) (\<lambda>_. checkM f xs)"

lemma mapM_cong [fundef_cong]:
  "xs = ys \<Longrightarrow> (\<And>x. x \<in> set ys \<Longrightarrow> f x = g x) \<Longrightarrow> mapM f xs = mapM g ys"
  by (induction ys arbitrary: xs) auto

lemma checkM_cong [fundef_cong]:
  "xs = ys \<Longrightarrow> (\<And>x. x \<in> set ys \<Longrightarrow> f x = g x) \<Longrightarrow> checkM f xs = checkM g ys"
  by (induction ys arbitrary: xs) auto

lemma checkM_Inr_iff [simp, result_simps]:
  "checkM f xs = Inr u \<longleftrightarrow> (\<forall>x \<in> set xs. f x = Inr ())"
  by (induction xs) (auto simp: rbind_Inr_iff)

lemma checkM_mset_Inr: "mset xs = mset ys \<Longrightarrow> checkM f xs = Inr () \<longleftrightarrow> checkM f ys = Inr ()"
  by (metis checkM_Inr_iff set_mset_mset)

lemma mapM_length: "mapM f xs = Inr ys \<Longrightarrow> length ys = length xs"
  by (induction xs arbitrary: ys) (auto simp: rbind_Inr_iff)

lemma mapM_Inr_iff:
  "mapM f xs = Inr ys \<longleftrightarrow> list_all2 (\<lambda>x y. f x = Inr y) xs ys"
  by (induction xs arbitrary: ys) (auto simp: rbind_Inr_iff list_all2_Cons1)

lemma mapM_pure [simp]: "mapM (\<lambda>x. Inr (f x)) xs = Inr (map f xs)"
  by (induction xs) simp_all

lemma mapM_all_Inr: "(\<And>x. x \<in> set xs \<Longrightarrow> f x = Inr (g x)) \<Longrightarrow> mapM f xs = Inr (map g xs)"
  by (induction xs) simp_all

lemma mapM_map: "mapM f (map g xs) = mapM (f \<circ> g) xs"
  by (induction xs) simp_all

lemma foldM_append:
  "foldM f s (xs @ ys) = rbind (foldM f s xs) (\<lambda>s'. foldM f s' ys)"
  by (induction xs arbitrary: s) (simp_all add: rbind_def split: sum.splits)

lemma foldM_pure [simp]: "foldM (\<lambda>s x. Inr (f s x)) s xs = Inr (foldl f s xs)"
  by (induction xs arbitrary: s) simp_all

text \<open>The invariant rule for a loop that may raise.\<close>

lemma foldM_invariant:
  assumes "foldM f s xs = Inr t" and "P s"
    and "\<And>s x s'. x \<in> set xs \<Longrightarrow> P s \<Longrightarrow> f s x = Inr s' \<Longrightarrow> P s'"
  shows "P t"
  using assms by (induction xs arbitrary: s) (auto simp: rbind_Inr_iff)

section \<open>Dictionaries\<close>

type_synonym 'v dict = "(string \<times> 'v) list"

abbreviation keys :: "('k \<times> 'v) list \<Rightarrow> 'k list" where
  "keys d \<equiv> map fst d"

abbreviation vals :: "('k \<times> 'v) list \<Rightarrow> 'v list" where
  "vals d \<equiv> map snd d"

definition wf_dict :: "('k \<times> 'v) list \<Rightarrow> bool" where
  "wf_dict d \<longleftrightarrow> distinct (keys d)"

definition dget :: "('k \<times> 'v) list \<Rightarrow> 'k \<Rightarrow> 'v \<Rightarrow> 'v" where
  "dget d k v = (case map_of d k of None \<Rightarrow> v | Some w \<Rightarrow> w)"

definition has_key :: "('k \<times> 'v) list \<Rightarrow> 'k \<Rightarrow> bool" where
  "has_key d k \<longleftrightarrow> k \<in> set (keys d)"

text \<open>\<open>json.dumps(..., sort_keys=True)\<close> followed by \<open>json.loads\<close> leaves the keys in order.\<close>

definition sort_keys :: "('v) dict \<Rightarrow> 'v dict" where
  "sort_keys d = sort_key fst d"

text \<open>Dictionary equality ignores order.\<close>

definition dict_eq :: "'v dict \<Rightarrow> 'v dict \<Rightarrow> bool" where
  "dict_eq d e \<longleftrightarrow> sort_keys d = sort_keys e"

lemma wf_dict_Nil [simp, dict_simps]: "wf_dict []"
  by (simp add: wf_dict_def)

lemma wf_dict_Cons [simp, dict_simps]:
  "wf_dict ((k, v) # d) \<longleftrightarrow> k \<notin> set (keys d) \<and> wf_dict d"
  by (simp add: wf_dict_def)

lemma wf_dict_update [simp, dict_simps]: "wf_dict d \<Longrightarrow> wf_dict (AList.update k v d)"
  by (simp add: wf_dict_def distinct_update)

lemma wf_dict_delete [simp, dict_simps]: "wf_dict d \<Longrightarrow> wf_dict (AList.delete k d)"
  by (simp add: wf_dict_def distinct_delete)

lemma wf_dict_map_vals [simp]: "wf_dict (map (\<lambda>(k, v). (k, f k v)) d) \<longleftrightarrow> wf_dict d"
  by (simp add: wf_dict_def comp_def case_prod_beta)

lemma map_of_map_vals:
  "map_of (map (\<lambda>(k, v). (k, f k v)) d) k = map_option (f k) (map_of d k)"
  by (induction d) auto

lemma map_of_update [simp, dict_simps]:
  "map_of (AList.update k v d) k' = (if k' = k then Some v else map_of d k')"
  by (simp add: update_conv')

lemma map_of_delete_eq [simp, dict_simps]:
  "map_of (AList.delete k d) k' = (if k' = k then None else map_of d k')"
  by (simp add: delete_conv')

lemma set_update_subset: "p \<in> set (AList.update k v d) \<Longrightarrow> p = (k, v) \<or> p \<in> set d"
  by (induction d) (auto split: if_splits)

lemma set_delete: "set (AList.delete k d) = {p \<in> set d. fst p \<noteq> k}"
  by (auto simp: AList.delete_eq)

lemma delete_fresh: "map_of d k = None \<Longrightarrow> AList.delete k d = d"
  by (simp add: map_of_eq_None_iff)

lemma wf_dict_map_of: "wf_dict d \<Longrightarrow> (k, v) \<in> set d \<longleftrightarrow> map_of d k = Some v"
  by (simp add: wf_dict_def)

lemma has_key_iff: "has_key d k \<longleftrightarrow> map_of d k \<noteq> None"
  by (simp add: has_key_def map_of_eq_None_iff image_image)

lemma mset_sort_keys [simp, dict_simps]: "mset (sort_keys d) = mset d"
  by (simp add: sort_keys_def)

lemma set_sort_keys [simp, dict_simps]: "set (sort_keys d) = set d"
  by (simp add: sort_keys_def)

lemma length_sort_keys [simp, dict_simps]: "length (sort_keys d) = length d"
  by (simp add: sort_keys_def)

lemma wf_dict_mset: "mset d = mset e \<Longrightarrow> wf_dict d \<longleftrightarrow> wf_dict e"
  by (metis mset_eq_imp_distinct_iff mset_map wf_dict_def)

lemma wf_dict_sort_keys [simp, dict_simps]: "wf_dict (sort_keys d) \<longleftrightarrow> wf_dict d"
  by (rule wf_dict_mset) simp

lemma map_of_mset: "mset d = mset e \<Longrightarrow> wf_dict d \<Longrightarrow> map_of d = map_of e"
  using wf_dict_mset [of d e] by (metis map_of_inject_set set_mset_mset wf_dict_def)

lemma map_of_sort_keys [simp, dict_simps]: "wf_dict d \<Longrightarrow> map_of (sort_keys d) = map_of d"
  by (rule map_of_mset) simp_all

lemma dict_eq_refl [simp]: "dict_eq d d"
  by (simp add: dict_eq_def)

lemma dict_eq_map_of: "dict_eq d e \<Longrightarrow> wf_dict d \<Longrightarrow> map_of d = map_of e"
  by (metis dict_eq_def map_of_mset mset_sort_keys)

text \<open>Totals over the values of a dictionary, the form every conservation law takes.\<close>

definition total :: "('v \<Rightarrow> int) \<Rightarrow> ('k \<times> 'v) list \<Rightarrow> int" where
  "total f d = sum_list (map (f \<circ> snd) d)"

lemma total_Nil [simp, dict_simps]: "total f [] = 0"
  by (simp add: total_def)

lemma total_Cons [simp, dict_simps]: "total f ((k, v) # d) = f v + total f d"
  by (simp add: total_def)

lemma total_append [simp, dict_simps]: "total f (d @ e) = total f d + total f e"
  by (simp add: total_def)

lemma total_update_new:
  "map_of d k = None \<Longrightarrow> total f (AList.update k v d) = total f d + f v"
  by (induction d) auto

lemma total_update_old:
  "map_of d k = Some w \<Longrightarrow> total f (AList.update k v d) = total f d - f w + f v"
  by (induction d) auto

lemma total_delete:
  "wf_dict d \<Longrightarrow> map_of d k = Some w \<Longrightarrow> total f (AList.delete k d) = total f d - f w"
proof (induction d)
  case (Cons p d)
  obtain a b where p: "p = (a, b)" by force
  have "AList.delete a d = d" if "a \<notin> fst ` set d"
    using that by simp
  with Cons p show ?case by auto
qed simp

lemma total_mset: "mset d = mset e \<Longrightarrow> total f d = total f e"
  by (metis mset_map sum_mset_sum_list total_def)

lemma total_sort_keys [simp, dict_simps]: "total f (sort_keys d) = total f d"
  by (rule total_mset) simp

lemma total_nonneg: "(\<And>k v. (k, v) \<in> set d \<Longrightarrow> 0 \<le> f v) \<Longrightarrow> 0 \<le> total f d"
  by (induction d) fastforce+

lemma total_ge_member:
  assumes "(k, v) \<in> set d" and "\<And>k v. (k, v) \<in> set d \<Longrightarrow> 0 \<le> f v"
  shows "f v \<le> total f d"
  using assms
proof (induction d)
  case (Cons p d)
  obtain a b where p: "p = (a, b)" by force
  have "0 \<le> f b" and "0 \<le> total f d"
    using Cons.prems(2) p by (auto intro: total_nonneg)
  with Cons p show ?case by fastforce
qed simp

lemma total_cong:
  "(\<And>k v. (k, v) \<in> set d \<Longrightarrow> f v = g v) \<Longrightarrow> total f d = total g d"
  by (induction d) (simp, fastforce)

lemma total_add: "total (\<lambda>v. f v + g v) d = total f d + total g d"
  by (induction d) auto

lemma total_map_vals: "total f (map (\<lambda>(k, v). (k, g k v)) d) = sum_list (map (\<lambda>(k, v). f (g k v)) d)"
  by (induction d) auto

section \<open>Python strings\<close>

definition code_point :: "char \<Rightarrow> nat" where
  "code_point c = of_char c"

definition is_py_space :: "char \<Rightarrow> bool" where
  "is_py_space c \<longleftrightarrow> (let n = code_point c in
     9 \<le> n \<and> n \<le> 13 \<or> 28 \<le> n \<and> n \<le> 32 \<or> n = 133 \<or> n = 160)"

definition strip :: "string \<Rightarrow> string" where
  "strip s = rev (dropWhile is_py_space (rev (dropWhile is_py_space s)))"

definition lower_char :: "char \<Rightarrow> char" where
  "lower_char c = (let n = code_point c in
     if 65 \<le> n \<and> n \<le> 90 \<or> 192 \<le> n \<and> n \<le> 222 \<and> n \<noteq> 215 then char_of (n + 32) else c)"

definition lower :: "string \<Rightarrow> string" where
  "lower s = map lower_char s"

type_synonym byte = "8 word"

definition utf8 :: "string \<Rightarrow> byte list" where
  "utf8 s = concat (map (\<lambda>c. let n = code_point c in
     if n < 128 then [word_of_nat n]
     else [word_of_nat (192 + n div 64), word_of_nat (128 + n mod 64)]) s)"

definition startswith :: "string \<Rightarrow> string \<Rightarrow> bool" where
  "startswith s p \<longleftrightarrow> prefix p s"

definition is_digit :: "char \<Rightarrow> bool" where
  "is_digit c \<longleftrightarrow> 48 \<le> code_point c \<and> code_point c \<le> 57"

definition is_lower_hex :: "char \<Rightarrow> bool" where
  "is_lower_hex c \<longleftrightarrow> is_digit c \<or> 97 \<le> code_point c \<and> code_point c \<le> 102"

definition is_hex :: "char \<Rightarrow> bool" where
  "is_hex c \<longleftrightarrow> is_lower_hex c \<or> 65 \<le> code_point c \<and> code_point c \<le> 70"

definition is_upper :: "char \<Rightarrow> bool" where
  "is_upper c \<longleftrightarrow> 65 \<le> code_point c \<and> code_point c \<le> 90"

lemma rev_dropWhile_strip: "strip (strip s) = strip s"
proof -
  define t where "t = dropWhile is_py_space s"
  have hd_t: "t = [] \<or> \<not> is_py_space (hd t)"
    unfolding t_def by (metis hd_dropWhile)
  define u where "u = rev (dropWhile is_py_space (rev t))"
  have u: "strip s = u" by (simp add: strip_def t_def u_def)
  have "prefix u t"
    unfolding u_def
    by (metis rev_rev_ident suffix_dropWhile suffix_to_prefix)
  then have "u = [] \<or> hd u = hd t"
    by (cases u) (auto simp: prefix_def)
  then have "u = [] \<or> \<not> is_py_space (hd u)"
    using hd_t \<open>prefix u t\<close> by auto
  then have 1: "dropWhile is_py_space u = u"
    by (cases u) auto
  have "rev u = [] \<or> \<not> is_py_space (hd (rev u))"
    unfolding u_def by (metis hd_dropWhile rev_rev_ident)
  then have 2: "dropWhile is_py_space (rev u) = rev u"
    by (cases "rev u") auto
  show ?thesis
    unfolding u by (simp add: strip_def 1 2)
qed

lemmas strip_idem [simp] = rev_dropWhile_strip

section \<open>JSON values\<close>

text \<open>
  A value of a decoded JSON document or of a claims dictionary. A float carries its exact value
  and the text of its \<open>repr\<close>.
\<close>

datatype jv =
    JNull
  | JBool bool
  | JInt int
  | JFloat rat string
  | JStr string
  | JArr "jv list"
  | JObj "(string \<times> jv) list"

text \<open>\<open>d.get(k)\<close>: a missing key and \<open>null\<close> both read as \<open>None\<close>.\<close>

definition jget :: "(string \<times> jv) list \<Rightarrow> string \<Rightarrow> jv" where
  "jget d k = dget d k JNull"

text \<open>Python's numeric equality: \<open>True == 1 == 1.0\<close>.\<close>

fun jnum :: "jv \<Rightarrow> rat option" where
  "jnum (JBool b) = Some (if b then 1 else 0)"
| "jnum (JInt n) = Some (of_int n)"
| "jnum (JFloat r _) = Some r"
| "jnum _ = None"

definition jeq_int :: "jv \<Rightarrow> int \<Rightarrow> bool" where
  "jeq_int v n \<longleftrightarrow> jnum v = Some (of_int n)"

fun wf_json :: "jv \<Rightarrow> bool" where
  "wf_json (JArr vs) \<longleftrightarrow> (\<forall>v \<in> set vs. wf_json v)"
| "wf_json (JObj d) \<longleftrightarrow> wf_dict d \<and> (\<forall>p \<in> set d. wf_json (snd p))"
| "wf_json _ \<longleftrightarrow> True"

lemma jget_simps [simp, dict_simps]:
  "jget [] k = JNull"
  "jget ((k', v) # d) k = (if k = k' then v else jget d k)"
  by (simp_all add: jget_def dget_def)

lemma jeq_int_simps [simp]:
  "jeq_int (JInt m) n \<longleftrightarrow> m = n"
  "jeq_int (JStr s) n \<longleftrightarrow> False"
  "jeq_int JNull n \<longleftrightarrow> False"
  "jeq_int (JArr vs) n \<longleftrightarrow> False"
  "jeq_int (JObj d) n \<longleftrightarrow> False"
  by (simp_all add: jeq_int_def)

section \<open>Values kept once per scope\<close>

text \<open>
  Both spending ledgers keep every quantity for the scopes \<open>("session", "agent", "lineage")\<close>
  in this order; a dictionary with exactly these keys is a record.
\<close>

datatype scope = Session | Agent | Lineage

record 'v scoped =
  at_session :: 'v
  at_agent :: 'v
  at_lineage :: 'v

definition scopes :: "scope list" where
  "scopes = [Session, Agent, Lineage]"

fun scope_name :: "scope \<Rightarrow> string" where
  "scope_name Session = ''session''"
| "scope_name Agent = ''agent''"
| "scope_name Lineage = ''lineage''"

fun at_scope :: "'v scoped \<Rightarrow> scope \<Rightarrow> 'v" where
  "at_scope r Session = at_session r"
| "at_scope r Agent = at_agent r"
| "at_scope r Lineage = at_lineage r"

definition scoped_of :: "(scope \<Rightarrow> 'v) \<Rightarrow> 'v scoped" where
  "scoped_of f = \<lparr>at_session = f Session, at_agent = f Agent, at_lineage = f Lineage\<rparr>"

lemma at_scope_of [simp]: "at_scope (scoped_of f) s = f s"
  by (cases s) (simp_all add: scoped_of_def)

lemma scope_in_scopes [simp, intro]: "s \<in> set scopes"
  by (cases s) (simp_all add: scopes_def)

lemma scoped_eqI: "(\<And>s. at_scope r s = at_scope q s) \<Longrightarrow> r = (q :: 'v scoped)"
  by (metis at_scope.simps old.unit.exhaust scoped.equality)

lemma scope_name_inj: "scope_name s = scope_name t \<longleftrightarrow> s = t"
  by (cases s; cases t) simp_all

lemma scope_name_no_colon: "CHR '':'' \<notin> set (scope_name s)"
  by (cases s) simp_all

end
