(* ===== verification/Sha256.thy ===== *)
theory Sha256
  imports Prelude
begin

text \<open>
  The hash of Python's standard library that the source calls as \<open>hashlib.sha256\<close>
  (FIPS 180-4), executable, on lists of bytes. The development uses of it only that it is a
  function and that its digests have 32 bytes, written as 64 lower-case hexadecimal digits;
  no property rests on the absence of collisions unless its statement says so.
\<close>

unbundle bit_operations_syntax

type_synonym w32 = "32 word"

definition rotr :: "nat \<Rightarrow> w32 \<Rightarrow> w32" where
  "rotr n x = word_rotr n x"

definition big_sigma0 :: "w32 \<Rightarrow> w32" where
  "big_sigma0 x = rotr 2 x XOR rotr 13 x XOR rotr 22 x"

definition big_sigma1 :: "w32 \<Rightarrow> w32" where
  "big_sigma1 x = rotr 6 x XOR rotr 11 x XOR rotr 25 x"

definition small_sigma0 :: "w32 \<Rightarrow> w32" where
  "small_sigma0 x = rotr 7 x XOR rotr 18 x XOR drop_bit 3 x"

definition small_sigma1 :: "w32 \<Rightarrow> w32" where
  "small_sigma1 x = rotr 17 x XOR rotr 19 x XOR drop_bit 10 x"

definition ch_fun :: "w32 \<Rightarrow> w32 \<Rightarrow> w32 \<Rightarrow> w32" where
  "ch_fun x y z = (x AND y) XOR (NOT x AND z)"

definition maj_fun :: "w32 \<Rightarrow> w32 \<Rightarrow> w32 \<Rightarrow> w32" where
  "maj_fun x y z = (x AND y) XOR (x AND z) XOR (y AND z)"

text \<open>
  The standard defines its constants as the first 32 bits of the fractional parts of the cube
  and square roots of the first primes; they are computed that way, \<open>root_bits d p\<close> being
  the last 32 bits of the integer \<open>d\<close>-th root of \<open>p * 2 ^ (32 * d)\<close>.
\<close>

fun root_search :: "nat \<Rightarrow> int \<Rightarrow> int \<Rightarrow> int list \<Rightarrow> int" where
  "root_search d n acc [] = acc"
| "root_search d n acc (step # steps) =
    root_search d n (if (acc + step) ^ d \<le> n then acc + step else acc) steps"

definition root_bits :: "nat \<Rightarrow> int \<Rightarrow> w32" where
  "root_bits d p =
    word_of_int (root_search d (p * 2 ^ (32 * d)) 0 (map (\<lambda>k. 2 ^ k) (rev [0..<35])))"

definition is_prime :: "int \<Rightarrow> bool" where
  "is_prime n \<longleftrightarrow> list_all (\<lambda>d. n < d * d \<or> n mod d \<noteq> 0) [2, 3, 5, 7, 11, 13, 17]"

definition first_primes :: "int list" where
  "first_primes = filter is_prime [2..311]"

definition round_constants :: "w32 list" where
  "round_constants = map (root_bits 3) first_primes"

record hash_state =
  hs_a :: w32
  hs_b :: w32
  hs_c :: w32
  hs_d :: w32
  hs_e :: w32
  hs_f :: w32
  hs_g :: w32
  hs_h :: w32

definition initial_hash :: hash_state where
  "initial_hash =
    \<lparr>hs_a = root_bits 2 2, hs_b = root_bits 2 3, hs_c = root_bits 2 5, hs_d = root_bits 2 7,
     hs_e = root_bits 2 11, hs_f = root_bits 2 13, hs_g = root_bits 2 17, hs_h = root_bits 2 19\<rparr>"

definition be_word :: "byte list \<Rightarrow> w32" where
  "be_word bs = foldl (\<lambda>acc b. push_bit 8 acc OR ucast b) 0 bs"

definition be_bytes :: "w32 \<Rightarrow> byte list" where
  "be_bytes w = map (\<lambda>k. ucast (drop_bit k w)) [24, 16, 8, 0]"

fun chunks :: "nat \<Rightarrow> 'a list \<Rightarrow> 'a list list" where
  "chunks n xs = (if n = 0 \<or> xs = [] then [] else take n xs # chunks n (drop n xs))"

declare chunks.simps [simp del]

definition length_field :: "nat \<Rightarrow> byte list" where
  "length_field n =
    map (\<lambda>k. ucast (drop_bit k (word_of_nat (8 * n) :: 64 word))) [56, 48, 40, 32, 24, 16, 8, 0]"

definition pad :: "byte list \<Rightarrow> byte list" where
  "pad m = m @ 128 # replicate (nat ((55 - int (length m)) mod 64)) 0 @ length_field (length m)"

text \<open>The message schedule, most recent word first.\<close>

definition next_word :: "w32 list \<Rightarrow> w32" where
  "next_word rws = small_sigma1 (rws ! 1) + rws ! 6 + small_sigma0 (rws ! 14) + rws ! 15"

fun extend_schedule :: "nat \<Rightarrow> w32 list \<Rightarrow> w32 list" where
  "extend_schedule 0 rws = rws"
| "extend_schedule (Suc n) rws = extend_schedule n (next_word rws # rws)"

definition schedule :: "byte list \<Rightarrow> w32 list" where
  "schedule block = rev (extend_schedule 48 (rev (map be_word (chunks 4 block))))"

fun compress_round :: "hash_state \<Rightarrow> w32 \<times> w32 \<Rightarrow> hash_state" where
  "compress_round s (k, w) =
    (let t1 = hs_h s + big_sigma1 (hs_e s) + ch_fun (hs_e s) (hs_f s) (hs_g s) + k + w;
         t2 = big_sigma0 (hs_a s) + maj_fun (hs_a s) (hs_b s) (hs_c s)
     in \<lparr>hs_a = t1 + t2, hs_b = hs_a s, hs_c = hs_b s, hs_d = hs_c s,
         hs_e = hs_d s + t1, hs_f = hs_e s, hs_g = hs_f s, hs_h = hs_g s\<rparr>)"

definition compress :: "hash_state \<Rightarrow> byte list \<Rightarrow> hash_state" where
  "compress s block =
    (let r = foldl compress_round s (zip round_constants (schedule block))
     in \<lparr>hs_a = hs_a s + hs_a r, hs_b = hs_b s + hs_b r, hs_c = hs_c s + hs_c r,
         hs_d = hs_d s + hs_d r, hs_e = hs_e s + hs_e r, hs_f = hs_f s + hs_f r,
         hs_g = hs_g s + hs_g r, hs_h = hs_h s + hs_h r\<rparr>)"

definition sha256 :: "byte list \<Rightarrow> byte list" where
  "sha256 m =
    (let s = foldl compress initial_hash (chunks 64 (pad m))
     in concat (map be_bytes
          [hs_a s, hs_b s, hs_c s, hs_d s, hs_e s, hs_f s, hs_g s, hs_h s]))"

definition hex_digit :: "nat \<Rightarrow> char" where
  "hex_digit n = (if n < 10 then char_of (48 + n) else char_of (87 + n))"

definition hexlify :: "byte list \<Rightarrow> string" where
  "hexlify bs =
    concat (map (\<lambda>b. [hex_digit (unat b div 16), hex_digit (unat b mod 16)]) bs)"

text \<open>\<open>hashlib.sha256(s.encode("utf-8")).hexdigest()\<close>.\<close>

definition sha256_hex :: "string \<Rightarrow> string" where
  "sha256_hex s = hexlify (sha256 (utf8 s))"

section \<open>The shape of digests\<close>

lemma length_be_bytes [simp]: "length (be_bytes w) = 4"
  by (simp add: be_bytes_def)

lemma length_sha256 [simp, hash_simps]: "length (sha256 m) = 32"
  by (simp add: sha256_def Let_def)

lemma length_hexlify [simp]: "length (hexlify bs) = 2 * length bs"
  by (induction bs) (simp_all add: hexlify_def)

lemma length_sha256_hex [simp, hash_simps]: "length (sha256_hex s) = 64"
  by (simp add: sha256_hex_def)

lemma sha256_hex_nonempty [simp, hash_simps]: "sha256_hex s \<noteq> []"
proof
  assume "sha256_hex s = []"
  with length_sha256_hex [of s] show False by simp
qed

lemma code_point_char_of [simp]: "n < 256 \<Longrightarrow> code_point (char_of n) = n"
  by (simp add: code_point_def)

lemma hex_digit_lower: "n < 16 \<Longrightarrow> is_lower_hex (hex_digit n)"
  by (simp add: hex_digit_def is_lower_hex_def is_digit_def)

lemma hexlify_lower:
  assumes "c \<in> set (hexlify bs)"
  shows "is_lower_hex c"
proof -
  from assms obtain b :: byte
    where c: "c = hex_digit (unat b div 16) \<or> c = hex_digit (unat b mod 16)"
    by (auto simp: hexlify_def)
  have "unat b < 2 ^ LENGTH(8)" by (rule unsigned_less)
  then have "unat b < 256" by simp
  then have "unat b div 16 < 16" by auto
  with c show ?thesis by (auto intro: hex_digit_lower)
qed

lemma sha256_hex_lower [hash_simps]: "c \<in> set (sha256_hex s) \<Longrightarrow> is_lower_hex c"
  unfolding sha256_hex_def by (rule hexlify_lower)

text \<open>The one-block test vector of FIPS 180-4.\<close>

lemma sha256_hex_abc:
  "sha256_hex ''abc'' = ''ba7816bf8f01cfea414140de5dae2223b00361a396177a9cb410ff61f20015ad''"
  by code_simp

end
