(* ===== verification/Ledger_Spec.thy ===== *)
theory Ledger_Spec
  imports Prelude
begin

text \<open>
  What the three file-backed ledgers share: the file a ledger keeps its payload in, the run of
  a sequence of operations, and the contracts the rest of the program relies on. A contract is
  a locale; each ledger theory interprets it on its own operations.
\<close>

section \<open>The file behind a ledger\<close>

text \<open>
  A ledger file is missing, holds a payload of the shape the code writes, or holds anything
  else. Writers replace the file atomically (a temporary file and \<open>os.replace\<close>) under an
  exclusive lock, so one operation is one step.
\<close>

datatype 'p ledger_file = Absent | Corrupt | Stored 'p

text \<open>A directory of such files, by file name.\<close>

type_synonym 'p directory = "string \<Rightarrow> 'p ledger_file"

definition empty_directory :: "'p directory" where
  "empty_directory = (\<lambda>_. Absent)"

section \<open>Runs\<close>

text \<open>\<open>exec op s\<close> is the outcome of one operation and the state it leaves.\<close>

primrec run :: "('op \<Rightarrow> 's \<Rightarrow> 'r \<times> 's) \<Rightarrow> 'op list \<Rightarrow> 's \<Rightarrow> 's" where
  "run exec [] s = s"
| "run exec (op # ops) s = run exec ops (snd (exec op s))"

lemma run_append: "run exec (xs @ ys) s = run exec ys (run exec xs s)"
  by (induction xs arbitrary: s) simp_all

section \<open>Contracts\<close>

text \<open>A ledger with an invariant that every operation keeps, whether it returns or raises, when its
  arguments have the shape their types promise (\<open>admissible\<close>: a dictionary has no key twice).\<close>

locale invariant_ledger =
  fixes exec :: "'op \<Rightarrow> 's \<Rightarrow> ('e + 'r) \<times> 's"
    and admissible :: "'op \<Rightarrow> bool"
    and inv :: "'s \<Rightarrow> bool"
    and start :: 's
  assumes inv_start: "inv start"
    and inv_exec: "inv s \<Longrightarrow> admissible op \<Longrightarrow> inv (snd (exec op s))"
begin

lemma inv_run: "inv s \<Longrightarrow> list_all admissible ops \<Longrightarrow> inv (run exec ops s)"
  by (induction ops arbitrary: s) (simp_all add: inv_exec)

lemma inv_reachable: "list_all admissible ops \<Longrightarrow> inv (run exec ops start)"
  by (rule inv_run) (rule inv_start)

end

text \<open>A transactional ledger: moreover, an operation that raises leaves the state as it was.\<close>

locale transactional_ledger = invariant_ledger exec admissible inv start
  for exec :: "'op \<Rightarrow> 's \<Rightarrow> ('e + 'r) \<times> 's"
    and admissible :: "'op \<Rightarrow> bool"
    and inv :: "'s \<Rightarrow> bool"
    and start :: 's +
  assumes raise_unchanged: "fst (exec op s) = Inl e \<Longrightarrow> snd (exec op s) = s"
begin

text \<open>Operations that raise can be dropped from a history without changing its outcome.\<close>

lemma raising_op_irrelevant:
  assumes "fst (exec op (run exec xs s)) = Inl e"
  shows "run exec (xs @ op # ys) s = run exec (xs @ ys) s"
  using raise_unchanged [OF assms] by (simp add: run_append)

end

text \<open>A ledger whose operations never lower a quantity: what was spent stays spent.\<close>

locale monotone_ledger = invariant_ledger exec admissible inv start
  for exec :: "'op \<Rightarrow> 's \<Rightarrow> ('e + 'r) \<times> 's"
    and admissible :: "'op \<Rightarrow> bool"
    and inv :: "'s \<Rightarrow> bool"
    and start :: 's +
  fixes measure :: "'s \<Rightarrow> 'k \<Rightarrow> int"
  assumes measure_exec: "inv s \<Longrightarrow> admissible op \<Longrightarrow> measure s k \<le> measure (snd (exec op s)) k"
begin

lemma measure_run: "inv s \<Longrightarrow> list_all admissible ops \<Longrightarrow> measure s k \<le> measure (run exec ops s) k"
proof (induction ops arbitrary: s)
  case (Cons op ops)
  then have "measure s k \<le> measure (snd (exec op s)) k" by (simp add: measure_exec)
  also have "\<dots> \<le> measure (run exec ops (snd (exec op s))) k"
    using Cons.prems by (intro Cons.IH inv_exec) simp_all
  finally show ?case by simp
qed simp

lemma measure_history:
  "list_all admissible (xs @ ys) \<Longrightarrow>
    measure (run exec xs start) k \<le> measure (run exec (xs @ ys) start) k"
  using measure_run [OF inv_reachable] by (simp add: run_append)

end

end
