(* ===== verification/Lineage_Budget.thy ===== *)
theory Lineage_Budget
  imports Sha256 Ledger_Spec
begin

text \<open>
  The reservation ledger of \<open>lineage_budget.py\<close>: how much of a parent passport's tool-call
  ceiling is set aside for its children. One file per parent, named by the digest of the
  parent's identifier.
\<close>

section \<open>State\<close>

datatype lb_error =
    LbValueError string
  | LineageBudgetConflictError string

record lb_reservation =
  lr_amount :: int
  lr_child_agent_id :: "string option"
  lr_child_jti :: "string option"

record lb_closed =
  lc_operation :: string
  lc_amount :: int
  lc_child_agent_id :: "string option"
  lc_child_jti :: "string option"

record lb_payload =
  lb_version :: int
  lb_parent_jti :: string
  lb_reserved_total :: int
  lb_reservations :: "lb_reservation dict"
  lb_closed_reservations :: "lb_closed dict"

type_synonym lb_state = "lb_payload directory"

record reservation_result =
  rs_accepted :: bool
  rs_parent_jti :: string
  rs_request_id :: string
  rs_amount :: int
  rs_reserved_total :: int
  rs_remaining_before :: int
  rs_remaining_after :: int
  rs_idempotent :: bool

record release_result =
  rl_parent_jti :: string
  rl_request_id :: string
  rl_amount :: int
  rl_reserved_total :: int
  rl_operation :: string
  rl_idempotent :: bool

record lb_reserve_args =
  ra_parent_jti :: string
  ra_request_id :: string
  ra_amount :: int
  ra_ceiling :: int
  ra_used_total :: int
  ra_child_agent_id :: "string option"
  ra_child_jti :: "string option"
  ra_floor_reserved_total :: int

section \<open>Operations\<close>

definition lb_path :: "string \<Rightarrow> string" where
  "lb_path parent_jti = sha256_hex parent_jti @ ''.json''"

definition lb_fresh :: "string \<Rightarrow> lb_payload" where
  "lb_fresh parent_jti =
    \<lparr>lb_version = 1, lb_parent_jti = parent_jti, lb_reserved_total = 0,
     lb_reservations = [], lb_closed_reservations = []\<rparr>"

definition lb_load :: "lb_state \<Rightarrow> string \<Rightarrow> lb_error + lb_payload" where
  "lb_load st parent_jti =
    (case st (lb_path parent_jti) of
       Absent \<Rightarrow> Inr (lb_fresh parent_jti)
     | Corrupt \<Rightarrow> Inl (LbValueError ''lineage budget ledger must contain a JSON object'')
     | Stored p \<Rightarrow> Inr p)"

definition lb_persist :: "lb_state \<Rightarrow> string \<Rightarrow> lb_payload \<Rightarrow> lb_state" where
  "lb_persist st parent_jti p =
    st(lb_path parent_jti := Stored
      (p\<lparr>lb_reservations := sort_keys (lb_reservations p),
         lb_closed_reservations := sort_keys (lb_closed_reservations p)\<rparr>))"

definition lb_reserved_total_op :: "lb_state \<Rightarrow> string \<Rightarrow> int \<Rightarrow> lb_error + int" where
  "lb_reserved_total_op st parent_jti floor_reserved_total =
    rbind (lb_load st parent_jti) (\<lambda>p. Inr (max (lb_reserved_total p) floor_reserved_total))"

definition lb_reservation_op ::
  "lb_state \<Rightarrow> string \<Rightarrow> string \<Rightarrow> lb_error + lb_reservation option" where
  "lb_reservation_op st parent_jti request_id =
    rbind (lb_load st parent_jti) (\<lambda>p. Inr (map_of (lb_reservations p) request_id))"

text \<open>The part of \<open>reserve\<close> under the lock: the result, and the payload it writes, if any.\<close>

definition lb_reserve_locked ::
  "lb_reserve_args \<Rightarrow> lb_payload \<Rightarrow> lb_error + reservation_result \<times> lb_payload option" where
  "lb_reserve_locked a p =
    (let reserved_total = max (lb_reserved_total p) (ra_floor_reserved_total a);
         remaining_before = max 0 (ra_ceiling a - ra_used_total a - reserved_total);
         result = \<lparr>rs_accepted = True, rs_parent_jti = ra_parent_jti a,
           rs_request_id = ra_request_id a, rs_amount = ra_amount a,
           rs_reserved_total = reserved_total, rs_remaining_before = remaining_before,
           rs_remaining_after = remaining_before, rs_idempotent = False\<rparr>
     in case map_of (lb_reservations p) (ra_request_id a) of
       Some existing \<Rightarrow>
         if lr_amount existing \<noteq> ra_amount a
           \<or> lr_child_agent_id existing \<noteq> ra_child_agent_id a
         then Inl (LineageBudgetConflictError
           ''delegation_request_id already used for a different reservation'')
         else Inr (result\<lparr>rs_amount := lr_amount existing, rs_idempotent := True\<rparr>, None)
     | None \<Rightarrow>
         if ra_amount a > remaining_before
         then Inr (result\<lparr>rs_accepted := False\<rparr>, None)
         else
           Inr (result\<lparr>rs_reserved_total := reserved_total + ra_amount a,
                  rs_remaining_after := max 0 (remaining_before - ra_amount a)\<rparr>,
                Some (p\<lparr>lb_reserved_total := reserved_total + ra_amount a,
                  lb_reservations := AList.update (ra_request_id a)
                    \<lparr>lr_amount = ra_amount a, lr_child_agent_id = ra_child_agent_id a,
                     lr_child_jti = ra_child_jti a\<rparr> (lb_reservations p)\<rparr>)))"

text \<open>Commit the payload a locked section decided to write.\<close>

definition lb_commit ::
  "lb_state \<Rightarrow> string \<Rightarrow> lb_error + 'r \<times> lb_payload option \<Rightarrow> (lb_error + 'r) \<times> lb_state" where
  "lb_commit st parent_jti m =
    (case m of
       Inl e \<Rightarrow> (Inl e, st)
     | Inr (r, None) \<Rightarrow> (Inr r, st)
     | Inr (r, Some p) \<Rightarrow> (Inr r, lb_persist st parent_jti p))"

definition lb_reserve ::
  "lb_reserve_args \<Rightarrow> lb_state \<Rightarrow> (lb_error + reservation_result) \<times> lb_state" where
  "lb_reserve a st =
    (if ra_request_id a = [] then
       (Inl (LbValueError ''delegation_request_id must be a non-empty string''), st)
     else if ra_amount a < 0 then
       (Inl (LbValueError ''reservation amount must be non-negative''), st)
     else if ra_ceiling a < 0 \<or> ra_used_total a < 0 then
       (Inl (LbValueError ''budget ceiling and used total must be non-negative''), st)
     else lb_commit st (ra_parent_jti a)
       (rbind (lb_load st (ra_parent_jti a)) (lb_reserve_locked a)))"

definition lb_close_locked ::
  "string \<Rightarrow> string \<Rightarrow> string \<Rightarrow> lb_payload \<Rightarrow> lb_error + release_result \<times> lb_payload option" where
  "lb_close_locked parent_jti request_id operation p =
    (case map_of (lb_closed_reservations p) request_id of
       Some prior \<Rightarrow>
         if lc_operation prior \<noteq> operation
         then Inl (LineageBudgetConflictError ''request_id already closed'')
         else Inr (\<lparr>rl_parent_jti = parent_jti, rl_request_id = request_id,
           rl_amount = lc_amount prior, rl_reserved_total = lb_reserved_total p,
           rl_operation = operation, rl_idempotent = True\<rparr>, None)
     | None \<Rightarrow>
         (case map_of (lb_reservations p) request_id of
            None \<Rightarrow> Inl (LbValueError ''no active reservation for request_id'')
          | Some active \<Rightarrow>
              let amount = lr_amount active;
                  reserved_total = max 0 (lb_reserved_total p - amount)
              in Inr (\<lparr>rl_parent_jti = parent_jti, rl_request_id = request_id,
                   rl_amount = amount, rl_reserved_total = reserved_total,
                   rl_operation = operation, rl_idempotent = False\<rparr>,
                 Some (p\<lparr>lb_reserved_total := reserved_total,
                   lb_reservations := AList.delete request_id (lb_reservations p),
                   lb_closed_reservations := AList.update request_id
                     \<lparr>lc_operation = operation, lc_amount = amount,
                      lc_child_agent_id = lr_child_agent_id active,
                      lc_child_jti = lr_child_jti active\<rparr> (lb_closed_reservations p)\<rparr>))))"

definition lb_close_reservation ::
  "string \<Rightarrow> string \<Rightarrow> string \<Rightarrow> lb_state \<Rightarrow> (lb_error + release_result) \<times> lb_state" where
  "lb_close_reservation parent_jti request_id operation st =
    (if operation \<notin> {''release'', ''reject''} then
       (Inl (LbValueError ''unsupported close operation''), st)
     else if request_id = [] then
       (Inl (LbValueError ''request_id must be a non-empty string''), st)
     else lb_commit st parent_jti
       (rbind (lb_load st parent_jti) (lb_close_locked parent_jti request_id operation)))"

definition lb_release_reservation ::
  "string \<Rightarrow> string \<Rightarrow> lb_state \<Rightarrow> (lb_error + release_result) \<times> lb_state" where
  "lb_release_reservation parent_jti request_id =
    lb_close_reservation parent_jti request_id ''release''"

definition lb_reject ::
  "string \<Rightarrow> string \<Rightarrow> lb_state \<Rightarrow> (lb_error + release_result) \<times> lb_state" where
  "lb_reject parent_jti request_id = lb_close_reservation parent_jti request_id ''reject''"

definition lb_snapshot :: "lb_state \<Rightarrow> string \<Rightarrow> lb_error + lb_payload" where
  "lb_snapshot st parent_jti = lb_load st parent_jti"

text \<open>The operations that write, as one step of the ledger.\<close>

datatype lb_op =
    LbReserve lb_reserve_args
  | LbRelease string string
  | LbReject string string

datatype lb_outcome = LbReserved reservation_result | LbClosed release_result

fun lb_exec :: "lb_op \<Rightarrow> lb_state \<Rightarrow> (lb_error + lb_outcome) \<times> lb_state" where
  "lb_exec (LbReserve a) st = map_prod (map_sum id LbReserved) id (lb_reserve a st)"
| "lb_exec (LbRelease j r) st = map_prod (map_sum id LbClosed) id (lb_release_reservation j r st)"
| "lb_exec (LbReject j r) st = map_prod (map_sum id LbClosed) id (lb_reject j r st)"

section \<open>The invariant\<close>

text \<open>
  The running total covers the active reservations. It may exceed their sum, because a
  caller's floor can lift it; it never falls below.
\<close>

definition lb_inv :: "lb_payload \<Rightarrow> bool" where
  "lb_inv p \<longleftrightarrow>
    wf_dict (lb_reservations p) \<and> wf_dict (lb_closed_reservations p) \<and>
    (\<forall>x \<in> set (lb_reservations p). 0 \<le> lr_amount (snd x)) \<and>
    total lr_amount (lb_reservations p) \<le> lb_reserved_total p"

definition lb_dir_inv :: "lb_state \<Rightarrow> bool" where
  "lb_dir_inv st \<longleftrightarrow> (\<forall>f p. st f = Stored p \<longrightarrow> lb_inv p)"

lemma lb_inv_fresh [simp]: "lb_inv (lb_fresh j)"
  by (simp add: lb_inv_def lb_fresh_def)

lemma lb_inv_load: "lb_dir_inv st \<Longrightarrow> lb_load st j = Inr p \<Longrightarrow> lb_inv p"
  by (auto simp: lb_dir_inv_def lb_load_def split: ledger_file.splits)

lemma lb_inv_nonneg:
  assumes "lb_inv p" shows "0 \<le> total lr_amount (lb_reservations p)"
  using assms by (intro total_nonneg) (auto simp: lb_inv_def)

lemma lb_inv_amount_le:
  assumes "lb_inv p" and "map_of (lb_reservations p) k = Some r"
  shows "0 \<le> lr_amount r" and "lr_amount r \<le> lb_reserved_total p"
proof -
  have mem: "(k, r) \<in> set (lb_reservations p)"
    using assms(2) by (rule map_of_SomeD)
  with assms(1) show "0 \<le> lr_amount r" by (force simp: lb_inv_def)
  have "lr_amount r \<le> total lr_amount (lb_reservations p)"
    using assms(1) mem by (intro total_ge_member) (force simp: lb_inv_def)+
  with assms(1) show "lr_amount r \<le> lb_reserved_total p" by (simp add: lb_inv_def)
qed

lemma lb_reserve_locked_write:
  assumes "lb_reserve_locked a p = Inr (r, Some p')"
  shows "map_of (lb_reservations p) (ra_request_id a) = None"
    and "ra_amount a \<le> max 0 (ra_ceiling a - ra_used_total a
           - max (lb_reserved_total p) (ra_floor_reserved_total a))"
    and "rs_reserved_total r
           = max (lb_reserved_total p) (ra_floor_reserved_total a) + ra_amount a"
    and "p' = p\<lparr>lb_reserved_total := rs_reserved_total r,
           lb_reservations := AList.update (ra_request_id a)
             \<lparr>lr_amount = ra_amount a, lr_child_agent_id = ra_child_agent_id a,
              lr_child_jti = ra_child_jti a\<rparr> (lb_reservations p)\<rparr>"
  using assms by (auto simp: lb_reserve_locked_def Let_def split: option.splits if_splits)

lemma lb_close_locked_write:
  assumes "lb_close_locked j k opn p = Inr (r, Some p')"
  obtains a where "map_of (lb_reservations p) k = Some a"
    and "map_of (lb_closed_reservations p) k = None"
    and "r = \<lparr>rl_parent_jti = j, rl_request_id = k, rl_amount = lr_amount a,
          rl_reserved_total = max 0 (lb_reserved_total p - lr_amount a),
          rl_operation = opn, rl_idempotent = False\<rparr>"
    and "p' = p\<lparr>lb_reserved_total := max 0 (lb_reserved_total p - lr_amount a),
          lb_reservations := AList.delete k (lb_reservations p),
          lb_closed_reservations := AList.update k
            \<lparr>lc_operation = opn, lc_amount = lr_amount a,
             lc_child_agent_id = lr_child_agent_id a, lc_child_jti = lr_child_jti a\<rparr>
            (lb_closed_reservations p)\<rparr>"
  using assms by (simp add: lb_close_locked_def Let_def split: option.splits if_splits)

lemma lb_inv_reserve_locked:
  assumes "lb_inv p" and "0 \<le> ra_amount a"
    and "lb_reserve_locked a p = Inr (r, Some p')"
  shows "lb_inv p'"
  using assms(1,2) lb_reserve_locked_write [OF assms(3)]
  by (auto simp: lb_inv_def total_update_new dest!: set_update_subset)

lemma lb_inv_close_locked:
  assumes "lb_inv p" and "lb_close_locked j k opn p = Inr (r, Some p')"
  shows "lb_inv p'"
proof -
  obtain a where "map_of (lb_reservations p) k = Some a"
    and "p' = p\<lparr>lb_reserved_total := max 0 (lb_reserved_total p - lr_amount a),
          lb_reservations := AList.delete k (lb_reservations p),
          lb_closed_reservations := AList.update k
            \<lparr>lc_operation = opn, lc_amount = lr_amount a,
             lc_child_agent_id = lr_child_agent_id a, lc_child_jti = lr_child_jti a\<rparr>
            (lb_closed_reservations p)\<rparr>"
    by (rule lb_close_locked_write [OF assms(2)]) blast
  then show ?thesis
    using assms(1) by (auto simp: lb_inv_def set_delete total_delete)
qed

lemma lb_inv_persist:
  "lb_dir_inv st \<Longrightarrow> lb_inv p \<Longrightarrow> lb_dir_inv (lb_persist st j p)"
  by (auto simp: lb_dir_inv_def lb_persist_def lb_inv_def)

lemma lb_inv_commit:
  assumes "lb_dir_inv st" and "\<And>r p. m = Inr (r, Some p) \<Longrightarrow> lb_inv p"
  shows "lb_dir_inv (snd (lb_commit st j m))"
  using assms by (auto simp: lb_commit_def lb_inv_persist split: sum.splits option.splits)

lemma lb_inv_reserve:
  assumes "lb_dir_inv st"
  shows "lb_dir_inv (snd (lb_reserve a st))"
proof -
  have "lb_inv p'" if "rbind (lb_load st (ra_parent_jti a)) (lb_reserve_locked a) = Inr (r, Some p')"
    and "0 \<le> ra_amount a" for r p'
    using that assms by (blast intro: lb_inv_reserve_locked lb_inv_load)
  then show ?thesis
    using assms by (auto simp: lb_reserve_def intro!: lb_inv_commit)
qed

lemma lb_inv_close_reservation:
  assumes "lb_dir_inv st"
  shows "lb_dir_inv (snd (lb_close_reservation j k opn st))"
proof -
  have "lb_inv p'" if "rbind (lb_load st j) (lb_close_locked j k opn) = Inr (r, Some p')" for r p'
    using that assms by (blast intro: lb_inv_close_locked lb_inv_load)
  then show ?thesis
    using assms by (auto simp: lb_close_reservation_def intro!: lb_inv_commit)
qed

lemma lb_commit_raise: "fst (lb_commit st j m) = Inl e \<Longrightarrow> snd (lb_commit st j m) = st"
  by (auto simp: lb_commit_def split: sum.splits option.splits)

lemmas lb_close_defs = lb_release_reservation_def lb_reject_def lb_close_reservation_def

interpretation lineage: transactional_ledger lb_exec "\<lambda>_. True" lb_dir_inv empty_directory
proof
  show "lb_dir_inv empty_directory"
    by (simp add: lb_dir_inv_def empty_directory_def)
next
  fix st opn assume "lb_dir_inv st"
  then show "lb_dir_inv (snd (lb_exec opn st))"
    by (cases opn)
      (simp_all add: lb_inv_reserve lb_inv_close_reservation lb_release_reservation_def lb_reject_def)
next
  fix opn st e assume "fst (lb_exec opn st) = Inl e"
  then show "snd (lb_exec opn st) = st"
    by (cases opn)
      (auto simp: lb_reserve_def lb_close_defs map_sum_def split: sum.splits if_splits
        intro: lb_commit_raise)
qed

section \<open>What the ledger promises\<close>

lemma lb_load_persist [simp]:
  "lb_load (lb_persist st j p) j = Inr
    (p\<lparr>lb_reservations := sort_keys (lb_reservations p),
       lb_closed_reservations := sort_keys (lb_closed_reservations p)\<rparr>)"
  by (simp add: lb_load_def lb_persist_def)

lemma lb_commit_Inr:
  assumes "lb_commit st j m = (Inr r, st')"
  obtains "m = Inr (r, None)" and "st' = st"
  | p' where "m = Inr (r, Some p')" and "st' = lb_persist st j p'"
  using assms by (auto simp: lb_commit_def split: sum.splits option.splits)

lemma lb_reserve_locked_no_write:
  "lb_reserve_locked a p = Inr (r, None) \<Longrightarrow> \<not> rs_accepted r \<or> rs_idempotent r"
  by (auto simp: lb_reserve_locked_def Let_def split: option.splits if_splits)

lemma lb_reserve_new:
  assumes "lb_reserve a st = (Inr r, st')" and "rs_accepted r" and "\<not> rs_idempotent r"
  obtains p p' where "lb_load st (ra_parent_jti a) = Inr p" and "0 \<le> ra_amount a"
    and "lb_reserve_locked a p = Inr (r, Some p')" and "st' = lb_persist st (ra_parent_jti a) p'"
proof -
  from assms(1) have "0 \<le> ra_amount a"
    and "lb_commit st (ra_parent_jti a)
           (rbind (lb_load st (ra_parent_jti a)) (lb_reserve_locked a)) = (Inr r, st')"
    by (simp_all add: lb_reserve_def split: if_splits)
  with assms(2,3) that show ?thesis
    by (elim lb_commit_Inr rbind_InrE) (blast dest: lb_reserve_locked_no_write)+
qed

text \<open>C1: A new reservation is accepted only when the calls the parent has used and everything
  set aside for children, this reservation included, stay within the parent's ceiling (a
  reservation of nothing needs no room); the ledger then holds the reservation, and its total is
  the one the result reports.\<close>

theorem lb_reserve_within_ceiling:
  assumes "lb_dir_inv st" and "lb_reserve a st = (Inr r, st')"
    and "rs_accepted r" and "\<not> rs_idempotent r"
  shows "(ra_amount a = 0 \<or> ra_used_total a + rs_reserved_total r \<le> ra_ceiling a) \<and>
    (\<exists>p'. lb_load st' (ra_parent_jti a) = Inr p' \<and>
      lb_reserved_total p' = rs_reserved_total r \<and>
      map_of (lb_reservations p') (ra_request_id a) =
        Some \<lparr>lr_amount = ra_amount a, lr_child_agent_id = ra_child_agent_id a,
              lr_child_jti = ra_child_jti a\<rparr>)"
proof -
  obtain p p' where *: "lb_load st (ra_parent_jti a) = Inr p" "0 \<le> ra_amount a"
    "lb_reserve_locked a p = Inr (r, Some p')" "st' = lb_persist st (ra_parent_jti a) p'"
    using lb_reserve_new [OF assms(2-4)] by blast
  have "wf_dict (lb_reservations p)"
    using lb_inv_load [OF assms(1) *(1)] by (simp add: lb_inv_def)
  then show ?thesis
    using *(2,4) lb_reserve_locked_write [OF *(3)] by auto
qed

text \<open>Whatever sequence of reservations and closings has run, the total of a parent's ledger
  covers the sum of its active reservations, and none of them is negative.\<close>

theorem lb_total_covers_reservations:
  assumes "lb_load (run lb_exec ops empty_directory) j = Inr p"
  shows "0 \<le> total lr_amount (lb_reservations p) \<and>
    total lr_amount (lb_reservations p) \<le> lb_reserved_total p"
proof -
  have "lb_dir_inv (run lb_exec ops empty_directory)"
    by (rule lineage.inv_reachable) (simp add: list_all_iff)
  then have "lb_inv p" using assms by (rule lb_inv_load)
  then show ?thesis
    using lb_inv_nonneg by (simp add: lb_inv_def)
qed

lemma lb_close_locked_no_write:
  "lb_close_locked j k opn p = Inr (r, None) \<Longrightarrow> rl_idempotent r"
  by (auto simp: lb_close_locked_def Let_def split: option.splits if_splits)

lemma lb_close_new:
  assumes "lb_close_reservation j k opn st = (Inr r, st')" and "\<not> rl_idempotent r"
  obtains p p' where "lb_load st j = Inr p"
    and "lb_close_locked j k opn p = Inr (r, Some p')" and "st' = lb_persist st j p'"
proof -
  from assms(1) have "lb_commit st j (rbind (lb_load st j) (lb_close_locked j k opn)) = (Inr r, st')"
    by (simp add: lb_close_reservation_def split: if_splits)
  with assms(2) that show ?thesis
    by (elim lb_commit_Inr rbind_InrE) (blast dest: lb_close_locked_no_write)+
qed

text \<open>Closing an active reservation, whether released or rejected, gives the parent back exactly
  the amount that was set aside for it: the total falls by that amount (the clamp at zero never
  bites), the reservation is gone, every other one is untouched, and a second identical closing
  changes nothing and says so.\<close>

theorem lb_close_returns_amount:
  assumes "lb_dir_inv st" and "lb_close_reservation j k opn st = (Inr r, st')"
    and "\<not> rl_idempotent r"
  shows "\<exists>p a p'. lb_load st j = Inr p \<and> map_of (lb_reservations p) k = Some a \<and>
    lb_load st' j = Inr p' \<and> lb_reserved_total p' = lb_reserved_total p - lr_amount a \<and>
    map_of (lb_reservations p') = (map_of (lb_reservations p))(k := None) \<and>
    rl_amount r = lr_amount a \<and> rl_reserved_total r = lb_reserved_total p' \<and>
    lb_close_reservation j k opn st' = (Inr (r\<lparr>rl_idempotent := True\<rparr>), st')"
proof -
  obtain p p' where *: "lb_load st j = Inr p" "lb_close_locked j k opn p = Inr (r, Some p')"
    "st' = lb_persist st j p'"
    using lb_close_new [OF assms(2,3)] by blast
  have inv: "lb_inv p" using assms(1) *(1) by (rule lb_inv_load)
  obtain a where a: "map_of (lb_reservations p) k = Some a"
    and r: "r = \<lparr>rl_parent_jti = j, rl_request_id = k, rl_amount = lr_amount a,
      rl_reserved_total = max 0 (lb_reserved_total p - lr_amount a),
      rl_operation = opn, rl_idempotent = False\<rparr>"
    and p': "p' = p\<lparr>lb_reserved_total := max 0 (lb_reserved_total p - lr_amount a),
      lb_reservations := AList.delete k (lb_reservations p),
      lb_closed_reservations := AList.update k
        \<lparr>lc_operation = opn, lc_amount = lr_amount a,
         lc_child_agent_id = lr_child_agent_id a, lc_child_jti = lr_child_jti a\<rparr>
        (lb_closed_reservations p)\<rparr>"
    by (rule lb_close_locked_write [OF *(2)]) blast
  have guards: "opn \<in> {''release'', ''reject''}" "k \<noteq> []"
    using assms(2) by (auto simp: lb_close_reservation_def split: if_splits)
  have wf: "wf_dict (lb_reservations p)" "wf_dict (lb_closed_reservations p)"
    using inv by (simp_all add: lb_inv_def)
  have "lb_close_reservation j k opn st' = (Inr (r\<lparr>rl_idempotent := True\<rparr>), st')"
    using guards wf *(3)
    by (simp add: lb_close_reservation_def lb_close_locked_def lb_commit_def r p')
  moreover have "max 0 (lb_reserved_total p - lr_amount a) = lb_reserved_total p - lr_amount a"
    using lb_inv_amount_le [OF inv a] by simp
  ultimately show ?thesis
    using *(1,3) a wf by (simp add: r p' delete_conv')
qed

section \<open>A request identifier used again after closing\<close>

text \<open>A payload in which an identifier is both closed and active.\<close>

definition lb_stuck :: "string \<Rightarrow> lb_reservation \<Rightarrow> lb_payload \<Rightarrow> bool" where
  "lb_stuck k r p \<longleftrightarrow> wf_dict (lb_reservations p) \<and> wf_dict (lb_closed_reservations p) \<and>
    map_of (lb_reservations p) k = Some r \<and> map_of (lb_closed_reservations p) k \<noteq> None"

lemma lb_stuck_reserve_locked:
  assumes "lb_stuck k r p" and "lb_reserve_locked a p = Inr (x, Some p')"
  shows "lb_stuck k r p'"
  using assms(1) lb_reserve_locked_write [OF assms(2)] by (auto simp: lb_stuck_def)

lemma lb_stuck_close_locked:
  assumes "lb_stuck k r p" and "lb_close_locked j k' opn p = Inr (x, Some p')"
  shows "lb_stuck k r p'"
proof -
  have "k' \<noteq> k"
    using assms by (auto simp: lb_stuck_def lb_close_locked_def Let_def split: option.splits if_splits)
  then show ?thesis
    using assms by (auto simp: lb_stuck_def elim!: lb_close_locked_write)
qed

lemma lb_commit_state:
  "snd (lb_commit st j m) = (case m of Inr (x, Some p) \<Rightarrow> lb_persist st j p | _ \<Rightarrow> st)"
  by (simp add: lb_commit_def split: sum.split option.split)

lemma lb_stuck_commit:
  assumes "st f = Stored p" and "lb_stuck k r p"
    and "\<And>x p1. m = Inr (x, Some p1) \<Longrightarrow> f = lb_path j \<Longrightarrow> lb_stuck k r p1"
  shows "\<exists>p'. snd (lb_commit st j m) f = Stored p' \<and> lb_stuck k r p'"
  using assms
  by (auto simp: lb_commit_state lb_persist_def lb_stuck_def split: sum.split option.split)

lemma lb_load_stored: "st (lb_path j) = Stored p \<Longrightarrow> lb_load st j = Inr p"
  by (simp add: lb_load_def)

lemma lb_stuck_exec:
  assumes "st f = Stored p" and "lb_stuck k r p"
  shows "\<exists>p'. snd (lb_exec opn st) f = Stored p' \<and> lb_stuck k r p'"
proof -
  have res: "\<exists>p'. snd (lb_commit st j (rbind (lb_load st j) (lb_reserve_locked a))) f = Stored p'
      \<and> lb_stuck k r p'" for j a
    using assms lb_load_stored
    by (intro lb_stuck_commit) (auto intro: lb_stuck_reserve_locked)
  have clo: "\<exists>p'. snd (lb_commit st j (rbind (lb_load st j) (lb_close_locked j k' o'))) f = Stored p'
      \<and> lb_stuck k r p'" for j k' o'
    using assms lb_load_stored
    by (intro lb_stuck_commit) (auto intro: lb_stuck_close_locked)
  show ?thesis
    using assms res clo by (cases opn) (auto simp: lb_reserve_def lb_close_defs)
qed

text \<open>C40: \<open>reserve\<close> looks only at the active reservations, so an identifier that was already
  closed can be reserved again; from then on no sequence of operations ever gives that amount
  back: the closing operations answer from the earlier closing and leave the new reservation
  active.\<close>

theorem lb_reused_id_never_released:
  assumes "st f = Stored p"
    and "wf_dict (lb_reservations p)" and "wf_dict (lb_closed_reservations p)"
    and "map_of (lb_closed_reservations p) k \<noteq> None"
    and "map_of (lb_reservations p) k = Some r"
  shows "\<exists>p'. run lb_exec ops st f = Stored p' \<and> map_of (lb_reservations p') k = Some r"
proof -
  have "\<exists>p'. run lb_exec ops st f = Stored p' \<and> lb_stuck k r p'"
    if "st f = Stored p" "lb_stuck k r p" for st p
    using that
  proof (induction ops arbitrary: st p)
    case (Cons opn ops)
    obtain p' where "snd (lb_exec opn st) f = Stored p'" and "lb_stuck k r p'"
      using lb_stuck_exec [where f = f and opn = opn] Cons.prems by blast
    then show ?case using Cons.IH by simp
  qed auto
  then show ?thesis
    using assms by (force simp: lb_stuck_def)
qed

section \<open>Concrete runs\<close>

definition lb_demo :: lb_reserve_args where
  "lb_demo = \<lparr>ra_parent_jti = ''parent'', ra_request_id = ''req'', ra_amount = 3, ra_ceiling = 10,
    ra_used_total = 2, ra_child_agent_id = Some ''child'', ra_child_jti = None,
    ra_floor_reserved_total = 0\<rparr>"

definition lb_demo_reservation :: lb_reservation where
  "lb_demo_reservation =
    \<lparr>lr_amount = 3, lr_child_agent_id = Some ''child'', lr_child_jti = None\<rparr>"

definition lb_demo_payload :: lb_payload where
  "lb_demo_payload = \<lparr>lb_version = 1, lb_parent_jti = ''parent'', lb_reserved_total = 3,
    lb_reservations = [(''req'', lb_demo_reservation)], lb_closed_reservations = []\<rparr>"

definition lb_demo_closed :: lb_payload where
  "lb_demo_closed = \<lparr>lb_version = 1, lb_parent_jti = ''parent'', lb_reserved_total = 0,
    lb_reservations = [], lb_closed_reservations = [(''req'',
      \<lparr>lc_operation = ''release'', lc_amount = 3, lc_child_agent_id = Some ''child'',
       lc_child_jti = None\<rparr>)]\<rparr>"

lemmas lb_demo_defs = lb_demo_def lb_demo_reservation_def lb_demo_payload_def lb_demo_closed_def

lemmas lb_op_defs = lb_reserve_def lb_reserve_locked_def lb_close_reservation_def
  lb_close_locked_def lb_commit_def lb_load_def lb_fresh_def lb_persist_def sort_keys_def
  lb_release_reservation_def lb_reject_def

lemma lb_demo_reserve:
  "lb_reserve lb_demo empty_directory =
    (Inr \<lparr>rs_accepted = True, rs_parent_jti = ''parent'', rs_request_id = ''req'', rs_amount = 3,
       rs_reserved_total = 3, rs_remaining_before = 8, rs_remaining_after = 5,
       rs_idempotent = False\<rparr>,
     empty_directory(lb_path ''parent'' := Stored lb_demo_payload))"
  by (simp add: lb_demo_defs lb_op_defs empty_directory_def)

lemma lb_demo_release:
  "lb_close_reservation ''parent'' ''req'' ''release''
     (empty_directory(lb_path ''parent'' := Stored lb_demo_payload)) =
    (Inr \<lparr>rl_parent_jti = ''parent'', rl_request_id = ''req'', rl_amount = 3,
       rl_reserved_total = 0, rl_operation = ''release'', rl_idempotent = False\<rparr>,
     empty_directory(lb_path ''parent'' := Stored lb_demo_closed))"
  by (simp add: lb_demo_defs lb_op_defs)

lemma lb_demo_again:
  "\<exists>p. snd (lb_reserve lb_demo (empty_directory(lb_path ''parent'' := Stored lb_demo_closed)))
        (lb_path ''parent'') = Stored p \<and>
      lb_reservations p = [(''req'', lb_demo_reservation)] \<and>
      lb_closed_reservations p = lb_closed_reservations lb_demo_closed"
  by (simp add: lb_demo_defs lb_op_defs)

theorem lb_reserve_within_ceiling_witness:
  "ra_used_total lb_demo + 3 \<le> ra_ceiling lb_demo \<and>
   (\<exists>p'. lb_load (snd (lb_reserve lb_demo empty_directory)) ''parent'' = Inr p' \<and>
      lb_reserved_total p' = 3)"
  using lb_reserve_within_ceiling [OF lineage.inv_start lb_demo_reserve]
  by (auto simp: lb_demo_reserve) (auto simp: lb_demo_defs)

theorem lb_total_covers_reservations_witness:
  "lb_load (run lb_exec [LbReserve lb_demo] empty_directory) ''parent'' = Inr lb_demo_payload \<and>
   total lr_amount (lb_reservations lb_demo_payload) \<le> lb_reserved_total lb_demo_payload"
proof -
  have "lb_load (run lb_exec [LbReserve lb_demo] empty_directory) ''parent'' = Inr lb_demo_payload"
    by (simp add: lb_demo_reserve lb_load_def)
  then show ?thesis using lb_total_covers_reservations by blast
qed

theorem lb_close_returns_amount_witness:
  "\<exists>p'. lb_load (snd (lb_close_reservation ''parent'' ''req'' ''release''
     (empty_directory(lb_path ''parent'' := Stored lb_demo_payload)))) ''parent'' = Inr p' \<and>
     lb_reserved_total p' = lb_reserved_total lb_demo_payload - 3"
proof -
  have "lb_dir_inv (empty_directory(lb_path ''parent'' := Stored lb_demo_payload))"
    by (simp add: lb_dir_inv_def lb_inv_def empty_directory_def lb_demo_defs)
  from lb_close_returns_amount [OF this lb_demo_release] show ?thesis
    by (auto simp: lb_demo_release lb_load_def)
qed

theorem lb_reused_id_never_released_witness:
  "\<exists>p'. run lb_exec [LbReserve lb_demo, LbRelease ''parent'' ''req'', LbReserve lb_demo,
       LbRelease ''parent'' ''req'', LbReject ''parent'' ''req''] empty_directory
       (lb_path ''parent'') = Stored p' \<and>
     map_of (lb_reservations p') ''req'' = Some lb_demo_reservation"
proof -
  define st where "st = run lb_exec [LbReserve lb_demo, LbRelease ''parent'' ''req'',
    LbReserve lb_demo] empty_directory"
  have "st = snd (lb_reserve lb_demo (empty_directory(lb_path ''parent'' := Stored lb_demo_closed)))"
    by (simp add: st_def lb_demo_reserve lb_demo_release lb_release_reservation_def)
  then obtain p where p: "st (lb_path ''parent'') = Stored p"
    and ps: "lb_reservations p = [(''req'', lb_demo_reservation)]"
      "lb_closed_reservations p = lb_closed_reservations lb_demo_closed"
    using lb_demo_again by auto
  have "\<exists>p'. run lb_exec [LbRelease ''parent'' ''req'', LbReject ''parent'' ''req''] st
       (lb_path ''parent'') = Stored p' \<and>
     map_of (lb_reservations p') ''req'' = Some lb_demo_reservation"
    using p by (rule lb_reused_id_never_released) (simp_all add: ps lb_demo_closed_def)
  then show ?thesis by (simp add: st_def)
qed

end
