(* ===== verification/Canonical_JSON.thy ===== *)
theory Canonical_JSON
  imports Sha256
begin

text \<open>
  The RFC 8785 canonical JSON text of \<open>canonical_json.py\<close> and the serializer it calls,
  \<open>_vendor/rfc8785/_impl.py\<close>. The sink of the source is the returned text; encoding it
  piecewise or at the end gives the same bytes.
\<close>

datatype canon_error = IntegerDomainError int | CanonicalizationError string

definition INT_MAX :: int where
  "INT_MAX = 2 ^ 53 - 1"

definition INT_MIN :: int where
  "INT_MIN = - (2 ^ 53) + 1"

section \<open>Decimal text of integers\<close>

fun dec_digits :: "nat \<Rightarrow> string" where
  "dec_digits n = (if n < 10 then [char_of (48 + n)]
     else dec_digits (n div 10) @ [char_of (48 + n mod 10)])"

declare dec_digits.simps [simp del]

definition str_int :: "int \<Rightarrow> string" where
  "str_int n = (if n < 0 then CHR ''-'' # dec_digits (nat (- n)) else dec_digits (nat n))"

fun parse_dec :: "string \<Rightarrow> nat \<Rightarrow> nat" where
  "parse_dec [] acc = acc"
| "parse_dec (c # cs) acc = parse_dec cs (10 * acc + (code_point c - 48))"

section \<open>Strings\<close>

definition escape_char :: "char \<Rightarrow> string" where
  "escape_char c =
    (if c = CHR 0x5C then [CHR 0x5C, CHR 0x5C]
     else if c = CHR 0x22 then [CHR 0x5C, CHR 0x22]
     else if c = CHR 0x08 then [CHR 0x5C, CHR ''b'']
     else if c = CHR 0x0C then [CHR 0x5C, CHR ''f'']
     else if c = CHR 0x0A then [CHR 0x5C, CHR ''n'']
     else if c = CHR 0x0D then [CHR 0x5C, CHR ''r'']
     else if c = CHR 0x09 then [CHR 0x5C, CHR ''t'']
     else if code_point c < 32 then
       [CHR 0x5C, CHR ''u'', CHR ''0'', CHR ''0'',
        hex_digit (code_point c div 16), hex_digit (code_point c mod 16)]
     else [c])"

definition serialize_str :: "string \<Rightarrow> string" where
  "serialize_str s = CHR 0x22 # concat (map escape_char s) @ [CHR 0x22]"

section \<open>Floats\<close>

text \<open>\<open>s.find(c)\<close>, or the length of \<open>s\<close> when \<open>c\<close> does not occur.\<close>

definition find_char :: "char \<Rightarrow> string \<Rightarrow> nat" where
  "find_char c s = length (takeWhile (\<lambda>x. x \<noteq> c) s)"

definition parse_signed :: "string \<Rightarrow> int" where
  "parse_signed s = (case s of [] \<Rightarrow> 0
     | c # cs \<Rightarrow> if c = CHR ''-'' then - int (parse_dec cs 0)
                else if c = CHR ''+'' then int (parse_dec cs 0) else int (parse_dec s 0))"

text \<open>The text of a positive float, from the text \<open>str(f)\<close> of CPython.\<close>

definition serialize_pos_float :: "string \<Rightarrow> string" where
  "serialize_pos_float str_f =
    (let q = find_char (CHR ''e'') str_f;
         has_exp = (0 < q \<and> q < length str_f);
         raw_exp = (if has_exp then drop q str_f else []);
         exponent_str = (if has_exp \<and> take 1 (drop 2 raw_exp) = ''0''
                         then take 2 raw_exp @ drop 3 raw_exp else raw_exp);
         stringified = (if has_exp then take q str_f else str_f);
         exponent_value = (if has_exp then parse_signed (drop 1 exponent_str) else 0);
         d = find_char (CHR ''.'') stringified;
         has_dot = (0 < d \<and> d < length stringified);
         first0 = (if has_dot then take d stringified else stringified);
         last0 = (if has_dot then drop (d + 1) stringified else []);
         dot1 = (if has_dot \<and> last0 \<noteq> ''0'' then ''.'' else []);
         last1 = (if last0 = ''0'' then [] else last0)
     in if 0 < exponent_value \<and> exponent_value < 21 then
          (let first = first0 @ last1
           in first @ replicate (nat (exponent_value - int (length first) + 1)) (CHR ''0''))
        else if exponent_value < 0 \<and> - 7 < exponent_value then
          ''0.'' @ replicate (nat (- 1 - exponent_value)) (CHR ''0'') @ first0 @ last1
        else first0 @ dot1 @ last1 @ exponent_str)"

text \<open>A float value carries the text of its absolute value.\<close>

definition serialize_float :: "rat \<Rightarrow> string \<Rightarrow> string" where
  "serialize_float f str_abs =
    (if f = 0 then ''0''
     else if f < 0 then CHR ''-'' # serialize_pos_float str_abs
     else serialize_pos_float str_abs)"

section \<open>Values\<close>

fun join_with :: "string \<Rightarrow> string list \<Rightarrow> string" where
  "join_with sep [] = []"
| "join_with sep [t] = t"
| "join_with sep (t # ts) = t @ sep @ join_with sep ts"

text \<open>
  Objects are written by key in the order of their UTF-16 encoding, which for the modelled
  strings is the order of the strings.
\<close>

fun dump :: "jv \<Rightarrow> canon_error + string" where
  "dump JNull = Inr ''null''"
| "dump (JBool b) = Inr (if b then ''true'' else ''false'')"
| "dump (JInt n) =
    (if n < INT_MIN \<or> n > INT_MAX then Inl (IntegerDomainError n) else Inr (str_int n))"
| "dump (JStr s) = Inr (serialize_str s)"
| "dump (JFloat f t) = Inr (serialize_float f t)"
| "dump (JArr vs) =
    rbind (mapM dump vs) (\<lambda>ts. Inr (''['' @ join_with '','' ts @ '']''))"
| "dump (JObj d) =
    rbind (mapM (\<lambda>kv. rbind (dump (snd kv)) (\<lambda>t. Inr (serialize_str (fst kv) @ '':'' @ t)))
             (sort_key fst d))
      (\<lambda>ts. Inr (''{'' @ join_with '','' ts @ ''}''))"

definition canonical_json_text :: "jv \<Rightarrow> canon_error + string" where
  "canonical_json_text v = dump v"

definition canonical_json_bytes :: "jv \<Rightarrow> canon_error + byte list" where
  "canonical_json_bytes v = rbind (dump v) (\<lambda>t. Inr (utf8 t))"

section \<open>When the serializer succeeds\<close>

fun json_safe :: "jv \<Rightarrow> bool" where
  "json_safe (JInt n) \<longleftrightarrow> INT_MIN \<le> n \<and> n \<le> INT_MAX"
| "json_safe (JArr vs) \<longleftrightarrow> (\<forall>v \<in> set vs. json_safe v)"
| "json_safe (JObj d) \<longleftrightarrow> (\<forall>p \<in> set d. json_safe (snd p))"
| "json_safe _ \<longleftrightarrow> True"

lemma mapM_total: "(\<And>x. x \<in> set xs \<Longrightarrow> \<exists>y. f x = Inr y) \<Longrightarrow> \<exists>ys. mapM f xs = Inr ys"
  by (induction xs) (simp, fastforce)

lemma dump_total: "json_safe v \<Longrightarrow> \<exists>t. dump v = Inr t"
proof (induction v rule: dump.induct)
  case (6 vs)
  then have "\<exists>ts. mapM dump vs = Inr ts" by (intro mapM_total) simp
  then show ?case by auto
next
  case (7 d)
  then have "\<exists>ts. mapM (\<lambda>kv. rbind (dump (snd kv)) (\<lambda>t. Inr (serialize_str (fst kv) @ '':'' @ t)))
      (sort_key fst d) = Inr ts" by (intro mapM_total) fastforce
  then show ?case by auto
qed simp_all

lemma canonical_json_bytes_total: "json_safe v \<Longrightarrow> \<exists>b. canonical_json_bytes v = Inr b"
  using dump_total by (fastforce simp: canonical_json_bytes_def)

end
