(* ===== verification/Risk_Policy.thy ===== *)
theory Risk_Policy
  imports Canonical_JSON
begin

text \<open>
  The policy half of \<open>risk_budget.py\<close>: typed risk facts, the contract that derives them from a
  tool call, the registry of contracts, and the signed \<open>risk_budget\<close> claim with its
  normalization, attenuation, projection and per-action check.

  The JSON Schema validator of the package \<open>jsonschema\<close> is the parameters
  \<open>check_schema\<close> and \<open>validates\<close>. A contract keeps its schema and contract document as
  values where the code keeps their canonical bytes and decodes them on every use.
\<close>

datatype risk_error =
    RiskBudgetError string
  | RiskFactError string
  | RiskBudgetConflictError string
  | RiskBudgetReplayError string
  | RiskPermissionError string
  | RiskTypeError string
  | RiskKeyError string
  | RiskRuntimeError string
  | RiskAttributeError string
  | RiskValueError string
  | RiskCanonError canon_error

section \<open>The vocabulary of facts\<close>

definition RISK_BUDGET_VERSION :: int where
  "RISK_BUDGET_VERSION = 1"

definition MAX_RISK_VALUE :: int where
  "MAX_RISK_VALUE = 2 ^ 63 - 1"

definition MAX_CONTRACT_BYTES :: nat where
  "MAX_CONTRACT_BYTES = 64 * 1024"

definition MAX_ARGUMENT_BYTES :: nat where
  "MAX_ARGUMENT_BYTES = 64 * 1024"

definition MAX_SCHEMA_NODES :: nat where
  "MAX_SCHEMA_NODES = 4096"

definition MAX_SCHEMA_DEPTH :: nat where
  "MAX_SCHEMA_DEPTH = 64"

definition NUMERIC_RISK_FACTS :: "string list" where
  "NUMERIC_RISK_FACTS = [''destructive_targets'', ''objects_affected'', ''bytes_affected'']"

definition CATEGORICAL_RISK_LEVELS :: "string list dict" where
  "CATEGORICAL_RISK_LEVELS =
    [(''secret_sensitivity'',
       [''none'', ''public'', ''internal'', ''confidential'', ''restricted'', ''regulated'', ''unknown'']),
     (''destination_risk'',
       [''local'', ''private_network'', ''trusted_service'', ''public_internet'', ''untrusted'', ''unknown'']),
     (''filesystem_scope'',
       [''none'', ''declared'', ''workspace'', ''external'', ''system'', ''unknown'']),
     (''irreversibility'',
       [''reversible'', ''compensatable'', ''irreversible'', ''unknown''])]"

definition ALL_RISK_FACTS :: "string list" where
  "ALL_RISK_FACTS = NUMERIC_RISK_FACTS @ keys CATEGORICAL_RISK_LEVELS"

definition EXTRACTOR_KINDS :: "string list" where
  "EXTRACTOR_KINDS = [''integer'', ''array_length'', ''constant'', ''enum'']"

datatype fact_value = FInt int | FStr string

text \<open>\<open>levels.index(value)\<close>, \<open>None\<close> for the \<open>ValueError\<close>.\<close>

fun index_of :: "'a list \<Rightarrow> 'a \<Rightarrow> nat option" where
  "index_of [] x = None"
| "index_of (y # ys) x = (if y = x then Some 0 else map_option Suc (index_of ys x))"

section \<open>Reading untrusted values\<close>

definition require_object :: "jv \<Rightarrow> string \<Rightarrow> risk_error + (string \<times> jv) list" where
  "require_object v label =
    (case v of JObj d \<Rightarrow> Inr d
     | _ \<Rightarrow> Inl (RiskBudgetError (label @ '' must be a JSON object'')))"

definition require_string :: "jv \<Rightarrow> string \<Rightarrow> nat \<Rightarrow> risk_error + string" where
  "require_string v label max_bytes =
    (case v of
       JStr s \<Rightarrow>
         if strip s = [] then Inl (RiskBudgetError (label @ '' must be a non-empty string''))
         else if length (utf8 (strip s)) > max_bytes
         then Inl (RiskBudgetError (label @ '' exceeds the byte limit''))
         else Inr (strip s)
     | _ \<Rightarrow> Inl (RiskBudgetError (label @ '' must be a non-empty string'')))"

definition require_risk_int :: "jv \<Rightarrow> string \<Rightarrow> risk_error + int" where
  "require_risk_int v label =
    (case v of
       JInt n \<Rightarrow>
         if n < 0 \<or> n > MAX_RISK_VALUE
         then Inl (RiskBudgetError (label @ '' must be between 0 and MAX_RISK_VALUE''))
         else Inr n
     | _ \<Rightarrow> Inl (RiskBudgetError (label @ '' must be an integer'')))"

definition bounded_json_bytes :: "jv \<Rightarrow> string \<Rightarrow> nat \<Rightarrow> risk_error + byte list" where
  "bounded_json_bytes v label limit =
    (case canonical_json_bytes v of
       Inl _ \<Rightarrow> Inl (RiskBudgetError (label @ '' must be RFC 8785 canonicalizable JSON''))
     | Inr encoded \<Rightarrow>
         if length encoded > limit
         then Inl (RiskBudgetError (label @ '' exceeds the canonical byte limit''))
         else Inr encoded)"

text \<open>The recursive visitor over a schema; the count of visited nodes is threaded through.\<close>

fun visit_schema :: "jv \<Rightarrow> nat \<Rightarrow> nat \<Rightarrow> risk_error + nat"
  and visit_members :: "(string \<times> jv) list \<Rightarrow> nat \<Rightarrow> nat \<Rightarrow> risk_error + nat"
  and visit_elements :: "jv list \<Rightarrow> nat \<Rightarrow> nat \<Rightarrow> risk_error + nat" where
  "visit_schema v depth nodes =
    (if nodes + 1 > MAX_SCHEMA_NODES
     then Inl (RiskBudgetError ''tool input schema exceeds the node limit'')
     else if depth > MAX_SCHEMA_DEPTH
     then Inl (RiskBudgetError ''tool input schema exceeds the nesting limit'')
     else case v of
       JObj d \<Rightarrow> visit_members d depth (nodes + 1)
     | JArr vs \<Rightarrow> visit_elements vs depth (nodes + 1)
     | _ \<Rightarrow> Inr (nodes + 1))"
| "visit_members [] depth nodes = Inr nodes"
| "visit_members ((key, child) # d) depth nodes =
    (if key \<in> {''$ref'', ''$dynamicRef'', ''$recursiveRef''} \<and>
        (case child of JStr s \<Rightarrow> \<not> startswith s ''#'' | _ \<Rightarrow> True)
     then Inl (RiskBudgetError ''external JSON Schema references are forbidden'')
     else rbind (visit_schema child (depth + 1) nodes) (\<lambda>n. visit_members d depth n))"
| "visit_elements [] depth nodes = Inr nodes"
| "visit_elements (child # vs) depth nodes =
    rbind (visit_schema child (depth + 1) nodes) (\<lambda>n. visit_elements vs depth n)"

definition validate_schema_shape :: "jv \<Rightarrow> risk_error + unit" where
  "validate_schema_shape v = rbind (visit_schema v 0 0) (\<lambda>_. Inr ())"

section \<open>JSON Pointers\<close>

fun split_on :: "char \<Rightarrow> string \<Rightarrow> string list" where
  "split_on c [] = [[]]"
| "split_on c (x # xs) =
    (if x = c then [] # split_on c xs
     else case split_on c xs of [] \<Rightarrow> [[x]] | p # ps \<Rightarrow> (x # p) # ps)"

text \<open>\<open>s.replace(ab, r)\<close> for a pattern of two characters.\<close>

fun replace2 :: "char \<Rightarrow> char \<Rightarrow> char \<Rightarrow> string \<Rightarrow> string" where
  "replace2 a b r (x # y # xs) =
    (if x = a \<and> y = b then r # replace2 a b r xs else x # replace2 a b r (y # xs))"
| "replace2 a b r xs = xs"

definition unescape_part :: "string \<Rightarrow> string" where
  "unescape_part raw =
    replace2 (CHR ''~'') (CHR ''0'') (CHR ''~'') (replace2 (CHR ''~'') (CHR ''1'') (CHR ''/'') raw)"

definition pointer_step :: "jv \<Rightarrow> string \<Rightarrow> risk_error + jv" where
  "pointer_step current raw_part =
    (let part = unescape_part raw_part in
     case current of
       JObj d \<Rightarrow>
         (case map_of d part of
            None \<Rightarrow> Inl (RiskFactError ''required risk fact source is missing'')
          | Some v \<Rightarrow> Inr v)
     | JArr vs \<Rightarrow>
         if part = [] \<or> \<not> list_all is_digit part \<or> startswith part ''0'' \<and> part \<noteq> ''0''
         then Inl (RiskFactError ''risk fact array pointer is invalid'')
         else if parse_dec part 0 \<ge> length vs
         then Inl (RiskFactError ''risk fact array pointer is out of range'')
         else Inr (vs ! parse_dec part 0)
     | _ \<Rightarrow> Inl (RiskFactError ''risk fact pointer traverses a scalar''))"

definition json_pointer :: "jv \<Rightarrow> string \<Rightarrow> risk_error + jv" where
  "json_pointer document pointer =
    (if pointer = [] then Inr document
     else if \<not> startswith pointer ''/''
     then Inl (RiskFactError ''extractor pointer must be an RFC 6901 JSON Pointer'')
     else foldM pointer_step document (split_on (CHR ''/'') (tl pointer)))"

fun pointer_escapes_valid :: "string \<Rightarrow> bool" where
  "pointer_escapes_valid [] = True"
| "pointer_escapes_valid [c] = (c \<noteq> CHR ''~'')"
| "pointer_escapes_valid (c # d # cs) =
    (if c = CHR ''~'' then d \<in> {CHR ''0'', CHR ''1''} \<and> pointer_escapes_valid cs
     else pointer_escapes_valid (d # cs))"

definition pointer_syntax_is_valid :: "string \<Rightarrow> bool" where
  "pointer_syntax_is_valid pointer \<longleftrightarrow>
    (pointer = [] \<or> startswith pointer ''/'') \<and> pointer_escapes_valid pointer"

section \<open>Tool risk contracts\<close>

text \<open>An extractor specification, after its shape was checked.\<close>

datatype extractor =
    ExInteger string
  | ExArrayLength string
  | ExConstant jv
  | ExEnum string

record tool_risk_contract =
  trc_tool_name :: string
  trc_input_schema :: jv
  trc_mandatory_facts :: "string list"
  trc_extractors :: "extractor dict"
  trc_digest :: string

definition as_fact_error :: "risk_error \<Rightarrow> risk_error" where
  "as_fact_error e = (case e of RiskBudgetError m \<Rightarrow> RiskFactError m | _ \<Rightarrow> e)"

definition catch_budget_error :: "risk_error + 'a \<Rightarrow> risk_error + 'a" where
  "catch_budget_error m = (case m of Inl e \<Rightarrow> Inl (as_fact_error e) | Inr x \<Rightarrow> Inr x)"

definition validate_fact :: "string \<Rightarrow> jv \<Rightarrow> risk_error + fact_value" where
  "validate_fact fname v =
    (if fname \<in> set NUMERIC_RISK_FACTS then
       catch_budget_error (rbind (require_risk_int v fname) (\<lambda>n. Inr (FInt n)))
     else
       (case (map_of CATEGORICAL_RISK_LEVELS fname, v) of
          (Some levels, JStr s) \<Rightarrow>
            if s \<in> set levels then Inr (FStr s)
            else Inl (RiskFactError (fname @ '' has an invalid categorical value''))
        | _ \<Rightarrow> Inl (RiskFactError (fname @ '' has an invalid categorical value''))))"

text \<open>\<open>set(xs)\<close> of JSON values: lists and objects are not hashable, numbers are equal by value.\<close>

definition hashable :: "jv \<Rightarrow> bool" where
  "hashable v \<longleftrightarrow> (case v of JArr _ \<Rightarrow> False | JObj _ \<Rightarrow> False | _ \<Rightarrow> True)"

definition hash_key :: "jv \<Rightarrow> jv" where
  "hash_key v = (case jnum v of Some r \<Rightarrow> JFloat r [] | None \<Rightarrow> v)"

definition jstr :: "jv \<Rightarrow> string" where
  "jstr v = (case v of JStr s \<Rightarrow> s | _ \<Rightarrow> [])"

definition check_pointer :: "string \<Rightarrow> jv \<Rightarrow> risk_error + string" where
  "check_pointer fname v =
    (case v of
       JStr p \<Rightarrow>
         if pointer_syntax_is_valid p then Inr p
         else Inl (RiskBudgetError (''extractors.'' @ fname @ ''.pointer is invalid''))
     | _ \<Rightarrow> Inl (RiskBudgetError (''extractors.'' @ fname @ ''.pointer is invalid'')))"

definition normalize_extractor :: "string \<Rightarrow> jv \<Rightarrow> risk_error + extractor" where
  "normalize_extractor fname raw =
    rbind (require_object raw (''extractors.'' @ fname)) (\<lambda>spec.
      let kind = jget spec ''kind'' in
      rbind (ensure (hashable kind) (RiskTypeError ''unhashable type'')) (\<lambda>_.
      rbind (ensure (case kind of JStr k \<Rightarrow> k \<in> set EXTRACTOR_KINDS | _ \<Rightarrow> False)
               (RiskBudgetError (''extractors.'' @ fname @ ''.kind is unsupported''))) (\<lambda>_.
      let k = jstr kind in
      rbind (ensure (set (keys spec) =
                 (if k = ''constant'' then {''kind'', ''value''} else {''kind'', ''pointer''}))
               (RiskBudgetError (''extractors.'' @ fname @ '' must contain exactly the fields of its kind''))) (\<lambda>_.
      if k = ''constant'' then
        rbind (validate_fact fname (jget spec ''value'')) (\<lambda>_. Inr (ExConstant (jget spec ''value'')))
      else
        rbind (check_pointer fname (jget spec ''pointer'')) (\<lambda>p.
        if k \<in> {''integer'', ''array_length''} \<and> fname \<notin> set NUMERIC_RISK_FACTS then
          Inl (RiskBudgetError (''extractors.'' @ fname @ '' requires a numeric fact''))
        else if k = ''enum'' \<and> \<not> has_key CATEGORICAL_RISK_LEVELS fname then
          Inl (RiskBudgetError (''extractors.'' @ fname @ '' requires a categorical fact''))
        else Inr (if k = ''integer'' then ExInteger p
                  else if k = ''array_length'' then ExArrayLength p else ExEnum p))))))"

fun extractor_json :: "extractor \<Rightarrow> jv" where
  "extractor_json (ExInteger p) = JObj [(''kind'', JStr ''integer''), (''pointer'', JStr p)]"
| "extractor_json (ExArrayLength p) = JObj [(''kind'', JStr ''array_length''), (''pointer'', JStr p)]"
| "extractor_json (ExConstant v) = JObj [(''kind'', JStr ''constant''), (''value'', v)]"
| "extractor_json (ExEnum p) = JObj [(''kind'', JStr ''enum''), (''pointer'', JStr p)]"

definition contract_material :: "string \<Rightarrow> jv \<Rightarrow> string list \<Rightarrow> extractor dict \<Rightarrow> jv" where
  "contract_material name schema mandatory extractors =
    JObj [(''tool_name'', JStr name), (''input_schema'', schema),
      (''risk_contract'', JObj [
         (''version'', JInt RISK_BUDGET_VERSION),
         (''mandatory_facts'', JArr (map JStr mandatory)),
         (''extractors'', JObj (map (\<lambda>(f, x). (f, extractor_json x)) extractors))])]"

definition from_schema ::
  "(jv \<Rightarrow> bool) \<Rightarrow> jv \<Rightarrow> jv \<Rightarrow> jv \<Rightarrow> risk_error + tool_risk_contract" where
  "from_schema check_schema tool_name input_schema risk_contract =
    rbind (require_string tool_name ''tool_name'' 256) (\<lambda>name.
    rbind (require_object input_schema ''input_schema'') (\<lambda>schema.
    rbind (require_object risk_contract ''risk_contract'') (\<lambda>contract.
    rbind (bounded_json_bytes (JObj schema) ''input_schema'' MAX_CONTRACT_BYTES) (\<lambda>_.
    rbind (bounded_json_bytes (JObj contract) ''risk_contract'' MAX_CONTRACT_BYTES) (\<lambda>_.
    rbind (validate_schema_shape (JObj schema)) (\<lambda>_.
    rbind (ensure (check_schema (JObj schema))
             (RiskBudgetError ''input_schema is not valid JSON Schema 2020-12'')) (\<lambda>_.
    rbind (ensure (set (keys contract) = {''version'', ''mandatory_facts'', ''extractors''})
             (RiskBudgetError ''risk_contract fields must be version, mandatory_facts, and extractors'')) (\<lambda>_.
    rbind (ensure (jeq_int (jget contract ''version'') RISK_BUDGET_VERSION)
             (RiskBudgetError ''unsupported risk_contract version'')) (\<lambda>_.
    (case (jget contract ''mandatory_facts'', jget contract ''extractors'') of
       (JArr mandatory, ex) \<Rightarrow>
         if mandatory = [] then Inl (RiskBudgetError ''mandatory_facts must be a non-empty list'')
         else
         (case ex of
            JObj extractors \<Rightarrow>
              if extractors = [] then Inl (RiskBudgetError ''extractors must be a non-empty object'')
              else
              rbind (ensure (list_all hashable mandatory) (RiskTypeError ''unhashable type'')) (\<lambda>_.
              rbind (ensure (distinct (map hash_key mandatory))
                       (RiskBudgetError ''mandatory_facts must not contain duplicates'')) (\<lambda>_.
              rbind (ensure (list_all (\<lambda>f. case f of JStr s \<Rightarrow> s \<in> set ALL_RISK_FACTS | _ \<Rightarrow> False) mandatory)
                       (RiskBudgetError ''mandatory_facts contains an unknown risk fact'')) (\<lambda>_.
              let facts = map jstr mandatory in
              rbind (ensure (set (keys extractors) = set facts)
                       (RiskBudgetError ''extractors must exactly cover mandatory_facts'')) (\<lambda>_.
              rbind (mapM (\<lambda>f. rbind (normalize_extractor f (jget extractors f)) (\<lambda>x. Inr (f, x))) facts)
                (\<lambda>normalized.
              (case canonical_json_bytes (contract_material name (JObj schema) facts normalized) of
                 Inl e \<Rightarrow> Inl (RiskCanonError e)
               | Inr material \<Rightarrow>
                   Inr \<lparr>trc_tool_name = name, trc_input_schema = JObj schema,
                        trc_mandatory_facts = facts, trc_extractors = normalized,
                        trc_digest = ''sha256:'' @ hexlify (sha256 material)\<rparr>))))))
          | _ \<Rightarrow> Inl (RiskBudgetError ''extractors must be a non-empty object''))
     | _ \<Rightarrow> Inl (RiskBudgetError ''mandatory_facts must be a non-empty list'')))))))))))"

definition raw_fact :: "jv \<Rightarrow> string \<Rightarrow> extractor \<Rightarrow> risk_error + jv" where
  "raw_fact args fname x =
    (case x of
       ExConstant v \<Rightarrow> Inr v
     | ExArrayLength p \<Rightarrow>
         rbind (json_pointer args p) (\<lambda>raw.
           case raw of JArr vs \<Rightarrow> Inr (JInt (int (length vs)))
           | _ \<Rightarrow> Inl (RiskFactError (fname @ '' source must be an array'')))
     | ExInteger p \<Rightarrow>
         rbind (json_pointer args p) (\<lambda>raw.
           case raw of JInt n \<Rightarrow> Inr raw
           | _ \<Rightarrow> Inl (RiskFactError (fname @ '' source must be an integer'')))
     | ExEnum p \<Rightarrow>
         rbind (json_pointer args p) (\<lambda>raw.
           case raw of JStr s \<Rightarrow> Inr raw
           | _ \<Rightarrow> Inl (RiskFactError (fname @ '' source must be a string''))))"

definition extract_fact ::
  "tool_risk_contract \<Rightarrow> jv \<Rightarrow> string \<Rightarrow> risk_error + string \<times> fact_value" where
  "extract_fact c args fname =
    (case map_of (trc_extractors c) fname of
       None \<Rightarrow> Inl (RiskKeyError fname)
     | Some x \<Rightarrow>
         rbind (raw_fact args fname x) (\<lambda>raw.
         rbind (validate_fact fname raw) (\<lambda>v. Inr (fname, v))))"

definition extract_facts ::
  "(jv \<Rightarrow> jv \<Rightarrow> bool) \<Rightarrow> tool_risk_contract \<Rightarrow> jv \<Rightarrow> risk_error + fact_value dict" where
  "extract_facts validates c arguments =
    (case arguments of
       JObj args \<Rightarrow>
         rbind (catch_budget_error (bounded_json_bytes (JObj args) ''tool arguments'' MAX_ARGUMENT_BYTES)) (\<lambda>_.
         if \<not> validates (trc_input_schema c) (JObj args)
         then Inl (RiskFactError ''tool arguments do not satisfy the authenticated schema'')
         else mapM (extract_fact c (JObj args)) (trc_mandatory_facts c))
     | _ \<Rightarrow> Inl (RiskFactError ''tool arguments must be a JSON object''))"

section \<open>The registry\<close>

record tool_risk_registry =
  trr_contracts :: "tool_risk_contract dict"
  trr_frozen :: bool

definition registry_empty :: tool_risk_registry where
  "registry_empty = \<lparr>trr_contracts = [], trr_frozen = False\<rparr>"

definition registry_register ::
  "tool_risk_registry \<Rightarrow> tool_risk_contract \<Rightarrow> risk_error + tool_risk_registry" where
  "registry_register reg c =
    (if trr_frozen reg then Inl (RiskRuntimeError ''tool risk registry is frozen'')
     else if has_key (trr_contracts reg) (trc_tool_name c)
     then Inl (RiskBudgetConflictError ''risk contract already registered'')
     else Inr (reg\<lparr>trr_contracts := AList.update (trc_tool_name c) c (trr_contracts reg)\<rparr>))"

definition registry_freeze :: "tool_risk_registry \<Rightarrow> tool_risk_registry" where
  "registry_freeze reg = reg\<lparr>trr_frozen := True\<rparr>"

definition registry_resolve :: "tool_risk_registry \<Rightarrow> string \<Rightarrow> tool_risk_contract option" where
  "registry_resolve reg tool_name = map_of (trr_contracts reg) tool_name"

section \<open>The signed claim\<close>

text \<open>The text that \<open>int(text, 16)\<close> accepts: blanks around it, a sign, a prefix \<open>0x\<close>, and single
  underscores between digits are part of the language of Python integers.\<close>

fun hex_tail :: "string \<Rightarrow> bool" where
  "hex_tail [] = True"
| "hex_tail (c # cs) =
    (if c = CHR ''_'' then (case cs of [] \<Rightarrow> False | d # _ \<Rightarrow> is_hex d \<and> hex_tail cs)
     else is_hex c \<and> hex_tail cs)"

definition hex_body :: "string \<Rightarrow> bool" where
  "hex_body s = (case s of [] \<Rightarrow> False | c # cs \<Rightarrow> is_hex c \<and> hex_tail cs)"

definition drop_sign :: "string \<Rightarrow> string" where
  "drop_sign s = (if startswith s ''+'' \<or> startswith s ''-'' then tl s else s)"

definition drop_hex_prefix :: "string \<Rightarrow> string" where
  "drop_hex_prefix s =
    (if startswith s ''0x'' \<or> startswith s ''0X''
     then (let r = drop 2 s in if startswith r ''_'' then tl r else r) else s)"

definition int16_ok :: "string \<Rightarrow> bool" where
  "int16_ok s = hex_body (drop_hex_prefix (drop_sign (strip s)))"

record tool_policy =
  tp_contract_digest :: string
  tp_max_facts :: "fact_value dict"

record risk_policy =
  rp_lineage_id :: string
  rp_tools :: "tool_policy dict"
  rp_ceilings :: "int scoped dict"

definition numeric_facts_of :: "tool_policy dict \<Rightarrow> string list" where
  "numeric_facts_of tools =
    concat (map (\<lambda>(_, tp). [f \<leftarrow> keys (tp_max_facts tp). f \<in> set NUMERIC_RISK_FACTS]) tools)"

definition check_contract_digest :: "jv \<Rightarrow> string \<Rightarrow> risk_error + string" where
  "check_contract_digest v label =
    rbind (require_string v label 256) (\<lambda>digest.
    rbind (ensure (startswith digest ''sha256:'' \<and> length digest = 71)
             (RiskBudgetError (label @ '' is invalid''))) (\<lambda>_.
    rbind (ensure (int16_ok (drop 7 digest)) (RiskBudgetError (label @ '' is invalid''))) (\<lambda>_.
    rbind (ensure (drop 7 digest = lower (drop 7 digest))
             (RiskBudgetError (label @ '' must use lowercase hex''))) (\<lambda>_.
    Inr digest))))"

definition normalize_cap :: "string \<times> jv \<Rightarrow> risk_error + string \<times> fact_value" where
  "normalize_cap e = rbind (validate_fact (fst e) (snd e)) (\<lambda>v. Inr (fst e, v))"

definition normalize_tool ::
  "tool_policy dict \<Rightarrow> string \<times> jv \<Rightarrow> risk_error + tool_policy dict" where
  "normalize_tool tools e =
    rbind (require_string (JStr (fst e)) ''risk_budget tool name'' 256) (\<lambda>name.
    rbind (ensure (\<not> has_key tools name)
             (RiskBudgetError ''risk_budget contains duplicate normalized tool name'')) (\<lambda>_.
    let label = ''risk_budget.tools.'' @ name in
    rbind (require_object (snd e) label) (\<lambda>tool_policy.
    rbind (ensure (set (keys tool_policy) = {''contract_digest'', ''max_facts''})
             (RiskBudgetError (label @ '' must contain contract_digest and max_facts''))) (\<lambda>_.
    rbind (check_contract_digest (jget tool_policy ''contract_digest'') (label @ ''.contract_digest'')) (\<lambda>digest.
    rbind (require_object (jget tool_policy ''max_facts'') (label @ ''.max_facts'')) (\<lambda>raw_caps.
    rbind (ensure (raw_caps \<noteq> [] \<and> list_all (\<lambda>f. f \<in> set ALL_RISK_FACTS) (keys raw_caps))
             (RiskBudgetError (label @ ''.max_facts is invalid''))) (\<lambda>_.
    rbind (mapM normalize_cap raw_caps) (\<lambda>caps.
    Inr (AList.update name \<lparr>tp_contract_digest = digest, tp_max_facts = caps\<rparr> tools)))))))))"

definition normalize_ceiling :: "string \<times> jv \<Rightarrow> risk_error + string \<times> int scoped" where
  "normalize_ceiling e =
    (let label = ''risk_budget.ceilings.'' @ fst e in
    rbind (ensure (fst e \<in> set NUMERIC_RISK_FACTS)
             (RiskBudgetError ''risk_budget.ceilings only accepts numeric facts'')) (\<lambda>_.
    rbind (require_object (snd e) label) (\<lambda>sc.
    rbind (ensure (set (keys sc) = set (map scope_name scopes))
             (RiskBudgetError (label @ '' must contain session, agent, and lineage''))) (\<lambda>_.
    rbind (require_risk_int (jget sc ''session'') (label @ ''.session'')) (\<lambda>s.
    rbind (require_risk_int (jget sc ''agent'') (label @ ''.agent'')) (\<lambda>a.
    rbind (require_risk_int (jget sc ''lineage'') (label @ ''.lineage'')) (\<lambda>l.
    Inr (fst e, \<lparr>at_session = s, at_agent = a, at_lineage = l\<rparr>))))))))"

definition normalize_risk_budget :: "jv \<Rightarrow> string option \<Rightarrow> risk_error + risk_policy" where
  "normalize_risk_budget v lineage_id =
    rbind (require_object v ''risk_budget'') (\<lambda>policy.
    rbind (ensure (set (keys policy) \<subseteq> {''version'', ''lineage_id'', ''tools'', ''ceilings''})
             (RiskBudgetError ''risk_budget contains unknown fields'')) (\<lambda>_.
    rbind (ensure (jeq_int (jget policy ''version'') RISK_BUDGET_VERSION)
             (RiskBudgetError ''unsupported risk_budget version'')) (\<lambda>_.
    rbind (require_string (case lineage_id of Some l \<Rightarrow> JStr l | None \<Rightarrow> jget policy ''lineage_id'')
             ''risk_budget.lineage_id'' 256) (\<lambda>effective_lineage.
    rbind (require_object (jget policy ''tools'') ''risk_budget.tools'') (\<lambda>raw_tools.
    rbind (require_object (jget policy ''ceilings'') ''risk_budget.ceilings'') (\<lambda>raw_ceilings.
    rbind (ensure (raw_tools \<noteq> []) (RiskBudgetError ''risk_budget.tools must not be empty'')) (\<lambda>_.
    rbind (foldM normalize_tool [] raw_tools) (\<lambda>tools.
    rbind (mapM normalize_ceiling raw_ceilings) (\<lambda>ceilings.
    rbind (ensure (set (keys ceilings) = set (numeric_facts_of tools))
             (RiskBudgetError ''risk_budget.ceilings must exactly cover numeric facts in tool policies'')) (\<lambda>_.
    Inr \<lparr>rp_lineage_id = effective_lineage, rp_tools = tools, rp_ceilings = ceilings\<rparr>))))))))))"

text \<open>The normalized claim as the JSON object that the function returns, which its callers sign and
  pass to it again.\<close>

fun fact_json :: "fact_value \<Rightarrow> jv" where
  "fact_json (FInt n) = JInt n"
| "fact_json (FStr s) = JStr s"

definition tool_policy_json :: "tool_policy \<Rightarrow> jv" where
  "tool_policy_json tp =
    JObj [(''contract_digest'', JStr (tp_contract_digest tp)),
          (''max_facts'', JObj (map (\<lambda>(f, v). (f, fact_json v)) (tp_max_facts tp)))]"

definition ceiling_json :: "int scoped \<Rightarrow> jv" where
  "ceiling_json c = JObj (map (\<lambda>s. (scope_name s, JInt (at_scope c s))) scopes)"

definition risk_policy_json :: "risk_policy \<Rightarrow> jv" where
  "risk_policy_json p =
    JObj [(''version'', JInt RISK_BUDGET_VERSION), (''lineage_id'', JStr (rp_lineage_id p)),
      (''tools'', JObj (map (\<lambda>(n, tp). (n, tool_policy_json tp)) (rp_tools p))),
      (''ceilings'', JObj (map (\<lambda>(f, c). (f, ceiling_json c)) (rp_ceilings p)))]"

section \<open>Attenuation, projection and the per-action check\<close>

text \<open>The number by which a fact is compared: its value, or the index of its level. The exceptions
  of \<open>int\<close> and \<open>index\<close> are \<open>None\<close>.\<close>

definition fact_rank :: "string \<Rightarrow> fact_value \<Rightarrow> int option" where
  "fact_rank fname v =
    (if fname \<in> set NUMERIC_RISK_FACTS then (case v of FInt n \<Rightarrow> Some n | FStr _ \<Rightarrow> None)
     else (case (map_of CATEGORICAL_RISK_LEVELS fname, v) of
             (Some levels, FStr s) \<Rightarrow> map_option int (index_of levels s)
           | _ \<Rightarrow> None))"

definition fact_broader :: "string \<Rightarrow> fact_value \<Rightarrow> fact_value \<Rightarrow> risk_error + bool" where
  "fact_broader fname v cap =
    (case (fact_rank fname v, fact_rank fname cap) of
       (Some a, Some b) \<Rightarrow> Inr (a > b)
     | _ \<Rightarrow> Inl (RiskValueError fname))"

definition attenuate_cap :: "tool_policy \<Rightarrow> string \<times> fact_value \<Rightarrow> risk_error + unit" where
  "attenuate_cap parent_policy e =
    (case map_of (tp_max_facts parent_policy) (fst e) of
       None \<Rightarrow> Inl (RiskKeyError (fst e))
     | Some parent_cap \<Rightarrow>
         rbind (fact_broader (fst e) (snd e) parent_cap) (\<lambda>broader.
         ensure (\<not> broader) (RiskPermissionError (''risk_budget '' @ fst e @ '' cap escalation''))))"

definition attenuate_tool :: "risk_policy \<Rightarrow> string \<times> tool_policy \<Rightarrow> risk_error + unit" where
  "attenuate_tool parent e =
    (case map_of (rp_tools parent) (fst e) of
       None \<Rightarrow> Inl (RiskKeyError (fst e))
     | Some parent_policy \<Rightarrow>
         rbind (ensure (tp_contract_digest (snd e) = tp_contract_digest parent_policy)
                  (RiskPermissionError ''risk_budget contract digest escalation'')) (\<lambda>_.
         rbind (ensure (set (keys (tp_max_facts (snd e))) = set (keys (tp_max_facts parent_policy)))
                  (RiskPermissionError ''risk_budget fact set must be preserved'')) (\<lambda>_.
         checkM (attenuate_cap parent_policy) (tp_max_facts (snd e)))))"

definition attenuate_ceiling :: "risk_policy \<Rightarrow> string \<times> int scoped \<Rightarrow> risk_error + unit" where
  "attenuate_ceiling parent e =
    (case map_of (rp_ceilings parent) (fst e) of
       None \<Rightarrow> Inl (RiskKeyError (fst e))
     | Some c \<Rightarrow>
         checkM (\<lambda>s. ensure (at_scope (snd e) s \<le> at_scope c s)
           (RiskPermissionError (''risk_budget '' @ fst e @ ''.'' @ scope_name s @ '' ceiling escalation'')))
           scopes)"

definition attenuate_risk_budget :: "jv \<Rightarrow> jv \<Rightarrow> risk_error + risk_policy" where
  "attenuate_risk_budget parent child =
    rbind (normalize_risk_budget parent None) (\<lambda>np.
    case child of
      JNull \<Rightarrow> Inr np
    | JObj d \<Rightarrow>
        rbind (ensure (jget d ''lineage_id'' = JStr (rp_lineage_id np))
                 (RiskPermissionError ''risk_budget lineage_id escalation'')) (\<lambda>_.
        rbind (normalize_risk_budget child (Some (rp_lineage_id np))) (\<lambda>nc.
        rbind (ensure (rp_lineage_id nc = rp_lineage_id np)
                 (RiskPermissionError ''risk_budget lineage_id escalation'')) (\<lambda>_.
        rbind (ensure (set (keys (rp_tools nc)) \<subseteq> set (keys (rp_tools np)))
                 (RiskPermissionError ''risk_budget tool escalation'')) (\<lambda>_.
        rbind (checkM (attenuate_tool np) (rp_tools nc)) (\<lambda>_.
        rbind (ensure (set (keys (rp_ceilings nc)) \<subseteq> set (keys (rp_ceilings np)))
                 (RiskPermissionError ''risk_budget ceiling fact escalation'')) (\<lambda>_.
        rbind (checkM (attenuate_ceiling np) (rp_ceilings nc)) (\<lambda>_.
        Inr nc)))))))
    | _ \<Rightarrow> Inl (RiskAttributeError ''get''))"

definition project_risk_budget :: "jv \<Rightarrow> string list \<Rightarrow> risk_error + risk_policy option" where
  "project_risk_budget policy allowed_tools =
    rbind (normalize_risk_budget policy None) (\<lambda>np.
    let retained_tools = [e \<leftarrow> rp_tools np. fst e \<in> set allowed_tools] in
    if retained_tools = [] then Inr None
    else
      let retained_numeric_facts = numeric_facts_of retained_tools in
      rbind (normalize_risk_budget (risk_policy_json
          \<lparr>rp_lineage_id = rp_lineage_id np, rp_tools = retained_tools,
           rp_ceilings = [e \<leftarrow> rp_ceilings np. fst e \<in> set retained_numeric_facts]\<rparr>) None) (\<lambda>p.
      Inr (Some p)))"

definition validate_action_fact ::
  "fact_value dict \<Rightarrow> int dict \<Rightarrow> string \<times> fact_value \<Rightarrow> risk_error + int dict" where
  "validate_action_fact caps numeric e =
    rbind (validate_fact (fst e) (fact_json (snd e))) (\<lambda>validated.
    case map_of caps (fst e) of
      None \<Rightarrow> Inl (RiskKeyError (fst e))
    | Some cap \<Rightarrow>
        if fst e \<in> set NUMERIC_RISK_FACTS then
          rbind (fact_broader (fst e) validated cap) (\<lambda>broader.
          if broader then Inl (RiskBudgetError ''risk_action_cap_exceeded'')
          else (case validated of
                  FInt n \<Rightarrow> Inr (AList.update (fst e) n numeric)
                | FStr _ \<Rightarrow> Inl (RiskValueError (fst e))))
        else if validated = FStr ''unknown'' then Inl (RiskBudgetError ''risk_action_cap_exceeded'')
        else
          rbind (fact_broader (fst e) validated cap) (\<lambda>broader.
          if broader then Inl (RiskBudgetError ''risk_action_cap_exceeded'') else Inr numeric))"

definition validate_action_risk ::
  "jv \<Rightarrow> tool_risk_contract \<Rightarrow> fact_value dict \<Rightarrow> risk_error + int dict" where
  "validate_action_risk policy contract facts =
    rbind (normalize_risk_budget policy None) (\<lambda>np.
    case map_of (rp_tools np) (trc_tool_name contract) of
      None \<Rightarrow> Inl (RiskBudgetError ''risk_policy_tool_missing'')
    | Some tp \<Rightarrow>
        rbind (ensure (tp_contract_digest tp = trc_digest contract)
                 (RiskBudgetError ''risk_contract_digest_mismatch'')) (\<lambda>_.
        rbind (ensure (set (keys facts) = set (trc_mandatory_facts contract))
                 (RiskBudgetError ''risk_fact_set_mismatch'')) (\<lambda>_.
        rbind (ensure (set (keys (tp_max_facts tp)) = set (keys facts))
                 (RiskBudgetError ''risk_policy_fact_cap_missing'')) (\<lambda>_.
        foldM (validate_action_fact (tp_max_facts tp)) [] facts))))"

end
