(* ===== verification/Risk_Attenuation.thy ===== *)
theory Risk_Attenuation
  imports Risk_Policy
begin

text \<open>
  What the policy functions of \<open>risk_budget.py\<close> promise: a normalized claim is well formed and
  normalizing it again changes nothing; a child claim is never broader than its parent, which is
  stated by the calls each of them lets through; projection keeps the decisions for the retained
  tools.
\<close>

section \<open>Well-formed policies\<close>

definition name_ok :: "string \<Rightarrow> bool" where
  "name_ok s \<longleftrightarrow> strip s = s \<and> s \<noteq> [] \<and> length (utf8 s) \<le> 256"

definition digest_ok :: "string \<Rightarrow> bool" where
  "digest_ok d \<longleftrightarrow> name_ok d \<and> startswith d ''sha256:'' \<and> length d = 71 \<and>
    int16_ok (drop 7 d) \<and> drop 7 d = lower (drop 7 d)"

definition fact_ok :: "string \<Rightarrow> fact_value \<Rightarrow> bool" where
  "fact_ok f v \<longleftrightarrow> validate_fact f (fact_json v) = Inr v"

definition tool_policy_ok :: "tool_policy \<Rightarrow> bool" where
  "tool_policy_ok tp \<longleftrightarrow> digest_ok (tp_contract_digest tp) \<and> tp_max_facts tp \<noteq> [] \<and>
    wf_dict (tp_max_facts tp) \<and> (\<forall>(f, v) \<in> set (tp_max_facts tp). fact_ok f v)"

definition ceiling_ok :: "string \<Rightarrow> int scoped \<Rightarrow> bool" where
  "ceiling_ok f c \<longleftrightarrow> f \<in> set NUMERIC_RISK_FACTS \<and>
    (\<forall>s \<in> set scopes. 0 \<le> at_scope c s \<and> at_scope c s \<le> MAX_RISK_VALUE)"

definition tools_ok :: "tool_policy dict \<Rightarrow> bool" where
  "tools_ok tools \<longleftrightarrow> wf_dict tools \<and> (\<forall>(n, tp) \<in> set tools. name_ok n \<and> tool_policy_ok tp)"

definition policy_ok :: "risk_policy \<Rightarrow> bool" where
  "policy_ok p \<longleftrightarrow> name_ok (rp_lineage_id p) \<and> rp_tools p \<noteq> [] \<and> tools_ok (rp_tools p) \<and>
    wf_dict (rp_ceilings p) \<and> (\<forall>(f, c) \<in> set (rp_ceilings p). ceiling_ok f c) \<and>
    set (keys (rp_ceilings p)) = set (numeric_facts_of (rp_tools p))"

lemma require_string_Inr: "require_string v l 256 = Inr s \<Longrightarrow> name_ok s"
  by (auto simp: require_string_def name_ok_def split: jv.splits if_splits)

lemma require_string_ok: "name_ok s \<Longrightarrow> require_string (JStr s) l 256 = Inr s"
  by (simp add: require_string_def name_ok_def)

lemma require_object_Inr [simp]: "require_object v l = Inr d \<longleftrightarrow> v = JObj d"
  by (auto simp: require_object_def split: jv.splits)

lemma require_risk_int_Inr:
  "require_risk_int v l = Inr n \<longleftrightarrow> v = JInt n \<and> 0 \<le> n \<and> n \<le> MAX_RISK_VALUE"
  by (auto simp: require_risk_int_def split: jv.splits)

lemma catch_budget_error_Inr [simp]: "catch_budget_error m = Inr x \<longleftrightarrow> m = Inr x"
  by (auto simp: catch_budget_error_def split: sum.splits)

lemma validate_fact_Inr:
  "validate_fact f j = Inr v \<longleftrightarrow> j = fact_json v \<and>
    (case v of FInt n \<Rightarrow> f \<in> set NUMERIC_RISK_FACTS \<and> 0 \<le> n \<and> n \<le> MAX_RISK_VALUE
     | FStr s \<Rightarrow> f \<notin> set NUMERIC_RISK_FACTS \<and>
         (\<exists>levels. map_of CATEGORICAL_RISK_LEVELS f = Some levels \<and> s \<in> set levels))"
  by (cases v; cases j)
     (auto simp: validate_fact_def rbind_Inr_iff require_risk_int_Inr
       split: option.splits jv.splits if_splits)

lemma validate_fact_ok: "validate_fact f j = Inr v \<Longrightarrow> fact_ok f v \<and> j = fact_json v"
  by (auto simp: fact_ok_def validate_fact_Inr)

lemma index_of_Some: "x \<in> set xs \<longleftrightarrow> (\<exists>i. index_of xs x = Some i)"
  by (induction xs) auto

lemma fact_ok_rank: "fact_ok f v \<Longrightarrow> \<exists>r. fact_rank f v = Some r"
  by (auto simp: fact_ok_def validate_fact_Inr fact_rank_def index_of_Some
      split: fact_value.splits)

lemma fact_ok_in_all: "fact_ok f v \<Longrightarrow> f \<in> set ALL_RISK_FACTS"
  by (force simp: fact_ok_def validate_fact_Inr ALL_RISK_FACTS_def dest: map_of_SomeD
      split: fact_value.splits)

lemma fact_broader_Inr:
  "fact_broader f v cap = Inr b \<longleftrightarrow>
    (\<exists>x y. fact_rank f v = Some x \<and> fact_rank f cap = Some y \<and> b = (x > y))"
  by (auto simp: fact_broader_def split: option.splits)

lemma check_contract_digest_Inr: "check_contract_digest v l = Inr d \<Longrightarrow> digest_ok d"
  by (auto simp: check_contract_digest_def rbind_Inr_iff digest_ok_def dest: require_string_Inr)

lemma check_contract_digest_ok: "digest_ok d \<Longrightarrow> check_contract_digest (JStr d) l = Inr d"
  by (simp add: check_contract_digest_def digest_ok_def require_string_ok)

lemma normalize_caps_Inr:
  assumes "mapM normalize_cap raw = Inr caps" "wf_dict raw"
  shows "wf_dict caps" "\<forall>(f, v) \<in> set caps. fact_ok f v" "keys caps = keys raw"
proof -
  have *: "list_all2 (\<lambda>x y. fst x = fst y \<and> fact_ok (fst y) (snd y)) raw caps"
    using assms(1) unfolding mapM_Inr_iff
    by (rule list_all2_mono) (auto simp: normalize_cap_def rbind_Inr_iff dest: validate_fact_ok)
  then show k: "keys caps = keys raw"
    by (induction rule: list_all2_induct) auto
  show "wf_dict caps" using assms(2) k by (simp add: wf_dict_def)
  show "\<forall>(f, v) \<in> set caps. fact_ok f v"
    using * by (induction rule: list_all2_induct) auto
qed

lemma normalize_caps_ok:
  "\<forall>(f, v) \<in> set caps. fact_ok f v \<Longrightarrow>
    mapM normalize_cap (map (\<lambda>(f, v). (f, fact_json v)) caps) = Inr caps"
  by (induction caps) (auto simp: normalize_cap_def fact_ok_def)

lemma wf_json_obj: "wf_json (JObj d) \<Longrightarrow> wf_dict d"
  by simp

lemma wf_json_jget: "wf_json (JObj d) \<Longrightarrow> wf_json (jget d k)"
  by (force simp: jget_def dget_def split: option.splits dest: map_of_SomeD)

lemma normalize_tool_ok:
  assumes "normalize_tool tools e = Inr tools'" "wf_json (snd e)" "tools_ok tools"
  shows "tools_ok tools'"
proof -
  from assms(1) obtain name d digest raw caps where
    e: "require_string (JStr (fst e)) ''risk_budget tool name'' 256 = Inr name" "snd e = JObj d"
      "digest_ok digest" "jget d ''max_facts'' = JObj raw" "raw \<noteq> []"
      "mapM normalize_cap raw = Inr caps"
      "tools' = AList.update name \<lparr>tp_contract_digest = digest, tp_max_facts = caps\<rparr> tools"
    by (auto simp: normalize_tool_def Let_def dest: check_contract_digest_Inr)
  have "wf_dict raw" using wf_json_jget [of d "''max_facts''"] e assms(2) by simp
  note c = normalize_caps_Inr [OF e(6) this]
  have "caps \<noteq> []" using c(3) e(5) by auto
  then have "tool_policy_ok \<lparr>tp_contract_digest = digest, tp_max_facts = caps\<rparr>"
    using c e(3) by (simp add: tool_policy_ok_def)
  then show ?thesis
    using assms(3) require_string_Inr [OF e(1)] unfolding e(7) tools_ok_def
    by (auto dest!: set_update_subset)
qed

lemma normalize_ceiling_Inr:
  "normalize_ceiling e = Inr (f, c) \<Longrightarrow> f = fst e \<and> ceiling_ok f c"
  by (auto simp: normalize_ceiling_def Let_def ceiling_ok_def require_risk_int_Inr scopes_def)

lemma normalize_ceilings_Inr:
  assumes "mapM normalize_ceiling raw = Inr cs" "wf_dict raw"
  shows "wf_dict cs" "\<forall>(f, c) \<in> set cs. ceiling_ok f c"
proof -
  have *: "list_all2 (\<lambda>x y. fst x = fst y \<and> ceiling_ok (fst y) (snd y)) raw cs"
    using assms(1) unfolding mapM_Inr_iff
    by (rule list_all2_mono) (use normalize_ceiling_Inr in \<open>metis prod.collapse\<close>)
  then have "keys cs = keys raw" by (induction rule: list_all2_induct) auto
  then show "wf_dict cs" using assms(2) by (simp add: wf_dict_def)
  show "\<forall>(f, c) \<in> set cs. ceiling_ok f c"
    using * by (induction rule: list_all2_induct) auto
qed

lemma normalize_risk_budget_InrE:
  assumes "normalize_risk_budget v l = Inr p"
  obtains d rt rc where "v = JObj d" "jget d ''tools'' = JObj rt" "jget d ''ceilings'' = JObj rc"
    "rt \<noteq> []" "foldM normalize_tool [] rt = Inr (rp_tools p)"
    "mapM normalize_ceiling rc = Inr (rp_ceilings p)" "name_ok (rp_lineage_id p)"
    "set (keys (rp_ceilings p)) = set (numeric_facts_of (rp_tools p))"
  using assms by (auto simp: normalize_risk_budget_def dest!: require_string_Inr)

lemma normalize_tool_nonempty: "normalize_tool tools e = Inr tools' \<Longrightarrow> tools' \<noteq> []"
  by (cases tools) (auto simp: normalize_tool_def Let_def split: if_splits)

lemma foldM_normalize_tool_nonempty:
  "foldM normalize_tool acc rt = Inr tools \<Longrightarrow> rt \<noteq> [] \<or> acc \<noteq> [] \<Longrightarrow> tools \<noteq> []"
  by (induction rt arbitrary: acc) (auto dest: normalize_tool_nonempty)

lemma normalize_wf:
  assumes "normalize_risk_budget v l = Inr p" "wf_json v"
  shows "policy_ok p"
  using assms(1)
proof (rule normalize_risk_budget_InrE)
  fix d rt rc
  assume a: "v = JObj d" "jget d ''tools'' = JObj rt" "jget d ''ceilings'' = JObj rc" "rt \<noteq> []"
    "foldM normalize_tool [] rt = Inr (rp_tools p)"
    "mapM normalize_ceiling rc = Inr (rp_ceilings p)" "name_ok (rp_lineage_id p)"
    "set (keys (rp_ceilings p)) = set (numeric_facts_of (rp_tools p))"
  have w: "wf_json (JObj rt)" "wf_json (JObj rc)"
    using wf_json_jget [of d] a assms(2) by metis+
  have "tools_ok (rp_tools p)"
    by (rule foldM_invariant [OF a(5)])
       (use w(1) in \<open>auto simp: tools_ok_def [of "[]"] intro: normalize_tool_ok\<close>)
  then show "policy_ok p"
    using a foldM_normalize_tool_nonempty [OF a(5)] normalize_ceilings_Inr [OF a(6)] w(2)
    by (simp add: policy_ok_def)
qed

section \<open>Round trip\<close>

lemma update_new: "\<not> has_key d k \<Longrightarrow> AList.update k v d = d @ [(k, v)]"
  by (induction d) (auto simp: has_key_def)

lemma normalize_tool_json:
  assumes "name_ok n" "tool_policy_ok tp" "\<not> has_key acc n"
  shows "normalize_tool acc (n, tool_policy_json tp) = Inr (acc @ [(n, tp)])"
proof -
  have "\<forall>e \<in> set (tp_max_facts tp). fst e \<in> set ALL_RISK_FACTS"
    using assms(2) by (auto simp: tool_policy_ok_def dest!: bspec fact_ok_in_all)
  then show ?thesis
    using assms
    by (simp add: normalize_tool_def tool_policy_json_def require_object_def require_string_ok
        check_contract_digest_ok normalize_caps_ok tool_policy_ok_def update_new list_all_iff
        case_prod_beta)
qed

lemma normalize_tools_json:
  "tools_ok tools \<Longrightarrow> \<forall>n \<in> set (keys tools). \<not> has_key acc n \<Longrightarrow>
    foldM normalize_tool acc (map (\<lambda>(n, tp). (n, tool_policy_json tp)) tools) = Inr (acc @ tools)"
proof (induction tools arbitrary: acc)
  case (Cons e tools)
  obtain n t where e: "e = (n, t)" by fastforce
  have *: "tools_ok tools" "\<forall>k \<in> set (keys tools). \<not> has_key (acc @ [(n, t)]) k"
    "normalize_tool acc (n, tool_policy_json t) = Inr (acc @ [(n, t)])"
    using Cons.prems by (auto simp: e tools_ok_def has_key_def normalize_tool_json)
  show ?case using Cons.IH [OF *(1,2)] *(3) by (simp add: e)
qed simp

lemma normalize_ceiling_json: "ceiling_ok f c \<Longrightarrow> normalize_ceiling (f, ceiling_json c) = Inr (f, c)"
  by (auto simp: normalize_ceiling_def ceiling_json_def ceiling_ok_def scopes_def
      require_object_def require_risk_int_def Let_def)

lemma normalize_json:
  assumes "policy_ok p"
  shows "normalize_risk_budget (risk_policy_json p) None = Inr p"
proof -
  have "mapM normalize_ceiling (map (\<lambda>(f, c). (f, ceiling_json c)) (rp_ceilings p)) = Inr (rp_ceilings p)"
    using assms by (auto simp: policy_ok_def mapM_Inr_iff list_all2_conv_all_nth case_prod_beta
        intro!: normalize_ceiling_json [where f = "fst x" and c = "snd x" for x, simplified])
  moreover have "foldM normalize_tool [] (map (\<lambda>(n, tp). (n, tool_policy_json tp)) (rp_tools p)) =
      Inr (rp_tools p)"
    using normalize_tools_json [of "rp_tools p" "[]"] assms by (simp add: policy_ok_def has_key_def)
  ultimately show ?thesis
    using assms by (simp add: normalize_risk_budget_def risk_policy_json_def require_object_def
        require_string_ok policy_ok_def)
qed

section \<open>The order of policies\<close>

definition fact_le :: "string \<Rightarrow> fact_value \<Rightarrow> fact_value \<Rightarrow> bool" where
  "fact_le f v w \<longleftrightarrow>
    (case (fact_rank f v, fact_rank f w) of (Some x, Some y) \<Rightarrow> x \<le> y | _ \<Rightarrow> False)"

definition tool_le :: "tool_policy \<Rightarrow> tool_policy \<Rightarrow> bool" where
  "tool_le c p \<longleftrightarrow> tp_contract_digest c = tp_contract_digest p \<and>
    set (keys (tp_max_facts c)) = set (keys (tp_max_facts p)) \<and>
    (\<forall>(f, v) \<in> set (tp_max_facts c).
       case map_of (tp_max_facts p) f of None \<Rightarrow> False | Some w \<Rightarrow> fact_le f v w)"

definition policy_le :: "risk_policy \<Rightarrow> risk_policy \<Rightarrow> bool" where
  "policy_le c p \<longleftrightarrow> rp_lineage_id c = rp_lineage_id p \<and>
    (\<forall>(n, t) \<in> set (rp_tools c).
       case map_of (rp_tools p) n of None \<Rightarrow> False | Some t' \<Rightarrow> tool_le t t') \<and>
    (\<forall>(f, c1) \<in> set (rp_ceilings c).
       case map_of (rp_ceilings p) f of None \<Rightarrow> False
       | Some c2 \<Rightarrow> \<forall>s \<in> set scopes. at_scope c1 s \<le> at_scope c2 s)"

lemma fact_le_trans: "fact_le f u v \<Longrightarrow> fact_le f v w \<Longrightarrow> fact_le f u w"
  by (auto simp: fact_le_def split: option.splits)

lemma fact_le_refl: "fact_ok f v \<Longrightarrow> fact_le f v v"
  by (auto simp: fact_le_def dest: fact_ok_rank)

lemma tool_le_trans:
  assumes "tool_le a b" "tool_le b c" shows "tool_le a c"
  using assms unfolding tool_le_def
  by (fastforce split: option.splits dest: map_of_SomeD intro: fact_le_trans)

lemma policy_le_trans:
  assumes "policy_le a b" "policy_le b c" shows "policy_le a c"
  unfolding policy_le_def
proof (intro conjI ballI; clarify?)
  show "rp_lineage_id a = rp_lineage_id c" using assms by (simp add: policy_le_def)
next
  fix n t assume "(n, t) \<in> set (rp_tools a)"
  then obtain u where u: "map_of (rp_tools b) n = Some u" "tool_le t u"
    using assms(1) by (fastforce simp: policy_le_def split: option.splits)
  then obtain w where "map_of (rp_tools c) n = Some w" "tool_le u w"
    using assms(2) by (fastforce simp: policy_le_def split: option.splits dest: map_of_SomeD)
  then show "case map_of (rp_tools c) n of None \<Rightarrow> False | Some t' \<Rightarrow> tool_le t t'"
    using u tool_le_trans by auto
next
  fix f t assume "(f, t) \<in> set (rp_ceilings a)"
  then obtain u where u: "map_of (rp_ceilings b) f = Some u" "\<forall>s \<in> set scopes. at_scope t s \<le> at_scope u s"
    using assms(1) by (fastforce simp: policy_le_def split: option.splits)
  then obtain w where "map_of (rp_ceilings c) f = Some w" "\<forall>s \<in> set scopes. at_scope u s \<le> at_scope w s"
    using assms(2) by (fastforce simp: policy_le_def split: option.splits dest: map_of_SomeD)
  then show "case map_of (rp_ceilings c) f of None \<Rightarrow> False
      | Some c2 \<Rightarrow> \<forall>s \<in> set scopes. at_scope t s \<le> at_scope c2 s"
    using u by (auto intro: order.trans)
qed

lemma tool_le_refl:
  assumes "tool_policy_ok t" shows "tool_le t t"
proof -
  have "map_of (tp_max_facts t) f = Some v \<and> fact_le f v v" if "(f, v) \<in> set (tp_max_facts t)" for f v
    using assms that by (auto simp: tool_policy_ok_def wf_dict_def intro: fact_le_refl)
  then show ?thesis by (auto simp: tool_le_def)
qed

lemma policy_le_refl:
  assumes "policy_ok p" shows "policy_le p p"
proof -
  have "map_of (rp_tools p) n = Some t \<and> tool_le t t" if "(n, t) \<in> set (rp_tools p)" for n t
    using assms that by (auto simp: policy_ok_def tools_ok_def wf_dict_def intro: tool_le_refl)
  moreover have "map_of (rp_ceilings p) f = Some c" if "(f, c) \<in> set (rp_ceilings p)" for f c
    using assms that by (simp add: policy_ok_def wf_dict_def)
  ultimately show ?thesis by (auto simp: policy_le_def)
qed

lemma attenuate_cap_Inr:
  "attenuate_cap tp e = Inr () \<longleftrightarrow>
    (case map_of (tp_max_facts tp) (fst e) of None \<Rightarrow> False | Some w \<Rightarrow> fact_le (fst e) (snd e) w)"
  by (auto simp: attenuate_cap_def fact_le_def fact_broader_Inr rbind_Inr_iff split: option.splits)

lemma attenuate_tool_Inr:
  "attenuate_tool p e = Inr () \<longleftrightarrow>
    (case map_of (rp_tools p) (fst e) of None \<Rightarrow> False | Some t' \<Rightarrow> tool_le (snd e) t')"
  by (cases "map_of (rp_tools p) (fst e)")
     (simp_all add: attenuate_tool_def tool_le_def attenuate_cap_Inr rbind_Inr_iff case_prod_beta)

lemma attenuate_ceiling_Inr:
  "attenuate_ceiling p e = Inr () \<longleftrightarrow>
    (case map_of (rp_ceilings p) (fst e) of None \<Rightarrow> False
     | Some c' \<Rightarrow> \<forall>s \<in> set scopes. at_scope (snd e) s \<le> at_scope c' s)"
  by (simp add: attenuate_ceiling_def split: option.splits)

lemma attenuate_le:
  assumes "attenuate_risk_budget parent child = Inr c" "wf_json parent" "wf_json child"
  obtains p where "normalize_risk_budget parent None = Inr p" "policy_ok p" "policy_ok c" "policy_le c p"
proof -
  from assms(1) obtain p where p: "normalize_risk_budget parent None = Inr p"
    by (auto simp: attenuate_risk_budget_def)
  have ok: "policy_ok p" using normalize_wf [OF p assms(2)] .
  have "policy_ok c \<and> policy_le c p"
  proof (cases "child = JNull")
    case True
    then show ?thesis using assms(1) p ok policy_le_refl by (simp add: attenuate_risk_budget_def)
  next
    case False
    then obtain d where d: "child = JObj d"
      using assms(1) p by (auto simp: attenuate_risk_budget_def split: jv.splits)
    then have c: "normalize_risk_budget child (Some (rp_lineage_id p)) = Inr c"
      "rp_lineage_id c = rp_lineage_id p" "\<forall>e \<in> set (rp_tools c). attenuate_tool p e = Inr ()"
      "\<forall>e \<in> set (rp_ceilings c). attenuate_ceiling p e = Inr ()"
      using assms(1) p by (auto simp: attenuate_risk_budget_def)
    have "policy_le c p"
      using c(2-4) by (simp add: policy_le_def attenuate_tool_Inr attenuate_ceiling_Inr case_prod_beta)
    then show ?thesis using normalize_wf [OF c(1) assms(3)] by simp
  qed
  with p ok that show thesis by blast
qed

section \<open>The per-action check\<close>

definition within_cap :: "fact_value dict \<Rightarrow> string \<Rightarrow> fact_value \<Rightarrow> bool" where
  "within_cap caps f v \<longleftrightarrow> fact_ok f v \<and> v \<noteq> FStr ''unknown'' \<and>
    (case map_of caps f of None \<Rightarrow> False | Some cap \<Rightarrow> fact_le f v cap)"

fun numeric_part :: "fact_value dict \<Rightarrow> int dict" where
  "numeric_part [] = []"
| "numeric_part ((f, FInt n) # d) = (f, n) # numeric_part d"
| "numeric_part ((f, FStr s) # d) = numeric_part d"

lemma validate_action_fact_Inr:
  "validate_action_fact caps num (f, v) = Inr num' \<longleftrightarrow> within_cap caps f v \<and>
    num' = (case v of FInt n \<Rightarrow> AList.update f n num | FStr _ \<Rightarrow> num)"
proof (cases "validate_fact f (fact_json v)")
  case (Inl e)
  then show ?thesis by (auto simp: validate_action_fact_def within_cap_def fact_ok_def)
next
  case (Inr w)
  then have j: "fact_json v = fact_json w" by (simp add: validate_fact_Inr)
  then have "v = w" by (cases v; cases w) simp_all
  with Inr have w: "w = v" "fact_ok f v" by (simp_all add: fact_ok_def)
  obtain x where x: "fact_rank f v = Some x" using fact_ok_rank [OF w(2)] by blast
  have n: "f \<in> set NUMERIC_RISK_FACTS \<longleftrightarrow> (\<exists>n. v = FInt n)"
    using w(2) by (cases v) (simp_all add: fact_ok_def validate_fact_Inr)
  show ?thesis
  proof (cases "map_of caps f")
    case None
    with Inr w show ?thesis by (simp add: validate_action_fact_def within_cap_def)
  next
    case (Some cap)
    show ?thesis
      using Inr w x n Some
      by (cases v; cases "fact_rank f cap")
         (simp_all add: validate_action_fact_def within_cap_def fact_le_def fact_broader_def
           not_less, auto)
  qed
qed

lemma keys_numeric_part: "set (keys (numeric_part facts)) \<subseteq> set (keys facts)"
  by (induction facts rule: numeric_part.induct) auto

lemma validate_action_facts_Inr:
  "wf_dict facts \<Longrightarrow> \<forall>f \<in> set (keys facts). \<not> has_key num f \<Longrightarrow>
    foldM (validate_action_fact caps) num facts = Inr num' \<longleftrightarrow>
    (\<forall>(f, v) \<in> set facts. within_cap caps f v) \<and> num' = num @ numeric_part facts"
proof (induction facts arbitrary: num rule: numeric_part.induct)
  case (2 f n d)
  then have "\<forall>k \<in> set (keys d). \<not> has_key (num @ [(f, n)]) k" by (auto simp: has_key_def)
  with 2 show ?case
    by (auto simp: rbind_Inr_iff validate_action_fact_Inr update_new)
qed (auto simp: rbind_Inr_iff validate_action_fact_Inr)

lemma validate_action_risk_Inr:
  assumes "wf_dict facts"
  shows "validate_action_risk policy contract facts = Inr num \<longleftrightarrow>
    (\<exists>p tp. normalize_risk_budget policy None = Inr p \<and>
      map_of (rp_tools p) (trc_tool_name contract) = Some tp \<and>
      tp_contract_digest tp = trc_digest contract \<and>
      set (keys facts) = set (trc_mandatory_facts contract) \<and>
      set (keys (tp_max_facts tp)) = set (keys facts) \<and>
      (\<forall>(f, v) \<in> set facts. within_cap (tp_max_facts tp) f v) \<and> num = numeric_part facts)"
proof -
  have k: "\<forall>f \<in> set (keys facts). \<not> has_key ([] :: int dict) f" by (simp add: has_key_def)
  note * = validate_action_facts_Inr [OF assms k, unfolded append_Nil]
  show ?thesis
  proof (cases "normalize_risk_budget policy None")
    case (Inr p)
    then show ?thesis
      by (cases "map_of (rp_tools p) (trc_tool_name contract)")
         (simp_all add: validate_action_risk_def rbind_Inr_iff *)
  qed (simp add: validate_action_risk_def)
qed

lemma within_cap_mono:
  "tool_le c p \<Longrightarrow> within_cap (tp_max_facts c) f v \<Longrightarrow> within_cap (tp_max_facts p) f v"
  by (cases "map_of (tp_max_facts c) f"; cases "map_of (tp_max_facts p) f")
     (auto simp: within_cap_def tool_le_def dest!: map_of_SomeD [of "tp_max_facts c"] bspec
       intro: fact_le_trans)

lemma validate_action_mono:
  assumes "policy_le c p" "policy_ok c" "normalize_risk_budget parent None = Inr p" "wf_dict facts"
    and "validate_action_risk (risk_policy_json c) contract facts = Inr num"
  shows "validate_action_risk parent contract facts = Inr num"
proof -
  from assms(5) obtain tc where
    tc: "map_of (rp_tools c) (trc_tool_name contract) = Some tc"
      "tp_contract_digest tc = trc_digest contract"
      "set (keys facts) = set (trc_mandatory_facts contract)"
      "set (keys (tp_max_facts tc)) = set (keys facts)"
      "\<forall>(f, v) \<in> set facts. within_cap (tp_max_facts tc) f v" "num = numeric_part facts"
    unfolding validate_action_risk_Inr [OF assms(4)] normalize_json [OF assms(2)] by auto
  from assms(1) map_of_SomeD [OF tc(1)] obtain tp where
    tp: "map_of (rp_tools p) (trc_tool_name contract) = Some tp" "tool_le tc tp"
    by (auto simp: policy_le_def split: option.splits)
  have "tp_contract_digest tp = trc_digest contract"
    "set (keys (tp_max_facts tp)) = set (keys facts)"
    using tp(2) tc(2,4) by (simp_all add: tool_le_def)
  moreover have "\<forall>(f, v) \<in> set facts. within_cap (tp_max_facts tp) f v"
    using tc(5) within_cap_mono [OF tp(2)] by auto
  ultimately show ?thesis
    unfolding validate_action_risk_Inr [OF assms(4)] using assms(3) tc(3,6) tp(1) by blast
qed

section \<open>Projection\<close>

lemma map_of_filter_keys: "map_of [e \<leftarrow> d. P (fst e)] k = (if P k then map_of d k else None)"
  by (induction d) auto

lemma wf_dict_filter [simp]: "wf_dict d \<Longrightarrow> wf_dict (filter P d)"
  by (simp add: wf_dict_def distinct_map_filter)

lemma set_numeric_facts_of:
  "set (numeric_facts_of tools) =
    (\<Union>e \<in> set tools. set (keys (tp_max_facts (snd e))) \<inter> set NUMERIC_RISK_FACTS)"
  by (simp add: numeric_facts_of_def case_prod_beta Int_def)

definition projection :: "risk_policy \<Rightarrow> string list \<Rightarrow> risk_policy" where
  "projection p allowed =
    (let tools = [e \<leftarrow> rp_tools p. fst e \<in> set allowed] in
     \<lparr>rp_lineage_id = rp_lineage_id p, rp_tools = tools,
      rp_ceilings = [e \<leftarrow> rp_ceilings p. fst e \<in> set (numeric_facts_of tools)]\<rparr>)"

lemma set_keys_filter: "A \<subseteq> set (keys d) \<Longrightarrow> set (keys [e \<leftarrow> d. fst e \<in> A]) = A"
  by auto

lemma numeric_facts_filter: "set (numeric_facts_of (filter P tools)) \<subseteq> set (numeric_facts_of tools)"
  unfolding set_numeric_facts_of by auto

lemma projection_ok:
  assumes "policy_ok p" "rp_tools (projection p allowed) \<noteq> []"
  shows "policy_ok (projection p allowed)"
proof -
  let ?tools = "[e \<leftarrow> rp_tools p. fst e \<in> set allowed]"
  have "set (numeric_facts_of ?tools) \<subseteq> set (keys (rp_ceilings p))"
    using assms(1) numeric_facts_filter by (simp only: policy_ok_def)
  note k = set_keys_filter [OF this]
  have "tools_ok ?tools" using assms(1) by (simp add: policy_ok_def tools_ok_def)
  with k assms show ?thesis by (simp only: policy_ok_def projection_def Let_def) simp
qed

lemma project_eq:
  assumes "normalize_risk_budget policy None = Inr p" "wf_json policy"
  shows "project_risk_budget policy allowed =
    Inr (if rp_tools (projection p allowed) = [] then None else Some (projection p allowed))"
proof (cases "rp_tools (projection p allowed) = []")
  case True
  then show ?thesis using assms(1) by (simp add: project_risk_budget_def projection_def Let_def)
next
  case False
  have "normalize_risk_budget (risk_policy_json (projection p allowed)) None = Inr (projection p allowed)"
    by (rule normalize_json [OF projection_ok [OF normalize_wf [OF assms] False]])
  then show ?thesis
    using assms(1) False by (simp add: project_risk_budget_def projection_def Let_def)
qed

lemma projection_tools:
  "map_of (rp_tools (projection p allowed)) n =
    (if n \<in> set allowed then map_of (rp_tools p) n else None)"
  using map_of_filter_keys [of "\<lambda>k. k \<in> set allowed" "rp_tools p" n]
  by (simp add: projection_def Let_def)

section \<open>Contracts\<close>

lemma wf_json_fact_json: "wf_json (fact_json v)"
  by (cases v) simp_all

lemma wf_risk_policy_json: "policy_ok p \<Longrightarrow> wf_json (risk_policy_json p)"
  by (auto simp: risk_policy_json_def policy_ok_def tools_ok_def tool_policy_ok_def
      tool_policy_json_def ceiling_json_def scopes_def wf_json_fact_json)

lemma lower_hex_char:
  assumes "is_lower_hex c"
  shows "\<not> is_py_space c" "lower_char c = c" "code_point c < 128" "is_hex c" "c \<noteq> CHR ''x''"
    "c \<noteq> CHR ''X''" "c \<noteq> CHR ''_''" "c \<noteq> CHR ''+''" "c \<noteq> CHR ''-''"
  using assms
  by (auto simp: is_lower_hex_def is_digit_def is_py_space_def lower_char_def is_hex_def Let_def
      code_point_def)

lemma dropWhile_none: "(\<And>c. c \<in> set s \<Longrightarrow> \<not> P c) \<Longrightarrow> dropWhile P s = s"
  by (cases s) auto

lemma strip_no_space: "(\<And>c. c \<in> set s \<Longrightarrow> \<not> is_py_space c) \<Longrightarrow> strip s = s"
  using dropWhile_none [of s is_py_space] dropWhile_none [of "rev s" is_py_space]
  by (simp add: strip_def)

lemma length_utf8_ascii: "(\<And>c. c \<in> set s \<Longrightarrow> code_point c < 128) \<Longrightarrow> length (utf8 s) = length s"
  by (induction s) (simp_all add: utf8_def Let_def)

lemma hex_tail_lower: "(\<And>c. c \<in> set s \<Longrightarrow> is_lower_hex c) \<Longrightarrow> hex_tail s"
  by (induction s) (auto simp: lower_hex_char)

lemma int16_ok_lower:
  assumes "\<And>c. c \<in> set s \<Longrightarrow> is_lower_hex c" "s \<noteq> []"
  shows "int16_ok s"
proof -
  obtain c cs where s: "s = c # cs" using assms(2) by (cases s) auto
  have "strip s = s" using assms(1) by (intro strip_no_space lower_hex_char)
  moreover have "drop_sign s = s"
    using assms(1) [of c] lower_hex_char [of c] by (auto simp: s drop_sign_def startswith_def)
  moreover have "drop_hex_prefix s = s"
    using assms(1) lower_hex_char(5,6) by (cases cs) (auto simp: s drop_hex_prefix_def startswith_def)
  moreover have "hex_body s"
    using assms(1) hex_tail_lower [of cs] lower_hex_char(4) by (auto simp: s hex_body_def)
  ultimately show ?thesis by (simp add: int16_ok_def)
qed

lemma sha256_nonempty: "hexlify (sha256 bs) \<noteq> []"
proof
  assume "hexlify (sha256 bs) = []"
  then have "length (hexlify (sha256 bs)) = 0" by simp
  then show False by (simp only: length_hexlify length_sha256)
qed

lemma sha256_digest_ok: "digest_ok (''sha256:'' @ hexlify (sha256 bs))"
proof -
  let ?h = "hexlify (sha256 bs)"
  have h: "\<And>c. c \<in> set ?h \<Longrightarrow> is_lower_hex c" by (rule hexlify_lower)
  have l: "length ?h = 64" by simp
  have c: "\<not> is_py_space c" "code_point c < 128" if "c \<in> set (''sha256:'' @ ?h)" for c
    using lower_hex_char(1,3) [OF h] that by (auto simp: is_py_space_def code_point_def)
  have "name_ok (''sha256:'' @ ?h)"
    using strip_no_space [of "''sha256:'' @ ?h"] length_utf8_ascii [of "''sha256:'' @ ?h"] c l
    by (auto simp: name_ok_def)
  moreover have "lower ?h = ?h"
    using lower_hex_char(2) [OF h] by (simp add: lower_def map_idI)
  moreover have "int16_ok ?h"
    using int16_ok_lower [OF h] sha256_nonempty by blast
  ultimately show ?thesis using l by (simp add: digest_ok_def startswith_def)
qed

lemma from_schema_Inr:
  assumes "from_schema check_schema n sch rc = Inr c"
  shows "distinct (trc_mandatory_facts c)" "trc_mandatory_facts c \<noteq> []" "digest_ok (trc_digest c)"
proof -
  obtain ms where d: "list_all (\<lambda>f. case f of JStr s \<Rightarrow> s \<in> set ALL_RISK_FACTS | _ \<Rightarrow> False) ms"
    "distinct (map hash_key ms)" "ms \<noteq> []" "trc_mandatory_facts c = map jstr ms"
    "digest_ok (trc_digest c)"
    using assms sha256_digest_ok
    by (auto simp: from_schema_def Let_def split: jv.splits if_splits sum.splits)
  show "trc_mandatory_facts c \<noteq> []" "digest_ok (trc_digest c)" using d by simp_all
  have "inj_on jstr (set ms)"
    using d(1) by (auto simp: inj_on_def list_all_iff jstr_def split: jv.splits)
  moreover have "distinct ms" using d(2) by (simp add: distinct_map)
  ultimately show "distinct (trc_mandatory_facts c)" using d(4) by (simp add: distinct_map)
qed

lemma extract_facts_Inr:
  assumes "extract_facts validates c args = Inr facts"
  shows "keys facts = trc_mandatory_facts c" "\<forall>(f, v) \<in> set facts. fact_ok f v"
proof -
  have "list_all2 (\<lambda>f e. f = fst e \<and> fact_ok (fst e) (snd e)) (trc_mandatory_facts c) facts"
    if "mapM (extract_fact c a) (trc_mandatory_facts c) = Inr facts" for a
    using that unfolding mapM_Inr_iff
    by (rule list_all2_mono) (auto simp: extract_fact_def dest: validate_fact_ok split: option.splits)
  with assms have *: "list_all2 (\<lambda>f e. f = fst e \<and> fact_ok (fst e) (snd e)) (trc_mandatory_facts c) facts"
    by (auto simp: extract_facts_def split: jv.splits if_splits)
  then show "keys facts = trc_mandatory_facts c" by (induction rule: list_all2_induct) auto
  show "\<forall>(f, v) \<in> set facts. fact_ok f v" using * by (induction rule: list_all2_induct) auto
qed

section \<open>Properties\<close>

definition rb_demo_digest :: string where
  "rb_demo_digest = ''sha256:'' @ replicate 64 (CHR ''a'')"

definition rb_demo_claim :: "int \<Rightarrow> string \<Rightarrow> int \<Rightarrow> jv" where
  "rb_demo_claim cap level session = JObj [(''version'', JInt 1), (''lineage_id'', JStr ''root''),
     (''tools'', JObj [(''rm'', JObj [(''contract_digest'', JStr rb_demo_digest),
        (''max_facts'', JObj [(''destructive_targets'', JInt cap), (''irreversibility'', JStr level)])])]),
     (''ceilings'', JObj [(''destructive_targets'',
        JObj [(''session'', JInt session), (''agent'', JInt 20), (''lineage'', JInt 30)])])]"

definition rb_demo_policy :: "int \<Rightarrow> string \<Rightarrow> int \<Rightarrow> risk_policy" where
  "rb_demo_policy cap level session = \<lparr>rp_lineage_id = ''root'',
     rp_tools = [(''rm'', \<lparr>tp_contract_digest = rb_demo_digest,
        tp_max_facts = [(''destructive_targets'', FInt cap), (''irreversibility'', FStr level)]\<rparr>)],
     rp_ceilings = [(''destructive_targets'', \<lparr>at_session = session, at_agent = 20, at_lineage = 30\<rparr>)]\<rparr>"

definition rb_demo_contract :: tool_risk_contract where
  "rb_demo_contract = \<lparr>trc_tool_name = ''rm'', trc_input_schema = JObj [],
     trc_mandatory_facts = [''destructive_targets'', ''irreversibility''],
     trc_extractors = [(''destructive_targets'', ExArrayLength ''/paths''),
       (''irreversibility'', ExConstant (JStr ''irreversible''))],
     trc_digest = rb_demo_digest\<rparr>"

definition rb_demo_facts :: "fact_value dict" where
  "rb_demo_facts = [(''destructive_targets'', FInt 2), (''irreversibility'', FStr ''irreversible'')]"

lemma rb_demo_wf: "wf_json (rb_demo_claim cap level session)"
  by (simp add: rb_demo_claim_def)

lemma rb_demo_normalize:
  "normalize_risk_budget (rb_demo_claim 5 ''irreversible'' 10) None = Inr (rb_demo_policy 5 ''irreversible'' 10)"
  by code_simp

lemma rb_demo_attenuate:
  "attenuate_risk_budget (rb_demo_claim 5 ''irreversible'' 10) (rb_demo_claim 3 ''irreversible'' 6) =
    Inr (rb_demo_policy 3 ''irreversible'' 6)"
  by code_simp

lemma rb_demo_child_action:
  "validate_action_risk (risk_policy_json (rb_demo_policy 3 ''irreversible'' 6)) rb_demo_contract rb_demo_facts =
    Inr [(''destructive_targets'', 2)]"
  by code_simp

lemma rb_demo_facts_wf: "wf_dict rb_demo_facts"
  by code_simp

text \<open>C31: A claim that passes normalization becomes a well-formed policy: stripped names, digests
  of the right shape, caps in the range of their facts, ceilings exactly for the numeric facts in
  use. Normalizing the result again, as every consumer does, returns it unchanged.\<close>

theorem risk_normalize_idempotent:
  assumes "normalize_risk_budget v lineage_id = Inr p" and "wf_json v"
  shows "policy_ok p \<and> normalize_risk_budget (risk_policy_json p) None = Inr p"
  using normalize_wf [OF assms] normalize_json by blast

theorem risk_normalize_idempotent_witness:
  "policy_ok (rb_demo_policy 5 ''irreversible'' 10) \<and>
    normalize_risk_budget (risk_policy_json (rb_demo_policy 5 ''irreversible'' 10)) None =
      Inr (rb_demo_policy 5 ''irreversible'' 10)"
  by (rule risk_normalize_idempotent [OF rb_demo_normalize rb_demo_wf])

text \<open>C19: A child policy that attenuation returns lets no call through that its parent would refuse:
  whenever the per-action check accepts the facts of a call under the child, it accepts them under
  the parent, and charges the same amounts.\<close>

theorem risk_attenuated_calls_allowed_by_parent:
  assumes "attenuate_risk_budget parent child = Inr c" and "wf_json parent" and "wf_json child"
    and "wf_dict facts"
    and "validate_action_risk (risk_policy_json c) contract facts = Inr amounts"
  shows "validate_action_risk parent contract facts = Inr amounts"
  by (rule attenuate_le [OF assms(1-3)]) (rule validate_action_mono [OF _ _ _ assms(4,5)])

theorem risk_attenuated_calls_allowed_by_parent_witness:
  "validate_action_risk (rb_demo_claim 5 ''irreversible'' 10) rb_demo_contract rb_demo_facts =
    Inr [(''destructive_targets'', 2)]"
  by (rule risk_attenuated_calls_allowed_by_parent
      [OF rb_demo_attenuate rb_demo_wf rb_demo_wf rb_demo_facts_wf rb_demo_child_action])

text \<open>C20: However many times a policy is delegated, each time attenuating the policy of the one
  before, the last one is no broader than the first: same lineage, only tools the first has, with
  the same contracts and facts, caps and per-scope ceilings at most those of the first.\<close>

theorem risk_delegation_chain_never_broader:
  assumes "foldM (\<lambda>q child. attenuate_risk_budget (risk_policy_json q) child) p children = Inr q"
    and "policy_ok p" and "\<forall>child \<in> set children. wf_json child"
  shows "policy_ok q \<and> policy_le q p"
  using assms
proof (induction children arbitrary: p)
  case Nil
  then show ?case by (simp add: policy_le_refl)
next
  case (Cons child children)
  then obtain c where c: "attenuate_risk_budget (risk_policy_json p) child = Inr c"
    "foldM (\<lambda>q child. attenuate_risk_budget (risk_policy_json q) child) c children = Inr q"
    by auto
  have "policy_ok c \<and> policy_le c p"
    by (rule attenuate_le [OF c(1) wf_risk_policy_json [OF Cons.prems(2)]])
       (use Cons.prems normalize_json in auto)
  then show ?case using Cons.IH [OF c(2)] Cons.prems(3) policy_le_trans by auto
qed

theorem risk_delegation_chain_never_broader_witness:
  "policy_ok (rb_demo_policy 1 ''irreversible'' 5) \<and>
    policy_le (rb_demo_policy 1 ''irreversible'' 5) (rb_demo_policy 5 ''irreversible'' 10)"
proof (rule risk_delegation_chain_never_broader)
  show "foldM (\<lambda>q child. attenuate_risk_budget (risk_policy_json q) child)
      (rb_demo_policy 5 ''irreversible'' 10)
      [rb_demo_claim 3 ''irreversible'' 6, rb_demo_claim 1 ''irreversible'' 5] =
      Inr (rb_demo_policy 1 ''irreversible'' 5)" by code_simp
  show "policy_ok (rb_demo_policy 5 ''irreversible'' 10)" by code_simp
qed (simp add: rb_demo_wf)

text \<open>Projecting a policy onto the tools a delegate keeps never fails on a valid policy. Under
  the projected policy a retained tool is decided exactly as before, errors included, and every
  other tool is refused; if nothing is left the policy refused every kept tool already.\<close>

theorem risk_projection_decides_the_same:
  assumes "normalize_risk_budget policy None = Inr p" and "wf_json policy"
  shows "\<exists>q. project_risk_budget policy allowed = Inr q \<and>
    (case q of
       Some q \<Rightarrow> validate_action_risk (risk_policy_json q) contract facts =
         (if trc_tool_name contract \<in> set allowed then validate_action_risk policy contract facts
          else Inl (RiskBudgetError ''risk_policy_tool_missing''))
     | None \<Rightarrow> trc_tool_name contract \<in> set allowed \<longrightarrow>
         validate_action_risk policy contract facts = Inl (RiskBudgetError ''risk_policy_tool_missing''))"
proof (cases "rp_tools (projection p allowed) = []")
  case True
  then have "map_of (rp_tools p) (trc_tool_name contract) = None" if "trc_tool_name contract \<in> set allowed"
    using projection_tools [of p allowed "trc_tool_name contract"] that by simp
  with True show ?thesis
    using assms(1) by (simp add: project_eq [OF assms] validate_action_risk_def)
next
  case False
  then have "normalize_risk_budget (risk_policy_json (projection p allowed)) None = Inr (projection p allowed)"
    by (intro normalize_json projection_ok normalize_wf [OF assms])
  with False show ?thesis
    using assms(1) by (simp add: project_eq [OF assms] validate_action_risk_def projection_tools)
qed

theorem risk_projection_decides_the_same_witness:
  "\<exists>q. project_risk_budget (rb_demo_claim 5 ''irreversible'' 10) [''rm'', ''ls''] = Inr q \<and>
    (case q of
       Some q \<Rightarrow> validate_action_risk (risk_policy_json q) rb_demo_contract rb_demo_facts =
         (if trc_tool_name rb_demo_contract \<in> set [''rm'', ''ls'']
          then validate_action_risk (rb_demo_claim 5 ''irreversible'' 10) rb_demo_contract rb_demo_facts
          else Inl (RiskBudgetError ''risk_policy_tool_missing''))
     | None \<Rightarrow> trc_tool_name rb_demo_contract \<in> set [''rm'', ''ls''] \<longrightarrow>
         validate_action_risk (rb_demo_claim 5 ''irreversible'' 10) rb_demo_contract rb_demo_facts =
           Inl (RiskBudgetError ''risk_policy_tool_missing''))"
  by (rule risk_projection_decides_the_same [OF rb_demo_normalize rb_demo_wf])

text \<open>A call passes the per-action check only if the policy names its tool with the digest of
  the trusted contract, the facts are exactly the mandatory ones, each fact is a valid value within
  its cap and none is \<open>unknown\<close>; the amounts returned for charging are the numeric facts.\<close>

theorem risk_action_within_caps:
  assumes "validate_action_risk policy contract facts = Inr amounts" and "wf_dict facts"
  shows "\<exists>p tp. normalize_risk_budget policy None = Inr p \<and>
    map_of (rp_tools p) (trc_tool_name contract) = Some tp \<and>
    tp_contract_digest tp = trc_digest contract \<and>
    set (keys facts) = set (trc_mandatory_facts contract) \<and>
    set (keys (tp_max_facts tp)) = set (keys facts) \<and>
    (\<forall>(f, v) \<in> set facts. within_cap (tp_max_facts tp) f v) \<and> amounts = numeric_part facts"
  using assms(1) validate_action_risk_Inr [OF assms(2)] by blast

theorem risk_action_within_caps_witness:
  "\<exists>p tp. normalize_risk_budget (risk_policy_json (rb_demo_policy 3 ''irreversible'' 6)) None = Inr p \<and>
    map_of (rp_tools p) (trc_tool_name rb_demo_contract) = Some tp \<and>
    tp_contract_digest tp = trc_digest rb_demo_contract \<and>
    set (keys rb_demo_facts) = set (trc_mandatory_facts rb_demo_contract) \<and>
    set (keys (tp_max_facts tp)) = set (keys rb_demo_facts) \<and>
    (\<forall>(f, v) \<in> set rb_demo_facts. within_cap (tp_max_facts tp) f v) \<and>
    [(''destructive_targets'', 2)] = numeric_part rb_demo_facts"
  by (rule risk_action_within_caps [OF rb_demo_child_action rb_demo_facts_wf])

text \<open>C33: Whatever the schema validator answers, the facts a contract extracts from a call are
  exactly its mandatory facts, each once and each a valid value of its kind, and the contract's
  digest has the shape that the check of claims accepts.\<close>

theorem risk_contract_facts_complete:
  assumes "from_schema check_schema tool_name schema risk_contract = Inr c"
    and "extract_facts validates c arguments = Inr facts"
  shows "keys facts = trc_mandatory_facts c \<and> wf_dict facts \<and> facts \<noteq> [] \<and>
    (\<forall>(f, v) \<in> set facts. fact_ok f v) \<and> digest_ok (trc_digest c)"
  using from_schema_Inr [OF assms(1)] extract_facts_Inr [OF assms(2)]
  by (auto simp: wf_dict_def)

definition rb_demo_contract_doc :: "(string \<times> jv) list" where
  "rb_demo_contract_doc = [(''version'', JInt 1),
     (''mandatory_facts'', JArr [JStr ''destructive_targets'']),
     (''extractors'', JObj [(''destructive_targets'',
        JObj [(''kind'', JStr ''array_length''), (''pointer'', JStr ''/paths'')])])]"

lemma rb_demo_contract_doc_simps:
  "jget rb_demo_contract_doc ''version'' = JInt 1"
  "jget rb_demo_contract_doc ''mandatory_facts'' = JArr [JStr ''destructive_targets'']"
  "jget rb_demo_contract_doc ''extractors'' = JObj [(''destructive_targets'',
      JObj [(''kind'', JStr ''array_length''), (''pointer'', JStr ''/paths'')])]"
  "fst ` set rb_demo_contract_doc = {''version'', ''mandatory_facts'', ''extractors''}"
  by (simp_all add: rb_demo_contract_doc_def jget_def dget_def)

lemma rb_demo_contract_checks:
  "require_string (JStr ''rm'') ''tool_name'' 256 = Inr ''rm''"
  "validate_schema_shape (JObj []) = Inr ()"
  "normalize_extractor ''destructive_targets''
     (JObj [(''kind'', JStr ''array_length''), (''pointer'', JStr ''/paths'')]) = Inr (ExArrayLength ''/paths'')"
  "list_all (\<lambda>f. case f of JStr s \<Rightarrow> s \<in> set ALL_RISK_FACTS | _ \<Rightarrow> False) [JStr ''destructive_targets'']"
  by code_simp+

definition short_json :: "jv \<Rightarrow> bool" where
  "short_json v = (case canonical_json_bytes v of Inl _ \<Rightarrow> False | Inr bs \<Rightarrow> length bs \<le> 200)"

lemma short_json_bounded: "short_json v \<Longrightarrow> 200 \<le> limit \<Longrightarrow> \<exists>bs. bounded_json_bytes v label limit = Inr bs"
  by (auto simp: short_json_def bounded_json_bytes_def split: sum.splits)

lemma rb_demo_contract_short:
  "short_json (JObj [])" "short_json (JObj rb_demo_contract_doc)"
  "short_json (contract_material ''rm'' (JObj []) [''destructive_targets'']
      [(''destructive_targets'', ExArrayLength ''/paths'')])"
  "short_json (JObj [(''paths'', JArr [JStr ''a'', JStr ''b''])])"
  by code_simp+

lemma rb_demo_from_schema:
  "\<exists>d. from_schema (\<lambda>_. True) (JStr ''rm'') (JObj []) (JObj rb_demo_contract_doc) =
    Inr \<lparr>trc_tool_name = ''rm'', trc_input_schema = JObj [],
      trc_mandatory_facts = [''destructive_targets''],
      trc_extractors = [(''destructive_targets'', ExArrayLength ''/paths'')], trc_digest = d\<rparr>"
proof -
  obtain b1 b2 b3 where
    "bounded_json_bytes (JObj []) ''input_schema'' MAX_CONTRACT_BYTES = Inr b1"
    "bounded_json_bytes (JObj rb_demo_contract_doc) ''risk_contract'' MAX_CONTRACT_BYTES = Inr b2"
    "canonical_json_bytes (contract_material ''rm'' (JObj []) [''destructive_targets'']
      [(''destructive_targets'', ExArrayLength ''/paths'')]) = Inr b3"
    using short_json_bounded [of _ MAX_CONTRACT_BYTES] rb_demo_contract_short(1-3)
    by (fastforce simp: short_json_def MAX_CONTRACT_BYTES_def split: sum.splits)
  then show ?thesis
    using rb_demo_contract_checks
    by (simp add: from_schema_def require_object_def Let_def hashable_def jstr_def
        rb_demo_contract_doc_simps RISK_BUDGET_VERSION_def)
qed

lemma rb_demo_extract:
  "extract_facts (\<lambda>_ _. True) \<lparr>trc_tool_name = ''rm'', trc_input_schema = JObj [],
      trc_mandatory_facts = [''destructive_targets''],
      trc_extractors = [(''destructive_targets'', ExArrayLength ''/paths'')], trc_digest = d\<rparr>
      (JObj [(''paths'', JArr [JStr ''a'', JStr ''b''])]) = Inr [(''destructive_targets'', FInt 2)]"
proof -
  obtain b where "bounded_json_bytes (JObj [(''paths'', JArr [JStr ''a'', JStr ''b''])])
      ''tool arguments'' MAX_ARGUMENT_BYTES = Inr b"
    using short_json_bounded [OF rb_demo_contract_short(4), of MAX_ARGUMENT_BYTES "''tool arguments''"]
    by (auto simp: MAX_ARGUMENT_BYTES_def)
  moreover have "json_pointer (JObj [(''paths'', JArr [JStr ''a'', JStr ''b''])]) ''/paths'' =
      Inr (JArr [JStr ''a'', JStr ''b''])"
    "validate_fact ''destructive_targets'' (JInt 2) = Inr (FInt 2)" by code_simp+
  ultimately show ?thesis
    by (simp add: extract_facts_def extract_fact_def raw_fact_def catch_budget_error_def)
qed

theorem risk_contract_facts_complete_witness:
  "\<exists>c. from_schema (\<lambda>_. True) (JStr ''rm'') (JObj []) (JObj rb_demo_contract_doc) = Inr c \<and>
    keys [(''destructive_targets'', FInt 2)] = trc_mandatory_facts c \<and>
    wf_dict [(''destructive_targets'', FInt 2)] \<and> digest_ok (trc_digest c)"
proof -
  obtain d where d: "from_schema (\<lambda>_. True) (JStr ''rm'') (JObj []) (JObj rb_demo_contract_doc) =
    Inr \<lparr>trc_tool_name = ''rm'', trc_input_schema = JObj [],
      trc_mandatory_facts = [''destructive_targets''],
      trc_extractors = [(''destructive_targets'', ExArrayLength ''/paths'')], trc_digest = d\<rparr>"
    using rb_demo_from_schema by blast
  from risk_contract_facts_complete [OF d rb_demo_extract] show ?thesis using d by auto
qed

text \<open>The check of a contract digest in a claim, \<open>int(digest[7:], 16)\<close>, accepts text that is not
  64 hexadecimal digits (a \<open>0x\<close> prefix here), while the digest of a registered contract always is,
  so such an entry can never match a contract.\<close>

theorem risk_digest_check_accepts_non_hex:
  "check_contract_digest (JStr (''sha256:0x'' @ replicate 62 (CHR ''a''))) label =
      Inr (''sha256:0x'' @ replicate 62 (CHR ''a'')) \<and>
    \<not> list_all is_hex (drop 7 (''sha256:0x'' @ replicate 62 (CHR ''a'')))"
  by (rule conjI) (code_simp, code_simp)

end
