(* ===== verification/Risk_Ledger.thy ===== *)
theory Risk_Ledger
  imports Risk_Policy Ledger_Spec
begin

text \<open>
  The blast-radius ledger of \<open>risk_budget.py\<close>, class \<open>FileRiskBudgetLedger\<close>: one file for all
  lineages, in which every numeric risk fact of a call is reserved in three accounts (session,
  agent, lineage) before the call runs, and settled, quarantined or archived afterwards.

  Time is an argument of the operations that read the clock, as in the code (\<open>now\<close>), and an exact
  rational: the code's clock is a float, whose sums and comparisons are exact at the size of a
  clock reading up to less than a microsecond, so that a record within that distance of a deadline can be treated
  one way here and the other way there. A payload
  has the shape the code writes; a file with anything else in it (not JSON, not an object, another
  scope, version or set of fields) is \<open>Corrupt\<close>. The value checks of \<open>_validate\<close> are modelled one by
  one. Persisting sorts the keys of every object.
\<close>

section \<open>State\<close>

definition MAX_RESERVATIONS :: nat where
  "MAX_RESERVATIONS = 4096"

definition QUARANTINE_RETENTION_S :: rat where
  "QUARANTINE_RETENTION_S = 24 * 60 * 60"

definition REPLAY_TOMBSTONE_RETENTION_S :: int where
  "REPLAY_TOMBSTONE_RETENTION_S = 60 * 60"

record rk_lifecycle =
  lf_id :: string
  lf_state :: string
  lf_receipt_id :: "string option"

record rk_reservation =
  rr_fingerprint_hash :: string
  rr_policy_digest :: string
  rr_contract_digest :: string
  rr_fact_digest :: string
  rr_amounts :: "int dict"
  rr_scope_keys :: "string scoped"
  rr_ceilings :: "int scoped dict"
  rr_status :: string
  rr_created_at :: rat
  rr_updated_at :: rat
  rr_expires_at :: int
  rr_lifecycle :: "rk_lifecycle option"

record rk_tombstone =
  rt_fingerprint_hash :: string
  rt_fact_digest :: string
  rt_session_hash :: string
  rt_lineage_hash :: string
  rt_status :: string
  rt_replay_until :: int
  rt_lifecycle :: "rk_lifecycle option"

record rk_account =
  ac_spent :: int
  ac_reserved :: int
  ac_archived_spent :: int

record rk_payload =
  rk_accounts :: "rk_account dict"
  rk_reservations :: "rk_reservation dict"
  rk_tombstones :: "rk_tombstone dict"

type_synonym rk_state = "rk_payload ledger_file"

record risk_reservation_result =
  rres_accepted :: bool
  rres_request_hash :: string
  rres_status :: string
  rres_remaining :: "int dict"
  rres_blocking_fact :: "string option"
  rres_blocking_scope :: "scope option"

record risk_outcome_result =
  rout_request_hash :: string
  rout_status :: string
  rout_remaining :: "int dict"
  rout_fact_digest :: string
  rout_lifecycle_id :: string
  rout_lifecycle_state :: string
  rout_receipt_id :: "string option"
  rout_idempotent :: bool

record rk_reserve_args =
  rka_lineage_id :: string
  rka_session_id :: string
  rka_agent_id :: string
  rka_request_id :: string
  rka_fingerprint :: string
  rka_numeric_facts :: "int dict"
  rka_ceilings :: "int scoped dict"
  rka_policy_digest :: string
  rka_contract_digest :: string
  rka_fact_digest :: string
  rka_expires_at :: int

section \<open>Accounts\<close>

definition rk_request_hash :: "string \<Rightarrow> string \<Rightarrow> string" where
  "rk_request_hash lineage_id request_id = sha256_hex (sha256_hex lineage_id @ '':'' @ request_id)"

definition account_key :: "string \<Rightarrow> scope \<Rightarrow> string \<Rightarrow> string" where
  "account_key fname s h = fname @ '':'' @ scope_name s @ '':'' @ h"

text \<open>The account entries a reservation touches, in the order of the nested loops.\<close>

definition charges :: "int dict \<Rightarrow> string scoped \<Rightarrow> int dict" where
  "charges amounts scope_keys =
    concat (map (\<lambda>(f, a). map (\<lambda>s. (account_key f s (at_scope scope_keys s), a)) scopes) amounts)"

definition entry_sum :: "int dict \<Rightarrow> string \<Rightarrow> int" where
  "entry_sum es k = sum_list (map snd (filter (\<lambda>e. fst e = k) es))"

definition zero_account :: rk_account where
  "zero_account = \<lparr>ac_spent = 0, ac_reserved = 0, ac_archived_spent = 0\<rparr>"

definition add_spent :: "int \<Rightarrow> rk_account \<Rightarrow> rk_account" where
  "add_spent a x = x\<lparr>ac_spent := ac_spent x + a\<rparr>"

definition add_reserved :: "int \<Rightarrow> rk_account \<Rightarrow> rk_account" where
  "add_reserved a x = x\<lparr>ac_reserved := ac_reserved x + a\<rparr>"

definition add_archived :: "int \<Rightarrow> rk_account \<Rightarrow> rk_account" where
  "add_archived a x = x\<lparr>ac_archived_spent := ac_archived_spent x + a\<rparr>"

text \<open>The loops that change existing accounts; a missing one is the \<open>KeyError\<close>.\<close>

fun adjust_accounts ::
  "(int \<Rightarrow> rk_account \<Rightarrow> rk_account) \<Rightarrow> int dict \<Rightarrow> rk_account dict \<Rightarrow> risk_error + rk_account dict" where
  "adjust_accounts g [] accounts = Inr accounts"
| "adjust_accounts g ((k, a) # es) accounts =
    (case map_of accounts k of
       None \<Rightarrow> Inl (RiskKeyError k)
     | Some x \<Rightarrow> adjust_accounts g es (AList.update k (g a x) accounts))"

text \<open>The loop of \<open>reserve\<close>, which creates accounts on first use.\<close>

fun reserve_accounts :: "int dict \<Rightarrow> rk_account dict \<Rightarrow> rk_account dict" where
  "reserve_accounts [] accounts = accounts"
| "reserve_accounts ((k, a) # es) accounts =
    reserve_accounts es (AList.update k (add_reserved a (dget accounts k zero_account)) accounts)"

definition rk_remaining :: "rk_payload \<Rightarrow> int scoped dict \<Rightarrow> string scoped \<Rightarrow> int dict" where
  "rk_remaining p ceilings scope_keys =
    concat (map (\<lambda>(f, c). map (\<lambda>s.
      let account = dget (rk_accounts p) (account_key f s (at_scope scope_keys s)) zero_account
      in (f @ ''.'' @ scope_name s,
          max 0 (at_scope c s - (ac_spent account + ac_reserved account)))) scopes) ceilings)"

section \<open>Validation\<close>

text \<open>\<open>bytes.fromhex\<close>: pairs of digits, with ASCII blanks allowed between the pairs.\<close>

definition is_ascii_space :: "char \<Rightarrow> bool" where
  "is_ascii_space c \<longleftrightarrow> 9 \<le> code_point c \<and> code_point c \<le> 13 \<or> code_point c = 32"

fun fromhex_ok :: "string \<Rightarrow> bool" where
  "fromhex_ok [] = True"
| "fromhex_ok [c] = is_ascii_space c"
| "fromhex_ok (c # d # cs) =
    (if is_ascii_space c then fromhex_ok (d # cs)
     else is_hex c \<and> is_hex d \<and> fromhex_ok cs)"

definition check_lifecycle :: "rk_lifecycle option \<Rightarrow> risk_error + unit" where
  "check_lifecycle lf =
    (case lf of
       None \<Rightarrow> Inl (RiskBudgetError ''risk ledger lifecycle must be a JSON object'')
     | Some l \<Rightarrow>
         rbind (ensure (length (lf_id l) = 64) (RiskBudgetError ''risk ledger lifecycle id is invalid'')) (\<lambda>_.
         rbind (ensure (lf_state l \<in> {''pending'', ''delivered''})
                  (RiskBudgetError ''risk ledger lifecycle state is invalid'')) (\<lambda>_.
         rbind (ensure (lf_state l = ''pending'' \<longrightarrow> lf_receipt_id l = None)
                  (RiskBudgetError ''pending risk lifecycle has a receipt id'')) (\<lambda>_.
         if lf_state l = ''delivered'' then
           rbind (require_string (case lf_receipt_id l of None \<Rightarrow> JNull | Some r \<Rightarrow> JStr r)
             ''risk ledger receipt id'' 256) (\<lambda>_. Inr ())
         else Inr ()))))"

definition tombstone_statuses :: "string list" where
  "tombstone_statuses = [''committed'', ''released'', ''quarantined_committed'']"

definition check_tombstone :: "string \<times> rk_tombstone \<Rightarrow> risk_error + unit" where
  "check_tombstone e =
    (let t = snd e; digest = rt_fact_digest t in
     rbind (ensure (length (fst e) = 64) (RiskBudgetError ''risk ledger tombstone request hash is invalid'')) (\<lambda>_.
     rbind (ensure (length (rt_fingerprint_hash t) = 64)
              (RiskBudgetError ''risk ledger tombstone fingerprint is invalid'')) (\<lambda>_.
     rbind (ensure (startswith digest ''sha256:'' \<and> length digest = 71 \<and> drop 7 digest = lower (drop 7 digest))
              (RiskBudgetError ''risk ledger tombstone fact digest is invalid'')) (\<lambda>_.
     rbind (ensure (fromhex_ok (drop 7 digest))
              (RiskBudgetError ''risk ledger tombstone fact digest is invalid'')) (\<lambda>_.
     rbind (ensure (length (rt_session_hash t) = 64)
              (RiskBudgetError ''risk ledger tombstone session hash is invalid'')) (\<lambda>_.
     rbind (ensure (length (rt_lineage_hash t) = 64)
              (RiskBudgetError ''risk ledger tombstone lineage hash is invalid'')) (\<lambda>_.
     rbind (ensure (rt_status t \<in> set tombstone_statuses)
              (RiskBudgetError ''risk ledger tombstone status is invalid'')) (\<lambda>_.
     rbind (require_risk_int (JInt (rt_replay_until t)) ''risk ledger replay_until'') (\<lambda>_.
     check_lifecycle (rt_lifecycle t))))))))))"

definition check_ceiling :: "string \<times> int scoped \<Rightarrow> risk_error + unit" where
  "check_ceiling e =
    checkM (\<lambda>s. rbind (require_risk_int (JInt (at_scope (snd e) s)) (''risk ledger ceiling '' @ fst e))
      (\<lambda>_. Inr ())) scopes"

definition check_amount :: "string scoped \<Rightarrow> string \<times> int \<Rightarrow> risk_error + unit" where
  "check_amount scope_keys e =
    rbind (ensure (fst e \<in> set NUMERIC_RISK_FACTS)
             (RiskBudgetError ''risk ledger contains an unknown numeric fact'')) (\<lambda>_.
    rbind (require_risk_int (JInt (snd e)) ''risk ledger amount'') (\<lambda>_.
    checkM (\<lambda>s. ensure (length (at_scope scope_keys s) = 64)
      (RiskBudgetError ''risk ledger scope hash is invalid'')) scopes))"

definition reservation_statuses :: "string list" where
  "reservation_statuses = [''active'', ''quarantined'', ''committed'', ''released'']"

definition check_reservation :: "string \<times> rk_reservation \<Rightarrow> risk_error + unit" where
  "check_reservation e =
    (let r = snd e in
     rbind (ensure (length (fst e) = 64) (RiskBudgetError ''risk ledger request hash is invalid'')) (\<lambda>_.
     rbind (require_risk_int (JInt (rr_expires_at r)) ''risk ledger expires_at'') (\<lambda>_.
     rbind (ensure (rr_status r \<in> set reservation_statuses)
              (RiskBudgetError ''risk ledger reservation status is invalid'')) (\<lambda>_.
     rbind (ensure (set (keys (rr_ceilings r)) = set (keys (rr_amounts r)))
              (RiskBudgetError ''risk ledger ceiling facts are incomplete'')) (\<lambda>_.
     rbind (checkM check_ceiling (rr_ceilings r)) (\<lambda>_.
     rbind (if rr_status r = ''active'' then
              ensure (rr_lifecycle r = None)
                (RiskBudgetError ''active risk reservation has lifecycle state'')
            else check_lifecycle (rr_lifecycle r)) (\<lambda>_.
     checkM (check_amount (rr_scope_keys r)) (rr_amounts r))))))))"

text \<open>The entries of the retained reservations in a given state: what \<open>expected_reserved\<close> and
  \<open>retained_spent\<close> add up.\<close>

definition retained :: "(string \<Rightarrow> bool) \<Rightarrow> rk_payload \<Rightarrow> int dict" where
  "retained st p = concat (map (\<lambda>(_, r).
    if st (rr_status r) then charges (rr_amounts r) (rr_scope_keys r) else []) (rk_reservations p))"

definition holds :: "string \<Rightarrow> bool" where
  "holds status \<longleftrightarrow> status \<in> {''active'', ''quarantined''}"

definition is_committed :: "string \<Rightarrow> bool" where
  "is_committed status \<longleftrightarrow> status = ''committed''"

definition check_account :: "rk_payload \<Rightarrow> string \<times> rk_account \<Rightarrow> risk_error + unit" where
  "check_account p e =
    (let x = snd e in
     rbind (require_risk_int (JInt (ac_spent x)) ''risk ledger spent'') (\<lambda>spent.
     rbind (require_risk_int (JInt (ac_reserved x)) ''risk ledger reserved'') (\<lambda>reserved.
     rbind (require_risk_int (JInt (ac_archived_spent x)) ''risk ledger archived_spent'') (\<lambda>archived.
     rbind (ensure (reserved = entry_sum (retained holds p) (fst e))
              (RiskBudgetError ''risk ledger reserved invariant failed'')) (\<lambda>_.
     ensure (spent = archived + entry_sum (retained is_committed p) (fst e))
       (RiskBudgetError ''risk ledger spent invariant failed''))))))"

definition rk_validate :: "rk_payload \<Rightarrow> risk_error + unit" where
  "rk_validate p =
    rbind (ensure (length (rk_reservations p) \<le> MAX_RESERVATIONS)
             (RiskBudgetError ''risk ledger exceeds reservation retention limit'')) (\<lambda>_.
    rbind (ensure (length (rk_tombstones p) \<le> MAX_RESERVATIONS)
             (RiskBudgetError ''risk ledger exceeds tombstone retention limit'')) (\<lambda>_.
    rbind (checkM check_tombstone (rk_tombstones p)) (\<lambda>_.
    rbind (checkM check_reservation (rk_reservations p)) (\<lambda>_.
    rbind (checkM (check_account p) (rk_accounts p)) (\<lambda>_.
    ensure (list_all (has_key (rk_accounts p)) (keys (retained holds p) @ keys (retained is_committed p)))
      (RiskBudgetError ''risk ledger references a missing account''))))))"

section \<open>Loading and persisting\<close>

definition rk_fresh :: rk_payload where
  "rk_fresh = \<lparr>rk_accounts = [], rk_reservations = [], rk_tombstones = []\<rparr>"

definition rk_load :: "rk_state \<Rightarrow> risk_error + rk_payload" where
  "rk_load st =
    (case st of
       Absent \<Rightarrow> Inr rk_fresh
     | Corrupt \<Rightarrow> Inl (RiskBudgetError ''risk ledger is unavailable or corrupt'')
     | Stored p \<Rightarrow> Inr p)"

definition rk_open :: "rk_state \<Rightarrow> risk_error + rk_payload" where
  "rk_open st = rbind (rk_load st) (\<lambda>p. rbind (rk_validate p) (\<lambda>_. Inr p))"

definition sort_reservation :: "rk_reservation \<Rightarrow> rk_reservation" where
  "sort_reservation r = r\<lparr>rr_amounts := sort_keys (rr_amounts r), rr_ceilings := sort_keys (rr_ceilings r)\<rparr>"

definition rk_sorted :: "rk_payload \<Rightarrow> rk_payload" where
  "rk_sorted p =
    \<lparr>rk_accounts = sort_keys (rk_accounts p),
     rk_reservations = sort_keys (map (\<lambda>(k, r). (k, sort_reservation r)) (rk_reservations p)),
     rk_tombstones = sort_keys (rk_tombstones p)\<rparr>"

definition rk_persist :: "rk_payload \<Rightarrow> rk_state" where
  "rk_persist p = Stored (rk_sorted p)"

section \<open>Pruning\<close>

text \<open>\<open>int(now)\<close> truncates towards zero.\<close>

definition int_trunc :: "rat \<Rightarrow> int" where
  "int_trunc x = (if 0 \<le> x then \<lfloor>x\<rfloor> else \<lceil>x\<rceil>)"

definition pending_lifecycle :: "string \<Rightarrow> string \<Rightarrow> rk_lifecycle" where
  "pending_lifecycle request_hash outcome =
    \<lparr>lf_id = sha256_hex (''outcome:'' @ request_hash @ '':'' @ outcome),
     lf_state = ''pending'', lf_receipt_id = None\<rparr>"

definition rk_quarantine :: "string \<Rightarrow> rat \<Rightarrow> rk_reservation \<Rightarrow> rk_reservation" where
  "rk_quarantine request_hash now r =
    r\<lparr>rr_status := ''quarantined'', rr_updated_at := now,
      rr_lifecycle := Some (pending_lifecycle request_hash ''quarantined'')\<rparr>"

definition keep_tombstone :: "rat \<Rightarrow> rk_tombstone \<Rightarrow> bool" where
  "keep_tombstone now t \<longleftrightarrow> \<not> (of_int (rt_replay_until t) \<le> now \<and>
    (case rt_lifecycle t of None \<Rightarrow> False | Some l \<Rightarrow> lf_state l = ''delivered''))"

record rk_prune_state =
  pr_payload :: rk_payload
  pr_pruned :: nat
  pr_quarantined :: nat

text \<open>Archive one reservation: its accounts change by \<open>g\<close>, a tombstone takes its place.\<close>

definition prune_archive ::
  "rat \<Rightarrow> string \<Rightarrow> rk_reservation \<Rightarrow> string \<Rightarrow> (int \<Rightarrow> rk_account \<Rightarrow> rk_account) \<Rightarrow> rk_prune_state \<Rightarrow>
    risk_error + rk_prune_state" where
  "prune_archive now request_hash r status g w =
    (let p = pr_payload w in
     rbind (adjust_accounts g (charges (rr_amounts r) (rr_scope_keys r)) (rk_accounts p)) (\<lambda>accounts.
     if length (rk_tombstones p) \<ge> MAX_RESERVATIONS
     then Inl (RiskBudgetError ''risk replay tombstone retention limit reached'')
     else Inr (w\<lparr>pr_payload :=
         \<lparr>rk_accounts = accounts,
          rk_reservations = AList.delete request_hash (rk_reservations p),
          rk_tombstones = AList.update request_hash
            \<lparr>rt_fingerprint_hash = rr_fingerprint_hash r, rt_fact_digest = rr_fact_digest r,
             rt_session_hash = at_session (rr_scope_keys r), rt_lineage_hash = at_lineage (rr_scope_keys r),
             rt_status = status,
             rt_replay_until = max (rr_expires_at r) (int_trunc now) + REPLAY_TOMBSTONE_RETENTION_S,
             rt_lifecycle = rr_lifecycle r\<rparr> (rk_tombstones p)\<rparr>,
       pr_pruned := pr_pruned w + 1\<rparr>)))"

definition undelivered :: "rk_lifecycle option \<Rightarrow> bool" where
  "undelivered lf = (case lf of None \<Rightarrow> False | Some l \<Rightarrow> lf_state l \<noteq> ''delivered'')"

definition prune_step ::
  "rat \<Rightarrow> rk_prune_state \<Rightarrow> string \<times> rk_reservation \<Rightarrow> risk_error + rk_prune_state" where
  "prune_step now w e =
    (let request_hash = fst e; r = snd e in
     rbind (require_risk_int (JInt (rr_expires_at r)) ''risk ledger expires_at'') (\<lambda>expires_at.
     if of_int expires_at > now then Inr w
     else if rr_status r = ''active'' then
       Inr (w\<lparr>pr_payload := (pr_payload w)\<lparr>rk_reservations :=
              AList.update request_hash (rk_quarantine request_hash now r) (rk_reservations (pr_payload w))\<rparr>,
            pr_quarantined := pr_quarantined w + 1\<rparr>)
     else if rr_status r = ''quarantined'' then
       if now < rr_updated_at r + QUARANTINE_RETENTION_S then Inr w
       else prune_archive now request_hash r ''quarantined_committed''
              (\<lambda>a. add_archived a \<circ> add_spent a \<circ> add_reserved (- a)) w
     else if rr_status r \<in> {''committed'', ''released''} \<and> undelivered (rr_lifecycle r) then Inr w
     else prune_archive now request_hash r (rr_status r)
            (if rr_status r = ''committed'' then add_archived else (\<lambda>_ x. x)) w))"

definition prune_payload :: "rk_payload \<Rightarrow> rat \<Rightarrow> risk_error + rk_prune_state" where
  "prune_payload p now =
    (let kept = [e \<leftarrow> rk_tombstones p. keep_tombstone now (snd e)] in
     foldM (prune_step now)
       \<lparr>pr_payload = p\<lparr>rk_tombstones := kept\<rparr>,
        pr_pruned = length (rk_tombstones p) - length kept, pr_quarantined = 0\<rparr>
       (rk_reservations p))"

text \<open>What \<open>reserve\<close> and \<open>prune_expired\<close> do first: open, prune, and persist if anything changed.\<close>

definition rk_open_pruned :: "rk_state \<Rightarrow> rat \<Rightarrow> risk_error + rk_prune_state \<times> rk_state" where
  "rk_open_pruned st now =
    rbind (rk_open st) (\<lambda>p.
    rbind (prune_payload p now) (\<lambda>w.
    if pr_pruned w \<noteq> 0 \<or> pr_quarantined w \<noteq> 0
    then rbind (rk_validate (pr_payload w)) (\<lambda>_. Inr (w, rk_persist (pr_payload w)))
    else Inr (w, st)))"

definition rk_prune_expired :: "rat \<Rightarrow> rk_state \<Rightarrow> (risk_error + nat \<times> nat) \<times> rk_state" where
  "rk_prune_expired now st =
    (case rk_open_pruned st now of
       Inl e \<Rightarrow> (Inl e, st)
     | Inr (w, st') \<Rightarrow> (Inr (pr_pruned w, pr_quarantined w), st'))"

section \<open>Reserving\<close>

text \<open>Commit the payload a locked section decided to write; \<open>_validate\<close> runs before every write.\<close>

definition rk_commit ::
  "rk_state \<Rightarrow> risk_error + 'r \<times> rk_payload option \<Rightarrow> (risk_error + 'r) \<times> rk_state" where
  "rk_commit st m =
    (case m of
       Inl e \<Rightarrow> (Inl e, st)
     | Inr (r, None) \<Rightarrow> (Inr r, st)
     | Inr (r, Some p) \<Rightarrow>
         (case rk_validate p of
            Inl e \<Rightarrow> (Inl e, st)
          | Inr _ \<Rightarrow> (Inr r, rk_persist p)))"

definition rka_scope_keys :: "rk_reserve_args \<Rightarrow> string scoped" where
  "rka_scope_keys a = \<lparr>at_session = sha256_hex (rka_session_id a),
     at_agent = sha256_hex (rka_agent_id a), at_lineage = sha256_hex (rka_lineage_id a)\<rparr>"

text \<open>The first fact and scope whose remaining room the amount exceeds.\<close>

definition blocking :: "int dict \<Rightarrow> int dict \<Rightarrow> (string \<times> int \<times> scope) option" where
  "blocking amounts remaining =
    find (\<lambda>(f, a, s). a > dget remaining (f @ ''.'' @ scope_name s) 0)
      (concat (map (\<lambda>(f, a). map (\<lambda>s. (f, a, s)) scopes) amounts))"

definition same_semantics :: "rk_reserve_args \<Rightarrow> rk_reservation \<Rightarrow> bool" where
  "same_semantics a r \<longleftrightarrow>
    rr_fingerprint_hash r = sha256_hex (rka_fingerprint a) \<and>
    rr_policy_digest r = rka_policy_digest a \<and> rr_contract_digest r = rka_contract_digest a \<and>
    rr_fact_digest r = rka_fact_digest a \<and> dict_eq (rr_amounts r) (rka_numeric_facts a) \<and>
    rr_scope_keys r = rka_scope_keys a"

definition rka_reservation :: "rk_reserve_args \<Rightarrow> rat \<Rightarrow> int \<Rightarrow> rk_reservation" where
  "rka_reservation a now expires_at =
    \<lparr>rr_fingerprint_hash = sha256_hex (rka_fingerprint a), rr_policy_digest = rka_policy_digest a,
     rr_contract_digest = rka_contract_digest a, rr_fact_digest = rka_fact_digest a,
     rr_amounts = rka_numeric_facts a, rr_scope_keys = rka_scope_keys a,
     rr_ceilings = rka_ceilings a, rr_status = ''active'', rr_created_at = now,
     rr_updated_at = now, rr_expires_at = expires_at, rr_lifecycle = None\<rparr>"

definition rk_reserve_locked ::
  "rk_reserve_args \<Rightarrow> rat \<Rightarrow> rk_payload \<Rightarrow> risk_error + risk_reservation_result \<times> rk_payload option" where
  "rk_reserve_locked a now p =
    (let request_hash = rk_request_hash (rka_lineage_id a) (rka_request_id a);
         scope_keys = rka_scope_keys a;
         amounts = rka_numeric_facts a
     in case map_of (rk_tombstones p) request_hash of
       Some t \<Rightarrow>
         if rt_fingerprint_hash t \<noteq> sha256_hex (rka_fingerprint a)
         then Inl (RiskBudgetConflictError ''risk request id tombstone has different semantics'')
         else Inl (RiskBudgetReplayError ''risk request id already archived'')
     | None \<Rightarrow>
       (case map_of (rk_reservations p) request_hash of
          Some existing \<Rightarrow>
            if same_semantics a existing
            then Inl (RiskBudgetReplayError ''risk request id already recorded'')
            else Inl (RiskBudgetConflictError ''risk request id already used for different semantics'')
        | None \<Rightarrow>
            if length (rk_reservations p) \<ge> MAX_RESERVATIONS
            then Inl (RiskBudgetError ''risk reservation retention limit reached'')
            else
              let remaining = rk_remaining p (rka_ceilings a) scope_keys in
              case blocking amounts remaining of
                Some (f, _, s) \<Rightarrow>
                  Inr (\<lparr>rres_accepted = False, rres_request_hash = request_hash,
                    rres_status = ''rejected'', rres_remaining = remaining,
                    rres_blocking_fact = Some f, rres_blocking_scope = Some s\<rparr>, None)
              | None \<Rightarrow>
                  rbind (require_risk_int (JInt (rka_expires_at a)) ''expires_at'') (\<lambda>expires_at.
                  let p' = p\<lparr>
                    rk_accounts := reserve_accounts (charges amounts scope_keys) (rk_accounts p),
                    rk_reservations := AList.update request_hash (rka_reservation a now expires_at)
                      (rk_reservations p)\<rparr>
                  in Inr (\<lparr>rres_accepted = True, rres_request_hash = request_hash,
                       rres_status = ''active'', rres_remaining = rk_remaining p' (rka_ceilings a) scope_keys,
                       rres_blocking_fact = None, rres_blocking_scope = None\<rparr>, Some p'))))"

definition rk_reserve_checks :: "rk_reserve_args \<Rightarrow> risk_error + unit" where
  "rk_reserve_checks a =
    rbind (checkM (\<lambda>(label, v). rbind (require_string (JStr v) label 1024) (\<lambda>_. Inr ()))
      [(''lineage_id'', rka_lineage_id a), (''session_id'', rka_session_id a),
       (''agent_id'', rka_agent_id a), (''request_id'', rka_request_id a),
       (''fingerprint'', rka_fingerprint a)]) (\<lambda>_.
    rbind (ensure (set (keys (rka_numeric_facts a)) = set (keys (rka_ceilings a)))
             (RiskBudgetError ''numeric facts and ceilings must have identical keys'')) (\<lambda>_.
    checkM (\<lambda>(f, v). rbind (require_risk_int (JInt v) f) (\<lambda>_. Inr ())) (rka_numeric_facts a)))"

definition rk_reserve ::
  "rk_reserve_args \<Rightarrow> rat \<Rightarrow> rk_state \<Rightarrow> (risk_error + risk_reservation_result) \<times> rk_state" where
  "rk_reserve a now st =
    (case rbind (rk_reserve_checks a) (\<lambda>_. rk_open_pruned st now) of
       Inl e \<Rightarrow> (Inl e, st)
     | Inr (w, st') \<Rightarrow> rk_commit st' (rk_reserve_locked a now (pr_payload w)))"

section \<open>Outcomes\<close>

definition rk_outcome_result ::
  "rk_payload \<Rightarrow> string \<Rightarrow> string \<Rightarrow> rk_reservation \<Rightarrow> rk_lifecycle \<Rightarrow> bool \<Rightarrow> risk_outcome_result" where
  "rk_outcome_result p request_hash status r lf idem =
    \<lparr>rout_request_hash = request_hash, rout_status = status,
     rout_remaining = rk_remaining p (rr_ceilings r) (rr_scope_keys r),
     rout_fact_digest = rr_fact_digest r, rout_lifecycle_id = lf_id lf,
     rout_lifecycle_state = lf_state lf, rout_receipt_id = lf_receipt_id lf, rout_idempotent = idem\<rparr>"

definition rk_outcome_locked ::
  "string \<Rightarrow> string \<Rightarrow> string \<Rightarrow> string \<Rightarrow> rat \<Rightarrow> rk_payload \<Rightarrow>
    risk_error + risk_outcome_result \<times> rk_payload option" where
  "rk_outcome_locked request_hash session_hash lineage_hash outcome now p =
    (case map_of (rk_reservations p) request_hash of
       None \<Rightarrow> Inl (RiskBudgetError ''risk reservation does not exist'')
     | Some r \<Rightarrow>
         if at_session (rr_scope_keys r) \<noteq> session_hash
         then Inl (RiskBudgetConflictError ''risk reservation belongs to a different session'')
         else if at_lineage (rr_scope_keys r) \<noteq> lineage_hash
         then Inl (RiskBudgetConflictError ''risk reservation belongs to a different lineage'')
         else if rr_status r = outcome then
           (case rr_lifecycle r of
              None \<Rightarrow> Inl (RiskTypeError ''lifecycle'')
            | Some lf \<Rightarrow> Inr (rk_outcome_result p request_hash outcome r lf True, None))
         else if rr_status r = ''quarantined'' \<and> outcome = ''released''
         then Inl (RiskBudgetConflictError ''quarantined risk reservation cannot be released'')
         else if rr_status r = ''quarantined'' \<and> rr_lifecycle r = None
         then Inl (RiskTypeError ''lifecycle'')
         else if rr_status r = ''quarantined'' \<and> undelivered (rr_lifecycle r)
         then Inl (RiskBudgetError ''quarantine lifecycle receipt must be delivered before reconciliation'')
         else if rr_status r \<notin> {''active'', ''quarantined''}
         then Inl (RiskBudgetConflictError ''risk reservation is not reconcilable'')
         else
           rbind (adjust_accounts
             (if outcome = ''committed'' then (\<lambda>a. add_spent a \<circ> add_reserved (- a)) else (\<lambda>a. add_reserved (- a)))
             (charges (rr_amounts r) (rr_scope_keys r)) (rk_accounts p)) (\<lambda>accounts.
           let lf = pending_lifecycle request_hash outcome;
               r' = r\<lparr>rr_status := outcome, rr_updated_at := now, rr_lifecycle := Some lf\<rparr>;
               p' = p\<lparr>rk_accounts := accounts,
                 rk_reservations := AList.update request_hash r' (rk_reservations p)\<rparr>
           in Inr (rk_outcome_result p' request_hash outcome r' lf False, Some p')))"

definition rk_record_outcome ::
  "string \<Rightarrow> string \<Rightarrow> string \<Rightarrow> string \<Rightarrow> rat \<Rightarrow> rk_state \<Rightarrow>
    (risk_error + risk_outcome_result) \<times> rk_state" where
  "rk_record_outcome lineage_id session_id request_id outcome now st =
    rk_commit st (
      rbind (ensure (outcome \<in> {''committed'', ''released''})
               (RiskBudgetError ''risk outcome must be committed or released'')) (\<lambda>_.
      rbind (require_string (JStr request_id) ''request_id'' 1024) (\<lambda>rid.
      rbind (require_string (JStr session_id) ''session_id'' 1024) (\<lambda>sid.
      rbind (require_string (JStr lineage_id) ''lineage_id'' 1024) (\<lambda>lid.
      rbind (rk_open st) (\<lambda>p.
      rk_outcome_locked (rk_request_hash lineage_id rid) (sha256_hex sid) (sha256_hex lid) outcome now p))))))"

section \<open>The receipt outbox\<close>

text \<open>Acknowledge a lifecycle record: \<open>None\<close> if it was delivered already with the same receipt.\<close>

definition ack_lifecycle ::
  "rk_lifecycle option \<Rightarrow> string \<Rightarrow> string \<Rightarrow> risk_error + rk_lifecycle option" where
  "ack_lifecycle lf lifecycle_id receipt_id =
    (case lf of
       None \<Rightarrow> Inl (RiskBudgetConflictError ''risk lifecycle binding mismatch'')
     | Some l \<Rightarrow>
         if lf_id l \<noteq> lifecycle_id then Inl (RiskBudgetConflictError ''risk lifecycle binding mismatch'')
         else if lf_state l = ''delivered'' then
           if lf_receipt_id l \<noteq> Some receipt_id
           then Inl (RiskBudgetConflictError ''risk lifecycle receipt binding mismatch'')
           else Inr None
         else Inr (Some (l\<lparr>lf_state := ''delivered'', lf_receipt_id := Some receipt_id\<rparr>)))"

definition check_owner :: "string \<Rightarrow> string \<Rightarrow> string \<Rightarrow> string \<Rightarrow> risk_error + unit" where
  "check_owner record_session record_lineage session_hash lineage_hash =
    rbind (ensure (record_session = session_hash)
             (RiskBudgetConflictError ''risk lifecycle belongs to a different session'')) (\<lambda>_.
    ensure (record_lineage = lineage_hash)
      (RiskBudgetConflictError ''risk lifecycle belongs to a different lineage''))"

definition rk_deliver_locked ::
  "string \<Rightarrow> string \<Rightarrow> string \<Rightarrow> string \<Rightarrow> string \<Rightarrow> rk_payload \<Rightarrow> risk_error + unit \<times> rk_payload option" where
  "rk_deliver_locked request_hash session_hash lineage_hash lifecycle_id receipt_id p =
    (case map_of (rk_reservations p) request_hash of
       Some r \<Rightarrow>
         rbind (check_owner (at_session (rr_scope_keys r)) (at_lineage (rr_scope_keys r))
                  session_hash lineage_hash) (\<lambda>_.
         rbind (ack_lifecycle (rr_lifecycle r) lifecycle_id receipt_id) (\<lambda>ack.
         case ack of None \<Rightarrow> Inr ((), None)
         | Some l \<Rightarrow> Inr ((), Some (p\<lparr>rk_reservations :=
             AList.update request_hash (r\<lparr>rr_lifecycle := Some l\<rparr>) (rk_reservations p)\<rparr>))))
     | None \<Rightarrow>
       (case map_of (rk_tombstones p) request_hash of
          None \<Rightarrow> Inl (RiskBudgetError ''risk lifecycle reservation does not exist'')
        | Some t \<Rightarrow>
            rbind (check_owner (rt_session_hash t) (rt_lineage_hash t) session_hash lineage_hash) (\<lambda>_.
            rbind (ack_lifecycle (rt_lifecycle t) lifecycle_id receipt_id) (\<lambda>ack.
            case ack of None \<Rightarrow> Inr ((), None)
            | Some l \<Rightarrow> Inr ((), Some (p\<lparr>rk_tombstones :=
                AList.update request_hash (t\<lparr>rt_lifecycle := Some l\<rparr>) (rk_tombstones p)\<rparr>))))))"

definition rk_mark_lifecycle_delivered ::
  "string \<Rightarrow> string \<Rightarrow> string \<Rightarrow> string \<Rightarrow> string \<Rightarrow> rk_state \<Rightarrow> (risk_error + unit) \<times> rk_state" where
  "rk_mark_lifecycle_delivered lineage_id session_id request_hash lifecycle_id receipt_id st =
    rk_commit st (
      rbind (require_string (JStr session_id) ''session_id'' 1024) (\<lambda>sid.
      rbind (require_string (JStr lineage_id) ''lineage_id'' 1024) (\<lambda>lid.
      rbind (require_string (JStr lifecycle_id) ''lifecycle_id'' 128) (\<lambda>_.
      rbind (require_string (JStr receipt_id) ''receipt_id'' 1024) (\<lambda>_.
      rbind (rk_open st) (\<lambda>p.
      rk_deliver_locked request_hash (sha256_hex sid) (sha256_hex lid) lifecycle_id receipt_id p))))))"

definition owned :: "string \<Rightarrow> string \<Rightarrow> rk_reservation \<Rightarrow> bool" where
  "owned session_hash lineage_hash r \<longleftrightarrow>
    at_session (rr_scope_keys r) = session_hash \<and> at_lineage (rr_scope_keys r) = lineage_hash"

definition owned_tombstone :: "string \<Rightarrow> string \<Rightarrow> rk_tombstone \<Rightarrow> bool" where
  "owned_tombstone session_hash lineage_hash t \<longleftrightarrow>
    rt_session_hash t = session_hash \<and> rt_lineage_hash t = lineage_hash"

definition is_pending :: "rk_lifecycle option \<Rightarrow> bool" where
  "is_pending lf = (case lf of None \<Rightarrow> False | Some l \<Rightarrow> lf_state l = ''pending'')"

definition outbox_reservation ::
  "rk_payload \<Rightarrow> bool \<Rightarrow> string \<times> rk_reservation \<Rightarrow> risk_outcome_result list" where
  "outbox_reservation p idem e =
    (case rr_lifecycle (snd e) of
       None \<Rightarrow> []
     | Some l \<Rightarrow> [(rk_outcome_result p (fst e) (rr_status (snd e)) (snd e) l idem)\<lparr>rout_receipt_id := None\<rparr>])"

definition outbox_tombstone :: "string \<times> rk_tombstone \<Rightarrow> risk_outcome_result list" where
  "outbox_tombstone e =
    (case rt_lifecycle (snd e) of
       None \<Rightarrow> []
     | Some l \<Rightarrow> [\<lparr>rout_request_hash = fst e,
         rout_status = (if rt_status (snd e) = ''quarantined_committed'' then ''quarantined'' else rt_status (snd e)),
         rout_remaining = [], rout_fact_digest = rt_fact_digest (snd e), rout_lifecycle_id = lf_id l,
         rout_lifecycle_state = ''pending'', rout_receipt_id = None, rout_idempotent = True\<rparr>])"

definition is_stale :: "string \<Rightarrow> string \<Rightarrow> rat \<Rightarrow> rk_reservation \<Rightarrow> bool" where
  "is_stale session_hash lineage_hash stale_before r \<longleftrightarrow>
    rr_status r = ''active'' \<and> owned session_hash lineage_hash r \<and> rr_created_at r \<le> stale_before"

definition rk_stale_locked ::
  "string \<Rightarrow> string \<Rightarrow> rat \<Rightarrow> rat \<Rightarrow> rk_payload \<Rightarrow>
    risk_error + risk_outcome_result list \<times> rk_payload option" where
  "rk_stale_locked session_hash lineage_hash stale_before now p =
    (let stale = is_stale session_hash lineage_hash stale_before;
         newly = keys [e \<leftarrow> rk_reservations p. stale (snd e)];
         p' = p\<lparr>rk_reservations :=
           map (\<lambda>(h, r). (h, if stale r then rk_quarantine h now r else r)) (rk_reservations p)\<rparr>;
         quarantined =
           concat (map (\<lambda>e. outbox_reservation p' (fst e \<notin> set newly) e)
             [e \<leftarrow> rk_reservations p'. rr_status (snd e) = ''quarantined'' \<and>
                owned session_hash lineage_hash (snd e) \<and> is_pending (rr_lifecycle (snd e))]) @
           concat (map outbox_tombstone
             [e \<leftarrow> rk_tombstones p'. rt_status (snd e) = ''quarantined_committed'' \<and>
                owned_tombstone session_hash lineage_hash (snd e) \<and> is_pending (rt_lifecycle (snd e))])
     in Inr (quarantined, if quarantined \<noteq> [] then Some p' else None))"

definition rk_quarantine_stale ::
  "string \<Rightarrow> string \<Rightarrow> rat \<Rightarrow> rat \<Rightarrow> rk_state \<Rightarrow> (risk_error + risk_outcome_result list) \<times> rk_state" where
  "rk_quarantine_stale lineage_id session_id stale_before now st =
    rk_commit st (
      rbind (require_string (JStr session_id) ''session_id'' 1024) (\<lambda>sid.
      rbind (require_string (JStr lineage_id) ''lineage_id'' 1024) (\<lambda>lid.
      rbind (rk_open st) (\<lambda>p.
      rk_stale_locked (sha256_hex sid) (sha256_hex lid) stale_before now p))))"

section \<open>Queries\<close>

definition rk_unresolved_for_session :: "rk_state \<Rightarrow> string \<Rightarrow> string \<Rightarrow> risk_error + string list" where
  "rk_unresolved_for_session st lineage_id session_id =
    rbind (rk_open st) (\<lambda>p.
    Inr (keys [e \<leftarrow> rk_reservations p. holds (rr_status (snd e)) \<and>
           owned (sha256_hex session_id) (sha256_hex lineage_id) (snd e)] @
         keys [e \<leftarrow> rk_tombstones p. rt_status (snd e) = ''quarantined_committed'' \<and>
           owned_tombstone (sha256_hex session_id) (sha256_hex lineage_id) (snd e) \<and>
           is_pending (rt_lifecycle (snd e))]))"

definition rk_pending_lifecycles_for_session ::
  "rk_state \<Rightarrow> string \<Rightarrow> string \<Rightarrow> risk_error + risk_outcome_result list" where
  "rk_pending_lifecycles_for_session st lineage_id session_id =
    rbind (require_string (JStr session_id) ''session_id'' 1024) (\<lambda>sid.
    rbind (require_string (JStr lineage_id) ''lineage_id'' 1024) (\<lambda>lid.
    rbind (rk_open st) (\<lambda>p.
    Inr (concat (map (outbox_reservation p True)
           [e \<leftarrow> rk_reservations p. owned (sha256_hex sid) (sha256_hex lid) (snd e) \<and>
              is_pending (rr_lifecycle (snd e))]) @
         concat (map outbox_tombstone
           [e \<leftarrow> rk_tombstones p. owned_tombstone (sha256_hex sid) (sha256_hex lid) (snd e) \<and>
              is_pending (rt_lifecycle (snd e))])))))"

definition rk_remaining_op ::
  "rk_state \<Rightarrow> string \<Rightarrow> string \<Rightarrow> string \<Rightarrow> int scoped dict \<Rightarrow> risk_error + int dict" where
  "rk_remaining_op st lineage_id session_id agent_id ceilings =
    rbind (rk_open st) (\<lambda>p.
    Inr (rk_remaining p ceilings \<lparr>at_session = sha256_hex session_id,
      at_agent = sha256_hex agent_id, at_lineage = sha256_hex lineage_id\<rparr>))"

definition rk_snapshot :: "rk_state \<Rightarrow> risk_error + rk_payload" where
  "rk_snapshot st = rk_open st"

section \<open>The ledger as a state machine\<close>

datatype rk_op =
    RkReserve rk_reserve_args rat
  | RkOutcome string string string string rat
  | RkDeliver string string string string string
  | RkQuarantineStale string string rat rat
  | RkPrune rat

datatype rk_outcome =
    RkReserved risk_reservation_result
  | RkSettled risk_outcome_result
  | RkDelivered
  | RkQuarantined "risk_outcome_result list"
  | RkPruned nat nat

definition rk_exec :: "rk_op \<Rightarrow> rk_state \<Rightarrow> (risk_error + rk_outcome) \<times> rk_state" where
  "rk_exec opn st =
    (case opn of
       RkReserve a now \<Rightarrow> apfst (map_sum id RkReserved) (rk_reserve a now st)
     | RkOutcome l s r out now \<Rightarrow> apfst (map_sum id RkSettled) (rk_record_outcome l s r out now st)
     | RkDeliver l s h i rid \<Rightarrow>
         apfst (map_sum id (\<lambda>_. RkDelivered)) (rk_mark_lifecycle_delivered l s h i rid st)
     | RkQuarantineStale l s before now \<Rightarrow>
         apfst (map_sum id RkQuarantined) (rk_quarantine_stale l s before now st)
     | RkPrune now \<Rightarrow> apfst (map_sum id (\<lambda>(n, m). RkPruned n m)) (rk_prune_expired now st))"

end
