(* ===== verification/Risk_Accounting.thy ===== *)
theory Risk_Accounting
  imports Risk_Attenuation Risk_Ledger
begin

text \<open>
  The bookkeeping of the risk ledger: every account holds exactly what the retained reservations
  and the archive account for, whatever operations ran; nothing is accepted beyond a ceiling; what
  was spent stays spent; a request identifier is not accepted twice within its replay window.
\<close>

section \<open>Entries\<close>

lemma entry_sum_Nil [simp]: "entry_sum [] k = 0"
  by (simp add: entry_sum_def)

lemma entry_sum_Cons [simp]: "entry_sum ((j, a) # es) k = (if j = k then a else 0) + entry_sum es k"
  by (simp add: entry_sum_def)

lemma entry_sum_append [simp]: "entry_sum (es @ fs) k = entry_sum es k + entry_sum fs k"
  by (simp add: entry_sum_def)

lemma entry_sum_as_mset:
  "entry_sum es k = \<Sum>\<^sub># (image_mset snd (filter_mset (\<lambda>e. fst e = k) (mset es)))"
  by (induction es) auto

lemma entry_sum_mset: "mset es = mset fs \<Longrightarrow> entry_sum es k = entry_sum fs k"
  by (simp add: entry_sum_as_mset)

lemma entry_sum_nonneg: "\<forall>e \<in> set es. 0 \<le> snd e \<Longrightarrow> 0 \<le> entry_sum es k"
  by (induction es) auto

lemma entry_sum_absent: "k \<notin> set (keys es) \<Longrightarrow> entry_sum es k = 0"
  by (induction es) auto

lemma entry_sum_wf: "wf_dict es \<Longrightarrow> (k, a) \<in> set es \<Longrightarrow> entry_sum es k = a"
  by (induction es) (force simp: entry_sum_absent)+

abbreviation rr_charges :: "rk_reservation \<Rightarrow> int dict" where
  "rr_charges r \<equiv> charges (rr_amounts r) (rr_scope_keys r)"

definition part :: "(string \<Rightarrow> bool) \<Rightarrow> string \<Rightarrow> rk_reservation \<Rightarrow> int" where
  "part st k r = (if st (rr_status r) then entry_sum (rr_charges r) k else 0)"

definition held :: "(string \<Rightarrow> bool) \<Rightarrow> rk_reservation dict \<Rightarrow> string \<Rightarrow> int" where
  "held st rs k = total (part st k) rs"

lemma entry_sum_retained: "entry_sum (retained st p) k = held st (rk_reservations p) k"
proof -
  have "entry_sum (concat (map (\<lambda>(_, r). if st (rr_status r) then rr_charges r else []) rs)) k = held st rs k" for rs
    by (induction rs) (auto simp: held_def part_def)
  then show ?thesis by (simp add: retained_def)
qed

lemma held_update_new: "map_of rs h = None \<Longrightarrow> held st (AList.update h r rs) k = held st rs k + part st k r"
  by (simp add: held_def total_update_new)

lemma held_update_old:
  "wf_dict rs \<Longrightarrow> map_of rs h = Some r \<Longrightarrow>
    held st (AList.update h r' rs) k = held st rs k - part st k r + part st k r'"
  by (simp add: held_def total_update_old)

lemma held_delete:
  "wf_dict rs \<Longrightarrow> map_of rs h = Some r \<Longrightarrow>
    held st (AList.delete h rs) k = held st rs k - part st k r"
  by (simp add: held_def total_delete)

text \<open>Keys of accounts are unambiguous: the fact and the scope can be read back.\<close>

lemma account_key_inj:
  assumes "account_key f s h = account_key f' s' h'" "length h = length h'"
  shows "f = f' \<and> s = s' \<and> h = h'"
proof -
  have "(f @ '':'' @ scope_name s @ '':'') @ h = (f' @ '':'' @ scope_name s' @ '':'') @ h'"
    using assms(1) by (simp add: account_key_def)
  then have e: "f @ '':'' @ scope_name s = f' @ '':'' @ scope_name s'" "h = h'"
    unfolding append_eq_append_conv [OF disjI2 [OF assms(2)]] by simp_all
  have "rev (scope_name s) @ CHR '':'' # rev f = rev (scope_name s') @ CHR '':'' # rev f'"
    using arg_cong [OF e(1), of rev] by simp
  then have "f = f' \<and> scope_name s = scope_name s'"
    using scope_name_no_colon [of s] scope_name_no_colon [of s']
    by (cases s; cases s') (auto simp: Cons_eq_append_conv)
  then show ?thesis using e(2) scope_name_inj by auto
qed

lemma in_charges:
  "e \<in> set (charges amounts sk) \<longleftrightarrow>
    (\<exists>f s. fst e = account_key f s (at_scope sk s) \<and> (f, snd e) \<in> set amounts)"
  by (cases e) (force simp: charges_def)

definition keys_ok :: "string scoped \<Rightarrow> bool" where
  "keys_ok sk \<longleftrightarrow> (\<forall>s. length (at_scope sk s) = 64)"

lemma distinct_scopes: "distinct scopes"
  by (simp add: scopes_def)

lemma set_per_scope:
  "e \<in> set (concat (map (\<lambda>(f, v). map (\<lambda>s. (K f s, V f v s)) scopes) d)) \<longleftrightarrow>
    (\<exists>f v s. (f, v) \<in> set d \<and> e = (K f s, V f v s))"
  by force

lemma wf_per_scope:
  assumes inj: "\<And>f s f' s'. K f s = K f' s' \<longleftrightarrow> f = f' \<and> s = s'" and "wf_dict d"
  shows "wf_dict (concat (map (\<lambda>(f, v). map (\<lambda>s. (K f s, V f v s)) scopes) d))"
  using assms(2)
proof (induction d)
  case (Cons e d)
  obtain f v where e: "e = (f, v)" by fastforce
  define es where "es = concat (map (\<lambda>(f, v). map (\<lambda>s. (K f s, V f v s)) scopes) d)"
  have "K f s \<notin> set (keys es)" for s
  proof
    assume "K f s \<in> set (keys es)"
    then obtain x where x: "x \<in> set es" "K f s = fst x" unfolding set_map by (rule imageE)
    then obtain f' v' s' where "(f', v') \<in> set d" "K f s = K f' s'"
      using set_per_scope [of x K V d] by (auto simp: es_def)
    then show False using Cons.prems inj by (force simp: e)
  qed
  then have "set (map (K f) scopes) \<inter> set (keys es) = {}" by auto
  moreover have "distinct (map (K f) scopes)"
    unfolding distinct_map inj_on_def using inj by (simp add: distinct_scopes)
  moreover have "wf_dict es" using Cons by (simp add: e es_def)
  ultimately have "wf_dict (map (\<lambda>s. (K f s, V f v s)) scopes @ es)"
    by (simp add: wf_dict_def comp_def)
  then show ?case by (simp add: e es_def)
qed simp

lemma wf_charges:
  assumes "wf_dict amounts" "keys_ok sk" shows "wf_dict (charges amounts sk)"
proof -
  have "account_key f s (at_scope sk s) = account_key f' t (at_scope sk t) \<longleftrightarrow> f = f' \<and> s = t" for f f' s t
    using account_key_inj [of f s "at_scope sk s" f' t "at_scope sk t"] assms(2) by (auto simp: keys_ok_def)
  from wf_per_scope [OF this assms(1)] show ?thesis by (simp add: charges_def)
qed

lemma charge_of_amount:
  assumes "wf_dict amounts" "keys_ok sk" "(f, a) \<in> set amounts"
  shows "entry_sum (charges amounts sk) (account_key f s (at_scope sk s)) = a"
  using entry_sum_wf [OF wf_charges [OF assms(1,2)]] assms(3) by (force simp: in_charges)

lemma charges_as_mset:
  "mset (charges am sk) =
    \<Sum>\<^sub># (image_mset (\<lambda>(f, a). mset (map (\<lambda>s. (account_key f s (at_scope sk s), a)) scopes)) (mset am))"
  by (induction am) (auto simp: charges_def)

lemma charges_mset: "mset am = mset an \<Longrightarrow> mset (charges am sk) = mset (charges an sk)"
  by (simp only: charges_as_mset)

section \<open>Account changes\<close>

definition shift :: "int \<Rightarrow> int \<Rightarrow> int \<Rightarrow> int \<Rightarrow> rk_account \<Rightarrow> rk_account" where
  "shift ds dr da a x = \<lparr>ac_spent = ac_spent x + ds * a, ac_reserved = ac_reserved x + dr * a,
     ac_archived_spent = ac_archived_spent x + da * a\<rparr>"

lemma shift_simps [simp]:
  "ac_spent (shift ds dr da a x) = ac_spent x + ds * a"
  "ac_reserved (shift ds dr da a x) = ac_reserved x + dr * a"
  "ac_archived_spent (shift ds dr da a x) = ac_archived_spent x + da * a"
  by (simp_all add: shift_def)

lemma shift_add: "shift ds dr da a (shift ds dr da b x) = shift ds dr da (b + a) x"
  by (simp add: shift_def algebra_simps)

lemma shift_zero: "shift ds dr da 0 x = x"
  by (simp add: shift_def)

lemma changes_as_shift:
  "(\<lambda>a. add_archived a \<circ> add_spent a \<circ> add_reserved (- a)) = shift 1 (- 1) 1"
  "add_archived = shift 0 0 1" "(\<lambda>_ x. x) = shift 0 0 0"
  "(\<lambda>a. add_spent a \<circ> add_reserved (- a)) = shift 1 (- 1) 0"
  "(\<lambda>a. add_reserved (- a)) = shift 0 (- 1) 0" "add_reserved = shift 0 1 0"
  by (auto simp: fun_eq_iff shift_def add_archived_def add_spent_def add_reserved_def)

lemma adjust_shift:
  "\<forall>k \<in> set (keys es). has_key acc k \<Longrightarrow>
    \<exists>acc'. adjust_accounts (shift ds dr da) es acc = Inr acc' \<and> (wf_dict acc \<longrightarrow> wf_dict acc') \<and>
      (\<forall>k. map_of acc' k = map_option (shift ds dr da (entry_sum es k)) (map_of acc k))"
proof (induction es arbitrary: acc)
  case Nil
  have "map_option (shift ds dr da 0) y = y" for y by (cases y) (simp_all add: shift_zero)
  then show ?case by simp
next
  case (Cons e es)
  obtain k a where e: "e = (k, a)" by fastforce
  obtain x where x: "map_of acc k = Some x" using Cons.prems by (auto simp: e has_key_iff)
  let ?acc = "AList.update k (shift ds dr da a x) acc"
  have "\<forall>k \<in> set (keys es). has_key ?acc k" using Cons.prems by (auto simp: has_key_iff)
  then obtain acc' where acc': "adjust_accounts (shift ds dr da) es ?acc = Inr acc'"
    "wf_dict ?acc \<longrightarrow> wf_dict acc'"
    "\<forall>j. map_of acc' j = map_option (shift ds dr da (entry_sum es j)) (map_of ?acc j)"
    using Cons.IH by blast
  have "map_of acc' j = map_option (shift ds dr da (entry_sum (e # es) j)) (map_of acc j)" for j
    using acc'(3) x by (auto simp: e shift_add)
  then show ?case using acc'(1,2) x by (auto simp: e)
qed

lemma reserve_accounts_map_of:
  "map_of (reserve_accounts es acc) k =
    (if k \<in> set (keys es) \<or> has_key acc k
     then Some (shift 0 1 0 (entry_sum es k) (dget acc k zero_account)) else None)"
proof (induction es acc rule: reserve_accounts.induct)
  case (1 acc)
  then show ?case by (auto simp: has_key_iff dget_def shift_zero split: option.splits)
next
  case (2 j a es acc)
  then show ?case
    by (auto simp: changes_as_shift has_key_iff dget_def shift_add shift_zero entry_sum_absent)
qed

lemma wf_reserve_accounts: "wf_dict acc \<Longrightarrow> wf_dict (reserve_accounts es acc)"
  by (induction es acc rule: reserve_accounts.induct) auto

section \<open>The invariant\<close>

definition amounts_ok :: "rk_reservation \<Rightarrow> bool" where
  "amounts_ok r \<longleftrightarrow> wf_dict (rr_amounts r) \<and> (\<forall>e \<in> set (rr_amounts r). 0 \<le> snd e)"

definition account_ok :: "rk_reservation dict \<Rightarrow> string \<Rightarrow> rk_account \<Rightarrow> bool" where
  "account_ok rs k x \<longleftrightarrow> 0 \<le> ac_archived_spent x \<and> ac_reserved x = held holds rs k \<and>
    ac_spent x = ac_archived_spent x + held is_committed rs k \<and>
    ac_spent x + ac_reserved x \<le> MAX_RISK_VALUE"

definition accounts_ok :: "rk_account dict \<Rightarrow> rk_reservation dict \<Rightarrow> bool" where
  "accounts_ok acc rs \<longleftrightarrow> wf_dict acc \<and> (\<forall>k x. map_of acc k = Some x \<longrightarrow> account_ok rs k x) \<and>
    (\<forall>e \<in> set rs. \<forall>k \<in> set (keys (rr_charges (snd e))). has_key acc k)"

definition rk_core :: "rk_payload \<Rightarrow> bool" where
  "rk_core p \<longleftrightarrow> wf_dict (rk_reservations p) \<and> wf_dict (rk_tombstones p) \<and>
    (\<forall>e \<in> set (rk_reservations p). amounts_ok (snd e)) \<and>
    accounts_ok (rk_accounts p) (rk_reservations p)"

definition rk_inv :: "rk_payload \<Rightarrow> bool" where
  "rk_inv p \<longleftrightarrow> rk_core p \<and> rk_validate p = Inr ()"

definition rk_state_inv :: "rk_state \<Rightarrow> bool" where
  "rk_state_inv st = (case st of Stored p \<Rightarrow> rk_inv p | _ \<Rightarrow> True)"

lemma charges_nonneg: "amounts_ok r \<Longrightarrow> 0 \<le> entry_sum (rr_charges r) k"
  by (rule entry_sum_nonneg) (force simp: in_charges amounts_ok_def)

lemma part_nonneg: "amounts_ok r \<Longrightarrow> 0 \<le> part st k r"
  by (simp add: part_def charges_nonneg)

lemma held_nonneg: "\<forall>e \<in> set rs. amounts_ok (snd e) \<Longrightarrow> 0 \<le> held st rs k"
  unfolding held_def by (rule total_nonneg) (use part_nonneg in force)

lemma accounts_ok_shift:
  assumes acc: "accounts_ok acc rs" and wf: "wf_dict acc'"
    and map: "\<And>k. map_of acc' k = map_option (shift ds dr da (c k)) (map_of acc k)"
    and h: "\<And>k. held holds rs' k = held holds rs k + dr * c k"
    and s: "\<And>k. held is_committed rs' k = held is_committed rs k + (ds - da) * c k"
    and c: "\<And>k. 0 \<le> c k" and d: "0 \<le> da" "ds + dr \<le> 0"
    and k: "\<forall>e \<in> set rs'. \<forall>k \<in> set (keys (rr_charges (snd e))). has_key acc k"
  shows "accounts_ok acc' rs'"
proof -
  have "account_ok rs' k y" if y: "map_of acc' k = Some y" for k y
  proof -
    obtain x where x: "map_of acc k = Some x" "y = shift ds dr da (c k) x"
      using map y by auto
    have "account_ok rs k x" using acc x(1) by (simp add: accounts_ok_def)
    moreover have "0 \<le> da * c k" "(ds + dr) * c k \<le> 0"
      using c d by (simp_all add: mult_nonpos_nonneg)
    ultimately show ?thesis
      by (auto simp: account_ok_def x(2) h s algebra_simps)
  qed
  moreover have "has_key acc' k \<longleftrightarrow> has_key acc k" for k by (simp add: has_key_iff map)
  ultimately show ?thesis using wf k by (simp add: accounts_ok_def)
qed

lemma adjust_ok:
  assumes "accounts_ok acc rs" "(h, r) \<in> set rs" "amounts_ok r"
    and "\<And>k. held holds rs' k = held holds rs k + dr * entry_sum (rr_charges r) k"
    and "\<And>k. held is_committed rs' k = held is_committed rs k + (ds - da) * entry_sum (rr_charges r) k"
    and "0 \<le> da" "ds + dr \<le> 0"
    and "\<And>e. e \<in> set rs' \<Longrightarrow> \<exists>e' \<in> set rs. rr_charges (snd e) = rr_charges (snd e')"
  shows "\<exists>acc'. adjust_accounts (shift ds dr da) (rr_charges r) acc = Inr acc' \<and> accounts_ok acc' rs' \<and>
    (\<forall>k. map_of acc' k = map_option (shift ds dr da (entry_sum (rr_charges r) k)) (map_of acc k))"
proof -
  have "\<forall>k \<in> set (keys (rr_charges r)). has_key acc k"
    using assms(1,2) unfolding accounts_ok_def by (metis snd_conv)
  then obtain acc' where a: "adjust_accounts (shift ds dr da) (rr_charges r) acc = Inr acc'"
    "wf_dict acc \<longrightarrow> wf_dict acc'"
    "\<forall>k. map_of acc' k = map_option (shift ds dr da (entry_sum (rr_charges r) k)) (map_of acc k)"
    using adjust_shift by blast
  have k: "\<forall>e \<in> set rs'. \<forall>k \<in> set (keys (rr_charges (snd e))). has_key acc k"
    using assms(1,8) unfolding accounts_ok_def by metis
  have "accounts_ok acc' rs'"
    by (rule accounts_ok_shift [OF assms(1) _ _ assms(4,5) _ assms(6,7) k])
       (use a(2,3) assms(1) charges_nonneg [OF assms(3)] in \<open>auto simp: accounts_ok_def\<close>)
  with a show ?thesis by blast
qed

lemma accounts_ok_same:
  assumes "accounts_ok acc rs" "\<And>st k. st = holds \<or> st = is_committed \<Longrightarrow> held st rs' k = held st rs k"
    and "\<And>e. e \<in> set rs' \<Longrightarrow> \<exists>e' \<in> set rs. rr_charges (snd e) = rr_charges (snd e')"
  shows "accounts_ok acc rs'"
  using assms unfolding accounts_ok_def account_ok_def by (metis (no_types, lifting))

lemma update_charges:
  assumes "map_of rs h = Some r" "rr_charges r' = rr_charges r" "e \<in> set (AList.update h r' rs)"
  shows "\<exists>e' \<in> set rs. rr_charges (snd e) = rr_charges (snd e')"
  using set_update_subset [OF assms(3)] map_of_SomeD [OF assms(1)] assms(2) by force

lemma delete_charges:
  assumes "e \<in> set (AList.delete h rs)"
  shows "\<exists>e' \<in> set rs. rr_charges (snd e) = rr_charges (snd e')"
  using assms by (auto simp: set_delete)

section \<open>Validation and sorting\<close>

lemma check_account_Inr:
  "check_account p e = Inr () \<longleftrightarrow>
    (let x = snd e in
     0 \<le> ac_spent x \<and> ac_spent x \<le> MAX_RISK_VALUE \<and> 0 \<le> ac_reserved x \<and> ac_reserved x \<le> MAX_RISK_VALUE \<and>
     0 \<le> ac_archived_spent x \<and> ac_archived_spent x \<le> MAX_RISK_VALUE \<and>
     ac_reserved x = held holds (rk_reservations p) (fst e) \<and>
     ac_spent x = ac_archived_spent x + held is_committed (rk_reservations p) (fst e))"
  by (auto simp: check_account_def Let_def rbind_Inr_iff require_risk_int_Inr entry_sum_retained)

lemma set_retained:
  "set (retained st p) = (\<Union>e \<in> set (rk_reservations p). if st (rr_status (snd e)) then set (rr_charges (snd e)) else {})"
proof -
  have "set (concat (map (\<lambda>(_, r). if st (rr_status r) then rr_charges r else []) rs)) =
      (\<Union>e \<in> set rs. if st (rr_status (snd e)) then set (rr_charges (snd e)) else {})" for rs
    by (induction rs) auto
  then show ?thesis by (simp only: retained_def)
qed

lemma keys_retained:
  "k \<in> set (keys (retained st p)) \<longleftrightarrow>
    (\<exists>e \<in> set (rk_reservations p). st (rr_status (snd e)) \<and> k \<in> set (keys (rr_charges (snd e))))"
  by (auto simp: set_retained split: if_splits)

lemma rk_validate_Inr:
  "rk_validate p = Inr () \<longleftrightarrow>
    length (rk_reservations p) \<le> MAX_RESERVATIONS \<and> length (rk_tombstones p) \<le> MAX_RESERVATIONS \<and>
    (\<forall>e \<in> set (rk_tombstones p). check_tombstone e = Inr ()) \<and>
    (\<forall>e \<in> set (rk_reservations p). check_reservation e = Inr ()) \<and>
    (\<forall>e \<in> set (rk_accounts p). check_account p e = Inr ()) \<and>
    (\<forall>e \<in> set (rk_reservations p). holds (rr_status (snd e)) \<or> is_committed (rr_status (snd e)) \<longrightarrow>
      (\<forall>k \<in> set (keys (rr_charges (snd e))). has_key (rk_accounts p) k))"
proof -
  have "list_all (has_key (rk_accounts p)) (keys (retained holds p) @ keys (retained is_committed p)) \<longleftrightarrow>
    (\<forall>k. k \<in> set (keys (retained holds p)) \<or> k \<in> set (keys (retained is_committed p)) \<longrightarrow>
      has_key (rk_accounts p) k)"
    by (auto simp: list_all_iff)
  also have "\<dots> \<longleftrightarrow> (\<forall>e \<in> set (rk_reservations p). holds (rr_status (snd e)) \<or> is_committed (rr_status (snd e)) \<longrightarrow>
      (\<forall>k \<in> set (keys (rr_charges (snd e))). has_key (rk_accounts p) k))"
    unfolding keys_retained by blast
  finally show ?thesis by (simp add: rk_validate_def rbind_Inr_iff)
qed

lemma part_sort [simp]: "part st k (sort_reservation r) = part st k r"
proof -
  have "mset (charges (sort_keys (rr_amounts r)) (rr_scope_keys r)) = mset (rr_charges r)"
    by (rule charges_mset) simp
  from entry_sum_mset [OF this] show ?thesis by (simp add: part_def sort_reservation_def)
qed

lemma held_sort [simp]:
  "held st (sort_keys (map (\<lambda>(k, r). (k, sort_reservation r)) rs)) k = held st rs k"
proof -
  have "total (part st k) (map (\<lambda>(k, r). (k, sort_reservation r)) rs) = total (part st k) rs"
    by (induction rs) auto
  then show ?thesis by (simp add: held_def)
qed

lemma set_charges_sort [simp]: "set (rr_charges (sort_reservation r)) = set (rr_charges r)"
  using mset_eq_setD [OF charges_mset [of "sort_keys (rr_amounts r)" "rr_amounts r"]]
  by (simp add: sort_reservation_def)

lemma check_reservation_Inr:
  "check_reservation (h, r) = Inr () \<longleftrightarrow> length h = 64 \<and>
    0 \<le> rr_expires_at r \<and> rr_expires_at r \<le> MAX_RISK_VALUE \<and>
    rr_status r \<in> set reservation_statuses \<and>
    set (keys (rr_ceilings r)) = set (keys (rr_amounts r)) \<and>
    (\<forall>e \<in> set (rr_ceilings r). check_ceiling e = Inr ()) \<and>
    (if rr_status r = ''active'' then rr_lifecycle r = None else check_lifecycle (rr_lifecycle r) = Inr ()) \<and>
    (\<forall>e \<in> set (rr_amounts r). check_amount (rr_scope_keys r) e = Inr ())"
  unfolding check_reservation_def Let_def fst_conv snd_conv rbind_Inr_iff ensure_Inr_iff
    checkM_Inr_iff require_risk_int_Inr
  by (cases "rr_status r = ''active''") simp_all

lemma check_reservation_sort: "check_reservation (h, sort_reservation r) = Inr () \<longleftrightarrow> check_reservation (h, r) = Inr ()"
  unfolding check_reservation_Inr by (simp add: sort_reservation_def)

lemma set_sorted_reservations:
  "set (rk_reservations (rk_sorted p)) = (\<lambda>(k, r). (k, sort_reservation r)) ` set (rk_reservations p)"
  by (simp add: rk_sorted_def)

lemma has_key_sort [simp]: "has_key (sort_keys d) k \<longleftrightarrow> has_key d k"
  by (simp add: has_key_def)

lemma rk_validate_sorted: "rk_validate (rk_sorted p) = Inr () \<longleftrightarrow> rk_validate p = Inr ()"
proof -
  have "rr_status (sort_reservation r) = rr_status r" for r by (simp add: sort_reservation_def)
  then show ?thesis
    unfolding rk_validate_Inr set_sorted_reservations
    by (simp add: check_account_Inr check_reservation_sort rk_sorted_def case_prod_beta)
qed

lemma amounts_ok_sort [simp]: "amounts_ok (sort_reservation r) \<longleftrightarrow> amounts_ok r"
  by (simp add: amounts_ok_def sort_reservation_def)

lemma account_ok_sorted: "account_ok (rk_reservations (rk_sorted p)) k x \<longleftrightarrow> account_ok (rk_reservations p) k x"
  by (simp add: account_ok_def rk_sorted_def)

lemma rk_core_sorted:
  assumes "rk_core p" shows "rk_core (rk_sorted p)"
proof -
  have "wf_dict (rk_reservations (rk_sorted p))" "wf_dict (rk_tombstones (rk_sorted p))"
    using assms by (simp_all add: rk_core_def rk_sorted_def)
  moreover have "accounts_ok (rk_accounts (rk_sorted p)) (rk_reservations (rk_sorted p))"
    using assms unfolding rk_core_def accounts_ok_def set_sorted_reservations
    by (simp add: account_ok_sorted, simp add: rk_sorted_def case_prod_beta)
  ultimately show ?thesis
    using assms unfolding rk_core_def set_sorted_reservations by (simp add: case_prod_beta)
qed

lemma rk_inv_persist: "rk_core p \<Longrightarrow> rk_validate p = Inr () \<Longrightarrow> rk_state_inv (rk_persist p)"
  by (simp add: rk_state_inv_def rk_persist_def rk_inv_def rk_core_sorted rk_validate_sorted)

lemma rk_fresh_inv: "rk_inv rk_fresh"
  by (simp add: rk_inv_def rk_core_def accounts_ok_def rk_fresh_def rk_validate_Inr)

lemma rk_open_inv: "rk_state_inv st \<Longrightarrow> rk_open st = Inr p \<Longrightarrow> rk_inv p"
  by (cases st) (auto simp: rk_open_def rk_load_def rk_state_inv_def rk_fresh_inv)

lemma rk_commit_inv:
  assumes "rk_state_inv st" "\<And>r p. m = Inr (r, Some p) \<Longrightarrow> rk_core p"
  shows "rk_state_inv (snd (rk_commit st m))"
  using assms by (auto simp: rk_commit_def intro: rk_inv_persist split: sum.splits option.splits)

text \<open>The ledger's own invariant implies the checks of \<open>_validate\<close> on the accounts.\<close>

lemma core_check_account:
  assumes "rk_core p" "e \<in> set (rk_accounts p)" shows "check_account p e = Inr ()"
proof -
  obtain k x where e: "e = (k, x)" by (cases e)
  have "account_ok (rk_reservations p) k x"
    using assms by (simp add: e rk_core_def accounts_ok_def wf_dict_def)
  moreover have "0 \<le> held holds (rk_reservations p) k" "0 \<le> held is_committed (rk_reservations p) k"
    using assms(1) by (simp_all add: rk_core_def held_nonneg)
  ultimately show ?thesis by (simp add: e check_account_Inr account_ok_def)
qed

lemma rk_core_validate:
  assumes "rk_core p" "length (rk_reservations p) \<le> MAX_RESERVATIONS"
    "length (rk_tombstones p) \<le> MAX_RESERVATIONS"
    "\<forall>e \<in> set (rk_tombstones p). check_tombstone e = Inr ()"
    "\<forall>e \<in> set (rk_reservations p). check_reservation e = Inr ()"
  shows "rk_validate p = Inr ()"
  using assms core_check_account [OF assms(1)] by (simp add: rk_validate_Inr rk_core_def accounts_ok_def)

section \<open>Every operation advances\<close>

definition spent_in :: "rk_account dict \<Rightarrow> string \<Rightarrow> int" where
  "spent_in acc k = ac_spent (dget acc k zero_account)"

text \<open>One payload follows another: the books balance and no account's spending fell.\<close>

definition advances :: "rk_payload \<Rightarrow> rk_payload \<Rightarrow> bool" where
  "advances p q \<longleftrightarrow> rk_core q \<and> (\<forall>k. spent_in (rk_accounts p) k \<le> spent_in (rk_accounts q) k)"

lemma advances_trans: "advances p q \<Longrightarrow> advances q r \<Longrightarrow> advances p r"
  unfolding advances_def by (meson order_trans)

lemma advances_refl: "rk_core p \<Longrightarrow> advances p p"
  by (simp add: advances_def)

lemma spent_in_shift:
  assumes "\<And>k. map_of acc' k = map_option (shift ds dr da (c k)) (map_of acc k)" "0 \<le> ds" "0 \<le> c k"
  shows "spent_in acc k \<le> spent_in acc' k"
  using assms by (auto simp: spent_in_def dget_def split: option.splits)

lemma rk_core_reservation:
  assumes "rk_core p" "map_of (rk_reservations p) h = Some r"
  shows "wf_dict (rk_reservations p)" "accounts_ok (rk_accounts p) (rk_reservations p)"
    "(h, r) \<in> set (rk_reservations p)" "amounts_ok r"
  using assms map_of_SomeD [OF assms(2)] by (auto simp: rk_core_def)

text \<open>Replacing a reservation by one with the same charges, and moving the charges accordingly.\<close>

lemma settle_advances:
  assumes "rk_core p" "map_of (rk_reservations p) h = Some r"
    and "adjust_accounts (shift ds dr da) (rr_charges r) (rk_accounts p) = Inr acc'"
    and rs: "rs' = AList.update h r' (rk_reservations p) \<and> rr_amounts r' = rr_amounts r \<and>
        rr_scope_keys r' = rr_scope_keys r \<and>
        (\<forall>k. part holds k r' = part holds k r + dr * entry_sum (rr_charges r) k) \<and>
        (\<forall>k. part is_committed k r' = part is_committed k r + (ds - da) * entry_sum (rr_charges r) k)
      \<or> rs' = AList.delete h (rk_reservations p) \<and>
        (\<forall>k. part holds k r = - (dr * entry_sum (rr_charges r) k)) \<and>
        (\<forall>k. part is_committed k r = - ((ds - da) * entry_sum (rr_charges r) k))"
    and "0 \<le> da" "0 \<le> ds" "ds + dr \<le> 0" "wf_dict ts"
  shows "advances p \<lparr>rk_accounts = acc', rk_reservations = rs', rk_tombstones = ts\<rparr>"
proof -
  note r = rk_core_reservation [OF assms(1,2)]
  have h: "held holds rs' k = held holds (rk_reservations p) k + dr * entry_sum (rr_charges r) k" for k
    using rs by (auto simp: held_update_old [OF r(1) assms(2)] held_delete [OF r(1) assms(2)])
  have c: "held is_committed rs' k = held is_committed (rk_reservations p) k + (ds - da) * entry_sum (rr_charges r) k" for k
    using rs by (auto simp: held_update_old [OF r(1) assms(2)] held_delete [OF r(1) assms(2)])
  have e: "\<exists>e' \<in> set (rk_reservations p). rr_charges (snd e) = rr_charges (snd e')" if "e \<in> set rs'" for e
    using rs that update_charges [OF assms(2)] delete_charges by metis
  obtain acc'' where a: "adjust_accounts (shift ds dr da) (rr_charges r) (rk_accounts p) = Inr acc''"
    "accounts_ok acc'' rs'"
    "\<forall>k. map_of acc'' k = map_option (shift ds dr da (entry_sum (rr_charges r) k)) (map_of (rk_accounts p) k)"
    using adjust_ok [OF r(2,3,4) h c assms(5,7) e] by blast
  have acc: "acc'' = acc'" using a(1) assms(3) by simp
  have "wf_dict rs'" using rs r(1) by auto
  moreover have "\<forall>e \<in> set rs'. amounts_ok (snd e)"
    using rs assms(1) r(4) unfolding rk_core_def
    by (auto simp: set_delete amounts_ok_def dest!: set_update_subset)
  moreover have "spent_in (rk_accounts p) k \<le> spent_in acc' k" for k
    using a(3) acc assms(6) charges_nonneg [OF r(4)] by (intro spent_in_shift [where c = "entry_sum (rr_charges r)"]) auto
  ultimately show ?thesis using a(2) acc assms(8) by (simp add: advances_def rk_core_def)
qed

lemma status_simps [simp]:
  "holds ''active''" "holds ''quarantined''" "\<not> holds ''committed''" "\<not> holds ''released''"
  "is_committed ''committed''" "\<not> is_committed ''active''" "\<not> is_committed ''quarantined''" "\<not> is_committed ''released''"
  by (simp_all add: holds_def is_committed_def)

lemma holds_not_committed: "holds s \<Longrightarrow> \<not> is_committed s"
  by (auto simp: holds_def is_committed_def)

lemma outcome_locked_write:
  assumes "rk_outcome_locked rh sh lh out now p = Inr (res, Some p')"
  obtains r acc where "map_of (rk_reservations p) rh = Some r" "holds (rr_status r)"
    "rr_status r = ''quarantined'' \<Longrightarrow> out \<noteq> ''released''"
    "adjust_accounts (if out = ''committed'' then shift 1 (- 1) 0 else shift 0 (- 1) 0) (rr_charges r) (rk_accounts p) = Inr acc"
    "p' = p\<lparr>rk_accounts := acc, rk_reservations := AList.update rh
       (r\<lparr>rr_status := out, rr_updated_at := now, rr_lifecycle := Some (pending_lifecycle rh out)\<rparr>) (rk_reservations p)\<rparr>"
    "res = rk_outcome_result p' rh out
       (r\<lparr>rr_status := out, rr_updated_at := now, rr_lifecycle := Some (pending_lifecycle rh out)\<rparr>)
       (pending_lifecycle rh out) False"
proof -
  obtain r where r: "map_of (rk_reservations p) rh = Some r"
    using assms by (auto simp: rk_outcome_locked_def split: option.splits)
  have "\<exists>acc. holds (rr_status r) \<and> (rr_status r = ''quarantined'' \<longrightarrow> out \<noteq> ''released'') \<and>
    adjust_accounts (if out = ''committed'' then shift 1 (- 1) 0 else shift 0 (- 1) 0) (rr_charges r) (rk_accounts p) = Inr acc \<and>
    p' = p\<lparr>rk_accounts := acc, rk_reservations := AList.update rh
       (r\<lparr>rr_status := out, rr_updated_at := now, rr_lifecycle := Some (pending_lifecycle rh out)\<rparr>) (rk_reservations p)\<rparr> \<and>
    res = rk_outcome_result p' rh out
       (r\<lparr>rr_status := out, rr_updated_at := now, rr_lifecycle := Some (pending_lifecycle rh out)\<rparr>)
       (pending_lifecycle rh out) False"
    using assms r unfolding rk_outcome_locked_def changes_as_shift(4,5) Let_def
    by (auto simp: holds_def split: if_splits option.splits)
  with r that show thesis by blast
qed

lemma outcome_advances:
  assumes "rk_core p" "out \<in> {''committed'', ''released''}"
    and "rk_outcome_locked rh sh lh out now p = Inr (res, Some p')"
  shows "advances p p'"
  using assms(3)
proof (rule outcome_locked_write)
  fix r :: rk_reservation and acc
  let ?r' = "r\<lparr>rr_status := out, rr_updated_at := now, rr_lifecycle := Some (pending_lifecycle rh out)\<rparr>"
  assume r: "map_of (rk_reservations p) rh = Some r" "holds (rr_status r)"
    and a: "adjust_accounts (if out = ''committed'' then shift 1 (- 1) 0 else shift 0 (- 1) 0) (rr_charges r) (rk_accounts p) = Inr acc"
    and p': "p' = p\<lparr>rk_accounts := acc, rk_reservations := AList.update rh ?r' (rk_reservations p)\<rparr>"
  have wf: "wf_dict (rk_tombstones p)" using assms(1) by (simp add: rk_core_def)
  have s: "part holds k r = entry_sum (rr_charges r) k" "part is_committed k r = 0"
    "part holds k ?r' = 0" "part is_committed k ?r' = (if out = ''committed'' then entry_sum (rr_charges r) k else 0)" for k
    using r(2) assms(2) by (auto simp: part_def dest: holds_not_committed)
  have "advances p \<lparr>rk_accounts = acc, rk_reservations = AList.update rh ?r' (rk_reservations p),
      rk_tombstones = rk_tombstones p\<rparr>"
  proof (cases "out = ''committed''")
    case True
    with a have "adjust_accounts (shift 1 (- 1) 0) (rr_charges r) (rk_accounts p) = Inr acc" by simp
    then show ?thesis
      by (rule settle_advances [OF assms(1) r(1), where r' = ?r']) (use s True wf in auto)
  next
    case False
    with a have "adjust_accounts (shift 0 (- 1) 0) (rr_charges r) (rk_accounts p) = Inr acc" by simp
    then show ?thesis
      by (rule settle_advances [OF assms(1) r(1), where r' = ?r']) (use s False wf in auto)
  qed
  then show ?thesis unfolding p' by (cases p) simp
qed

section \<open>Pruning\<close>

lemma prune_archive_advances:
  assumes "rk_core (pr_payload w)" "map_of (rk_reservations (pr_payload w)) h = Some r"
    and "prune_archive now h r status (shift ds dr da) w = Inr w'"
    and "\<And>k. part holds k r = - (dr * entry_sum (rr_charges r) k)"
    and "\<And>k. part is_committed k r = - ((ds - da) * entry_sum (rr_charges r) k)"
    and "0 \<le> da" "0 \<le> ds" "ds + dr \<le> 0"
  shows "advances (pr_payload w) (pr_payload w') \<and>
    rk_reservations (pr_payload w') = AList.delete h (rk_reservations (pr_payload w))"
proof -
  obtain acc ts where a: "adjust_accounts (shift ds dr da) (rr_charges r) (rk_accounts (pr_payload w)) = Inr acc"
    "pr_payload w' = \<lparr>rk_accounts = acc, rk_reservations = AList.delete h (rk_reservations (pr_payload w)),
       rk_tombstones = AList.update h ts (rk_tombstones (pr_payload w))\<rparr>"
    using assms(3) by (auto simp: prune_archive_def Let_def split: if_splits)
  have "wf_dict (rk_tombstones (pr_payload w))" using assms(1) by (simp add: rk_core_def)
  then show ?thesis
    using settle_advances [OF assms(1,2) a(1), of "AList.delete h (rk_reservations (pr_payload w))"] assms(4-8) a(2)
    by simp
qed

lemma quarantine_advances:
  assumes "rk_core p" "map_of (rk_reservations p) h = Some r" "rr_status r = ''active''"
  shows "advances p (p\<lparr>rk_reservations := AList.update h (rk_quarantine h now r) (rk_reservations p)\<rparr>)"
proof -
  note r = rk_core_reservation [OF assms(1,2)]
  have p: "part holds k (rk_quarantine h now r) = part holds k r"
    "part is_committed k (rk_quarantine h now r) = part is_committed k r" for k
    using assms(3) by (simp_all add: part_def rk_quarantine_def)
  have q: "rr_charges (rk_quarantine h now r) = rr_charges r" "amounts_ok (rk_quarantine h now r)"
    using r(4) by (simp_all add: rk_quarantine_def amounts_ok_def)
  have "accounts_ok (rk_accounts p) (AList.update h (rk_quarantine h now r) (rk_reservations p))"
    by (rule accounts_ok_same [OF r(2)])
       (use update_charges [OF assms(2) q(1)] in \<open>auto simp: held_update_old [OF r(1) assms(2)] p\<close>)
  then show ?thesis
    using assms(1) q(2) unfolding advances_def rk_core_def
    by (auto dest!: set_update_subset)
qed

lemma prune_step_advances:
  assumes "rk_core (pr_payload w)" "map_of (rk_reservations (pr_payload w)) h = Some r"
    and "prune_step now w (h, r) = Inr w'"
  shows "advances (pr_payload w) (pr_payload w') \<and>
    (\<forall>h'. h' \<noteq> h \<longrightarrow> map_of (rk_reservations (pr_payload w')) h' = map_of (rk_reservations (pr_payload w)) h')"
proof -
  have archive: "advances (pr_payload w) (pr_payload w') \<and>
    (\<forall>h'. h' \<noteq> h \<longrightarrow> map_of (rk_reservations (pr_payload w')) h' = map_of (rk_reservations (pr_payload w)) h')"
    if "prune_archive now h r status (shift ds dr da) w = Inr w'"
      "\<And>k. part holds k r = - (dr * entry_sum (rr_charges r) k)"
      "\<And>k. part is_committed k r = - ((ds - da) * entry_sum (rr_charges r) k)"
      "0 \<le> da" "0 \<le> ds" "ds + dr \<le> 0" for status ds dr da
    using prune_archive_advances [OF assms(1,2) that] by simp
  note step = assms(3) [unfolded prune_step_def Let_def fst_conv snd_conv rbind_Inr_iff require_risk_int_Inr changes_as_shift(1), unfolded changes_as_shift(2,3)]
  have same: ?thesis if "w' = w" using assms(1) that by (simp add: advances_refl)
  show ?thesis
  proof (cases "of_int (rr_expires_at r) > now")
    case True
    then show ?thesis using step same by simp
  next
    case expired: False
    consider "rr_status r = ''active''" | "rr_status r = ''quarantined''" | "rr_status r = ''committed''"
      | "rr_status r \<notin> {''active'', ''quarantined'', ''committed''}" by blast
    then show ?thesis
    proof cases
      case 1
      then show ?thesis
        using step expired quarantine_advances [OF assms(1,2)] by auto
    next
      case 2
      then show ?thesis
        using step expired same archive [of "''quarantined_committed''" 1 "- 1" 1]
        by (simp add: part_def split: if_splits)
    next
      case 3
      then show ?thesis
        using step expired same archive [of "''committed''" 0 0 1]
        by (simp add: part_def split: if_splits)
    next
      case 4
      then show ?thesis
        using step expired same archive [of "rr_status r" 0 0 0]
        by (simp add: part_def holds_def is_committed_def split: if_splits)
    qed
  qed
qed

lemma prune_steps_advance:
  assumes "foldM (prune_step now) w es = Inr w'" "rk_core (pr_payload w)" "wf_dict es"
    and "\<forall>e \<in> set es. map_of (rk_reservations (pr_payload w)) (fst e) = Some (snd e)"
  shows "advances (pr_payload w) (pr_payload w')"
  using assms
proof (induction es arbitrary: w)
  case Nil
  then show ?case by (simp add: advances_refl)
next
  case (Cons e es)
  then obtain v where v: "prune_step now w e = Inr v" "foldM (prune_step now) v es = Inr w'" by auto
  note s = prune_step_advances [OF Cons.prems(2), of "fst e" "snd e" now v]
  have a: "advances (pr_payload w) (pr_payload v)"
    and o: "\<forall>h'. h' \<noteq> fst e \<longrightarrow> map_of (rk_reservations (pr_payload v)) h' = map_of (rk_reservations (pr_payload w)) h'"
    using s v(1) Cons.prems(4) by simp_all
  have "map_of (rk_reservations (pr_payload v)) (fst d) = Some (snd d)" if "d \<in> set es" for d
  proof -
    have "fst d \<in> fst ` set es" using that by (rule imageI)
    then have "fst d \<noteq> fst e" using Cons.prems(3) by (cases e) auto
    then show ?thesis using o Cons.prems(4) that by simp
  qed
  then have "advances (pr_payload v) (pr_payload w')"
    using a Cons.prems(3) by (intro Cons.IH [OF v(2)]) (simp_all add: advances_def wf_dict_def)
  with a show ?case by (rule advances_trans)
qed

lemma prune_payload_advances:
  assumes "rk_core p" "prune_payload p now = Inr w"
  shows "advances p (pr_payload w)"
proof -
  let ?p = "p\<lparr>rk_tombstones := [e \<leftarrow> rk_tombstones p. keep_tombstone now (snd e)]\<rparr>"
  have "advances p ?p" using assms(1) by (simp add: advances_def rk_core_def)
  moreover have "advances ?p (pr_payload w)"
    using prune_steps_advance [OF assms(2) [unfolded prune_payload_def Let_def]] assms(1) calculation
    by (simp add: advances_def rk_core_def wf_dict_def)
  ultimately show ?thesis by (rule advances_trans)
qed

lemma open_pruned:
  assumes "rk_state_inv st" "rk_open_pruned st now = Inr (w, st')"
  obtains p where "rk_open st = Inr p" "rk_inv p" "prune_payload p now = Inr w" "advances p (pr_payload w)"
    "rk_state_inv st'" "st' = rk_persist (pr_payload w) \<or> st' = st"
proof -
  obtain p where p: "rk_open st = Inr p" "prune_payload p now = Inr w"
    "st' = rk_persist (pr_payload w) \<and> rk_validate (pr_payload w) = Inr () \<or> st' = st"
    using assms(2) by (auto simp: rk_open_pruned_def split: if_splits)
  have "rk_inv p" by (rule rk_open_inv [OF assms(1) p(1)])
  moreover have "advances p (pr_payload w)"
    using prune_payload_advances p(2) calculation by (simp add: rk_inv_def)
  moreover have "rk_state_inv st'"
    using p(3) assms(1) calculation(2) by (auto simp: advances_def intro: rk_inv_persist)
  ultimately show thesis using p that by blast
qed

section \<open>Reserving\<close>

definition used_in :: "rk_account dict \<Rightarrow> string \<Rightarrow> int" where
  "used_in acc k = ac_spent (dget acc k zero_account) + ac_reserved (dget acc k zero_account)"

lemma label_inj: "f @ ''.'' @ scope_name s = f' @ ''.'' @ scope_name t \<longleftrightarrow> f = f' \<and> s = t"
proof
  assume "f @ ''.'' @ scope_name s = f' @ ''.'' @ scope_name t"
  then have "rev (f @ ''.'' @ scope_name s) = rev (f' @ ''.'' @ scope_name t)" by (rule arg_cong)
  then show "f = f' \<and> s = t" by (cases s; cases t) simp_all
qed simp

lemma remaining_lookup:
  assumes "wf_dict ceilings" "(f, c) \<in> set ceilings"
  shows "dget (rk_remaining p ceilings sk) (f @ ''.'' @ scope_name s) 0 =
    max 0 (at_scope c s - used_in (rk_accounts p) (account_key f s (at_scope sk s)))"
proof -
  let ?V = "\<lambda>f c s. max 0 (at_scope c s - used_in (rk_accounts p) (account_key f s (at_scope sk s)))"
  have r: "rk_remaining p ceilings sk =
      concat (map (\<lambda>(f, c). map (\<lambda>s. (f @ ''.'' @ scope_name s, ?V f c s)) scopes) ceilings)"
    by (simp add: rk_remaining_def used_in_def Let_def)
  have "wf_dict (rk_remaining p ceilings sk)"
    unfolding r by (rule wf_per_scope [OF label_inj assms(1)])
  moreover have "(f @ ''.'' @ scope_name s, ?V f c s) \<in> set (rk_remaining p ceilings sk)"
    unfolding r set_per_scope using assms(2) by blast
  ultimately show ?thesis by (simp add: wf_dict_map_of dget_def)
qed

lemma blocking_None:
  assumes "blocking amounts remaining = None" "(f, a) \<in> set amounts"
  shows "a \<le> dget remaining (f @ ''.'' @ scope_name s) 0"
proof -
  have "(f, a, s) \<in> set (concat (map (\<lambda>(f, a). map (\<lambda>s. (f, a, s)) scopes) amounts))"
    using set_per_scope [of "(f, a, s)" "\<lambda>f _. f" "\<lambda>_ a s. (a, s)" amounts] assms(2) by blast
  then have "\<not> (case (f, a, s) of (f, a, s) \<Rightarrow> a > dget remaining (f @ ''.'' @ scope_name s) 0)"
    using assms(1) unfolding blocking_def find_None_iff by blast
  then show ?thesis by simp
qed

lemma reserve_locked_result:
  assumes "rk_reserve_locked a now p = Inr (res, w)"
  defines "h \<equiv> rk_request_hash (rka_lineage_id a) (rka_request_id a)"
    and "remaining \<equiv> rk_remaining p (rka_ceilings a) (rka_scope_keys a)"
    and "p' \<equiv> p\<lparr>rk_accounts := reserve_accounts (charges (rka_numeric_facts a) (rka_scope_keys a)) (rk_accounts p),
      rk_reservations := AList.update (rk_request_hash (rka_lineage_id a) (rka_request_id a))
        (rka_reservation a now (rka_expires_at a)) (rk_reservations p)\<rparr>"
  shows "map_of (rk_tombstones p) h = None \<and> map_of (rk_reservations p) h = None \<and>
    (rres_accepted res \<longleftrightarrow> blocking (rka_numeric_facts a) remaining = None) \<and>
    w = (if rres_accepted res then Some p' else None) \<and> rres_request_hash res = h \<and>
    rres_remaining res = (if rres_accepted res then rk_remaining p' (rka_ceilings a) (rka_scope_keys a) else remaining)"
proof -
  have t: "map_of (rk_tombstones p) h = None"
    using assms(1) unfolding rk_reserve_locked_def Let_def h_def
    by (cases "map_of (rk_tombstones p) (rk_request_hash (rka_lineage_id a) (rka_request_id a))")
       (simp_all split: if_splits)
  have r: "map_of (rk_reservations p) h = None"
    using assms(1) t unfolding rk_reserve_locked_def Let_def h_def
    by (cases "map_of (rk_reservations p) (rk_request_hash (rka_lineage_id a) (rka_request_id a))")
       (simp_all split: if_splits)
  have l: "\<not> length (rk_reservations p) \<ge> MAX_RESERVATIONS"
    using assms(1) t r unfolding rk_reserve_locked_def Let_def h_def by (simp split: if_splits)
  show ?thesis
  proof (cases "blocking (rka_numeric_facts a) remaining")
    case None
    then have "rbind (require_risk_int (JInt (rka_expires_at a)) ''expires_at'') (\<lambda>x.
        Inr (\<lparr>rres_accepted = True, rres_request_hash = h, rres_status = ''active'',
          rres_remaining = rk_remaining (p\<lparr>
             rk_accounts := reserve_accounts (charges (rka_numeric_facts a) (rka_scope_keys a)) (rk_accounts p),
             rk_reservations := AList.update h (rka_reservation a now x) (rk_reservations p)\<rparr>)
             (rka_ceilings a) (rka_scope_keys a),
          rres_blocking_fact = None, rres_blocking_scope = None\<rparr>,
          Some (p\<lparr>rk_accounts := reserve_accounts (charges (rka_numeric_facts a) (rka_scope_keys a)) (rk_accounts p),
            rk_reservations := AList.update h (rka_reservation a now x) (rk_reservations p)\<rparr>))) = Inr (res, w)"
      using assms(1) t r l unfolding rk_reserve_locked_def Let_def h_def remaining_def by simp
    then show ?thesis
      using t r None unfolding rbind_Inr_iff require_risk_int_Inr p'_def h_def by auto
  next
    case (Some x)
    then show ?thesis
      using assms(1) t r l unfolding rk_reserve_locked_def Let_def h_def remaining_def p'_def
      by (cases x) auto
  qed
qed

lemma rka_keys_ok [simp]: "keys_ok (rka_scope_keys a)"
proof -
  have "length (at_scope (rka_scope_keys a) s) = 64" for s
    by (cases s) (simp_all add: rka_scope_keys_def)
  then show ?thesis by (simp add: keys_ok_def)
qed

definition rka_ok :: "rk_reserve_args \<Rightarrow> bool" where
  "rka_ok a \<longleftrightarrow> wf_dict (rka_numeric_facts a) \<and> wf_dict (rka_ceilings a)"

text \<open>After an accepted reservation every account it touches is within its ceiling.\<close>

lemma used_in_reserve_accounts:
  assumes "wf_dict amounts" "keys_ok sk" "(f, n) \<in> set amounts"
  defines "k s \<equiv> account_key f s (at_scope sk s)"
  shows "used_in (reserve_accounts (charges amounts sk) acc) (k s) = used_in acc (k s) + n"
proof -
  have "(k s, n) \<in> set (charges amounts sk)" using assms(3) by (auto simp: in_charges k_def)
  then have "k s \<in> set (keys (charges amounts sk))" unfolding set_map by (metis fst_conv imageI)
  then have "dget (reserve_accounts (charges amounts sk) acc) (k s) zero_account =
      shift 0 1 0 n (dget acc (k s) zero_account)"
    using charge_of_amount [OF assms(1-3)] by (simp add: dget_def [of "reserve_accounts _ _"] reserve_accounts_map_of k_def)
  then show ?thesis by (simp add: used_in_def)
qed

lemma room_left:
  assumes "rka_ok a" "blocking (rka_numeric_facts a) (rk_remaining p (rka_ceilings a) (rka_scope_keys a)) = None"
    and "(f, n) \<in> set (rka_numeric_facts a)" "(f, c) \<in> set (rka_ceilings a)"
  shows "n \<le> max 0 (at_scope c s - used_in (rk_accounts p) (account_key f s (at_scope (rka_scope_keys a) s)))"
  using blocking_None [OF assms(2,3), of s] remaining_lookup [of "rka_ceilings a" f c p "rka_scope_keys a" s] assms(1,4)
  by (simp add: rka_ok_def)

lemma held_absent:
  assumes "accounts_ok acc rs" "\<not> has_key acc k" shows "held st rs k = 0"
proof -
  have "part st k (snd e) = 0" if "e \<in> set rs" for e
    using assms that unfolding accounts_ok_def part_def by (metis entry_sum_absent)
  then have "\<forall>e \<in> set rs. part st k (snd e) = 0" by blast
  then show ?thesis unfolding held_def by (induction rs) auto
qed

lemma account_or_zero:
  assumes "rk_core p" shows "account_ok (rk_reservations p) k (dget (rk_accounts p) k zero_account)"
proof (cases "map_of (rk_accounts p) k")
  case None
  moreover have "0 \<le> MAX_RISK_VALUE" by (simp add: MAX_RISK_VALUE_def)
  ultimately show ?thesis
    using held_absent [of "rk_accounts p" "rk_reservations p" k] assms
    by (simp add: account_ok_def dget_def zero_account_def rk_core_def has_key_iff)
next
  case (Some x)
  then show ?thesis using assms by (simp add: rk_core_def accounts_ok_def dget_def)
qed

lemma reservation_room:
  assumes "rk_core p" "rka_ok a"
    and "blocking (rka_numeric_facts a) (rk_remaining p (rka_ceilings a) (rka_scope_keys a)) = None"
    and "check_reservation (h, rka_reservation a now x) = Inr ()"
  shows "used_in (rk_accounts p) k + entry_sum (charges (rka_numeric_facts a) (rka_scope_keys a)) k \<le> MAX_RISK_VALUE"
proof -
  let ?es = "charges (rka_numeric_facts a) (rka_scope_keys a)"
  have old: "used_in (rk_accounts p) k \<le> MAX_RISK_VALUE"
    using account_or_zero [OF assms(1), of k] by (simp add: account_ok_def used_in_def)
  show ?thesis
  proof (cases "k \<in> set (keys ?es)")
    case False
    then show ?thesis using old by (simp add: entry_sum_absent)
  next
    case True
    then obtain e where e: "e \<in> set ?es" "k = fst e" unfolding set_map by (rule imageE)
    then obtain f s where f: "k = account_key f s (at_scope (rka_scope_keys a) s)" "(f, snd e) \<in> set (rka_numeric_facts a)"
      using in_charges by auto
    have sum: "entry_sum ?es k = snd e"
      using charge_of_amount [of "rka_numeric_facts a" "rka_scope_keys a" f "snd e" s] f assms(2) by (simp add: rka_ok_def)
    have "f \<in> set (keys (rka_ceilings a))" and ceil: "\<forall>c \<in> set (rka_ceilings a). check_ceiling c = Inr ()"
      using assms(4) f(2) unfolding check_reservation_Inr by (force simp: rka_reservation_def)+
    then obtain c where c: "(f, c) \<in> set (rka_ceilings a)" by auto
    have "at_scope c s \<le> MAX_RISK_VALUE"
      using ceil c by (auto simp: check_ceiling_def rbind_Inr_iff require_risk_int_Inr)
    then show ?thesis
      using room_left [OF assms(2,3) f(2) c, of s] old sum f(1) by auto
  qed
qed

lemma reserve_advances_checked:
  assumes "rk_core p" "rka_ok a" "rk_reserve_locked a now p = Inr (res, Some p')"
    and "check_reservation (rk_request_hash (rka_lineage_id a) (rka_request_id a),
      rka_reservation a now (rka_expires_at a)) = Inr ()"
  shows "advances p p'"
proof -
  define h where "h = rk_request_hash (rka_lineage_id a) (rka_request_id a)"
  define r where "r = rka_reservation a now (rka_expires_at a)"
  define es where "es = charges (rka_numeric_facts a) (rka_scope_keys a)"
  note w = reserve_locked_result [OF assms(3)]
  have p': "p' = p\<lparr>rk_accounts := reserve_accounts es (rk_accounts p),
      rk_reservations := AList.update h r (rk_reservations p)\<rparr>"
    and fresh: "map_of (rk_reservations p) h = None"
    and room: "blocking (rka_numeric_facts a) (rk_remaining p (rka_ceilings a) (rka_scope_keys a)) = None"
    using w by (auto simp: h_def r_def es_def split: if_splits)
  have r: "rr_charges r = es" "rr_status r = ''active''" "rr_amounts r = rka_numeric_facts a"
    by (simp_all add: r_def rka_reservation_def es_def)
  have chk: "check_reservation (h, r) = Inr ()" using assms(4) by (simp add: h_def r_def)
  then have "\<forall>e \<in> set (rka_numeric_facts a). 0 \<le> snd e"
    unfolding check_reservation_Inr by (auto simp: r check_amount_def rbind_Inr_iff require_risk_int_Inr)
  then have ok: "amounts_ok r" using assms(2) by (simp add: amounts_ok_def r rka_ok_def)
  have held: "held holds (AList.update h r (rk_reservations p)) k = held holds (rk_reservations p) k + entry_sum es k"
    "held is_committed (AList.update h r (rk_reservations p)) k = held is_committed (rk_reservations p) k" for k
    by (simp_all add: held_update_new [OF fresh] part_def r(1,2))
  have "account_ok (AList.update h r (rk_reservations p)) k (shift 0 1 0 (entry_sum es k) (dget (rk_accounts p) k zero_account))" for k
    using account_or_zero [OF assms(1), of k] reservation_room [OF assms(1,2) room chk [unfolded r_def], of k]
    by (simp add: account_ok_def held used_in_def es_def)
  then have "accounts_ok (rk_accounts p') (rk_reservations p')"
    using assms(1) unfolding accounts_ok_def rk_core_def p'
    by (auto simp: wf_reserve_accounts reserve_accounts_map_of has_key_iff r(1) intro: rev_image_eqI
        split: if_splits dest!: set_update_subset)
  moreover have "spent_in (rk_accounts p) k \<le> spent_in (rk_accounts p') k" for k
    by (auto simp: p' spent_in_def dget_def reserve_accounts_map_of has_key_iff split: option.splits)
  ultimately show ?thesis
    using assms(1) ok unfolding advances_def rk_core_def p' by (auto dest!: set_update_subset)
qed

lemma reserve_advances:
  assumes "rk_core p" "rka_ok a" "rk_reserve_locked a now p = Inr (res, Some p')" "rk_validate p' = Inr ()"
  shows "advances p p'"
proof -
  let ?h = "rk_request_hash (rka_lineage_id a) (rka_request_id a)"
  have "map_of (rk_reservations p') ?h = Some (rka_reservation a now (rka_expires_at a))"
    using reserve_locked_result [OF assms(3)] by (auto split: if_splits)
  then have "check_reservation (?h, rka_reservation a now (rka_expires_at a)) = Inr ()"
    using assms(4) map_of_SomeD by (fastforce simp: rk_validate_Inr)
  then show ?thesis by (rule reserve_advances_checked [OF assms(1-3)])
qed

section \<open>Lifecycle records\<close>

lemma deliver_advances:
  assumes "rk_core p" "rk_deliver_locked rh sh lh i rid p = Inr (u, Some p')"
  shows "advances p p'"
proof (cases "map_of (rk_reservations p) rh")
  case None
  then obtain t l where "p' = p\<lparr>rk_tombstones := AList.update rh (t\<lparr>rt_lifecycle := Some l\<rparr>) (rk_tombstones p)\<rparr>"
    using assms(2) by (auto simp: rk_deliver_locked_def split: option.splits)
  then show ?thesis using assms(1) by (simp add: advances_def rk_core_def)
next
  case (Some r)
  then obtain l where p': "p' = p\<lparr>rk_reservations := AList.update rh (r\<lparr>rr_lifecycle := Some l\<rparr>) (rk_reservations p)\<rparr>"
    using assms(2) by (auto simp: rk_deliver_locked_def split: option.splits)
  note r = rk_core_reservation [OF assms(1) Some]
  have "accounts_ok (rk_accounts p) (AList.update rh (r\<lparr>rr_lifecycle := Some l\<rparr>) (rk_reservations p))"
    by (rule accounts_ok_same [OF r(2)])
       (use update_charges [OF Some, of "r\<lparr>rr_lifecycle := Some l\<rparr>"] in
         \<open>auto simp: held_update_old [OF r(1) Some] part_def\<close>)
  then show ?thesis
    using assms(1) r(4) unfolding advances_def rk_core_def p'
    by (auto simp: amounts_ok_def dest!: set_update_subset)
qed

lemma stale_advances:
  assumes "rk_core p" "rk_stale_locked sh lh before now p = Inr (u, Some p')"
  shows "advances p p'"
proof -
  define q where "q = (\<lambda>h r. if is_stale sh lh before r then rk_quarantine h now r else r)"
  have p': "p' = p\<lparr>rk_reservations := map (\<lambda>(h, r). (h, q h r)) (rk_reservations p)\<rparr>"
    using assms(2) unfolding rk_stale_locked_def Let_def sum.inject prod.inject
    by (elim conjE) (simp add: q_def split: if_split_asm)
  have q: "rr_charges (q h r) = rr_charges r" "amounts_ok (q h r) \<longleftrightarrow> amounts_ok r"
    "part holds k (q h r) = part holds k r" "part is_committed k (q h r) = part is_committed k r" for h r k
    by (simp_all add: q_def rk_quarantine_def amounts_ok_def part_def is_stale_def)
  have h: "held holds (map (\<lambda>(h, r). (h, q h r)) rs) k = held holds rs k" for rs k
    unfolding held_def by (induction rs) (auto simp: q)
  have c: "held is_committed (map (\<lambda>(h, r). (h, q h r)) rs) k = held is_committed rs k" for rs k
    unfolding held_def by (induction rs) (auto simp: q)
  have ok: "account_ok (map (\<lambda>(h, r). (h, q h r)) rs) k x \<longleftrightarrow> account_ok rs k x" for rs k x
    by (simp only: account_ok_def h c)
  have "accounts_ok (rk_accounts p) (map (\<lambda>(h, r). (h, q h r)) (rk_reservations p))"
    using assms(1) unfolding rk_core_def accounts_ok_def ok by (simp add: case_prod_beta q)
  then show ?thesis
    using assms(1) unfolding advances_def rk_core_def p' by (simp add: q case_prod_beta)
qed

section \<open>The ledger keeps its contracts\<close>

definition spent_of :: "rk_state \<Rightarrow> string \<Rightarrow> int" where
  "spent_of st k = (case st of Stored p \<Rightarrow> spent_in (rk_accounts p) k | _ \<Rightarrow> 0)"

definition state_advances :: "rk_state \<Rightarrow> rk_state \<Rightarrow> bool" where
  "state_advances st st' \<longleftrightarrow> rk_state_inv st' \<and> (\<forall>k. spent_of st k \<le> spent_of st' k)"

lemma open_spent: "rk_open st = Inr p \<Longrightarrow> spent_of st k = spent_in (rk_accounts p) k"
  by (cases st) (auto simp: rk_open_def rk_load_def rk_fresh_def spent_of_def spent_in_def dget_def zero_account_def)

lemma persist_spent: "rk_core p \<Longrightarrow> spent_of (rk_persist p) k = spent_in (rk_accounts p) k"
  by (simp add: spent_of_def rk_persist_def rk_sorted_def spent_in_def dget_def rk_core_def accounts_ok_def)

lemma persist_advances:
  assumes "rk_open st = Inr p" "advances p p'" "rk_validate p' = Inr ()"
  shows "state_advances st (rk_persist p')"
  using assms by (simp add: state_advances_def advances_def rk_inv_persist open_spent persist_spent)

lemma commit_advances:
  assumes "rk_state_inv st"
    and "\<And>r p'. m = Inr (r, Some p') \<Longrightarrow> rk_validate p' = Inr () \<Longrightarrow> \<exists>p. rk_open st = Inr p \<and> advances p p'"
  shows "state_advances st (snd (rk_commit st m))"
proof (cases "\<exists>r p'. m = Inr (r, Some p') \<and> rk_validate p' = Inr ()")
  case True
  then obtain r p' where m: "m = Inr (r, Some p')" "rk_validate p' = Inr ()" by blast
  then show ?thesis using assms(2) [OF m] by (auto simp: rk_commit_def intro: persist_advances)
next
  case False
  then have "snd (rk_commit st m) = st"
    by (auto simp: rk_commit_def split: sum.splits option.splits)
  then show ?thesis using assms(1) by (simp add: state_advances_def)
qed

lemma state_advances_trans: "state_advances a b \<Longrightarrow> state_advances b c \<Longrightarrow> state_advances a c"
  unfolding state_advances_def by (meson order_trans)

lemma open_pruned_advances:
  assumes "rk_state_inv st" "rk_open_pruned st now = Inr (w, st')"
  shows "state_advances st st'" "rk_core (pr_payload w)" "\<exists>p. rk_open st' = Inr p \<and> advances p (pr_payload w)"
proof -
  obtain p where p: "rk_open st = Inr p" "rk_inv p" "advances p (pr_payload w)"
    "st' = st \<or> st' = rk_persist (pr_payload w) \<and> rk_validate (pr_payload w) = Inr ()"
    using assms prune_payload_advances rk_open_inv [OF assms(1)]
    by (auto simp: rk_open_pruned_def rk_inv_def split: if_splits)
  show core: "rk_core (pr_payload w)" using p(3) by (simp add: advances_def)
  show "state_advances st st'"
    using p assms(1) persist_advances by (auto simp: state_advances_def)
  show "\<exists>p. rk_open st' = Inr p \<and> advances p (pr_payload w)"
    using p(4)
  proof
    assume "st' = st" then show ?thesis using p by blast
  next
    assume st': "st' = rk_persist (pr_payload w) \<and> rk_validate (pr_payload w) = Inr ()"
    then have "rk_validate (rk_sorted (pr_payload w)) = Inr ()" using rk_validate_sorted by blast
    with st' have "rk_open st' = Inr (rk_sorted (pr_payload w))"
      by (simp add: rk_open_def rk_load_def rk_persist_def)
    moreover have "spent_in (rk_accounts (rk_sorted (pr_payload w))) k = spent_in (rk_accounts (pr_payload w)) k" for k
      using persist_spent [OF core, of k] by (simp add: spent_of_def rk_persist_def)
    ultimately show ?thesis using core by (simp add: advances_def)
  qed
qed

lemma reserve_state_advances:
  assumes "rk_state_inv st" "rka_ok a" shows "state_advances st (snd (rk_reserve a now st))"
proof (cases "rbind (rk_reserve_checks a) (\<lambda>_. rk_open_pruned st now)")
  case (Inl e)
  then show ?thesis using assms(1) by (simp add: rk_reserve_def state_advances_def)
next
  case (Inr ws)
  obtain w st' where ws: "ws = (w, st')" by fastforce
  have o: "rk_open_pruned st now = Inr (w, st')" using Inr ws by auto
  note op = open_pruned_advances [OF assms(1) o]
  have "state_advances st' (snd (rk_commit st' (rk_reserve_locked a now (pr_payload w))))"
  proof (rule commit_advances)
    show "rk_state_inv st'" using op(1) by (simp add: state_advances_def)
    show "\<exists>p. rk_open st' = Inr p \<and> advances p p'"
      if "rk_reserve_locked a now (pr_payload w) = Inr (r, Some p')" "rk_validate p' = Inr ()" for r p'
      using op(3) reserve_advances [OF op(2) assms(2) that] advances_trans by blast
  qed
  then show ?thesis
    using op(1) state_advances_trans Inr ws by (simp add: rk_reserve_def)
qed

definition rk_op_ok :: "rk_op \<Rightarrow> bool" where
  "rk_op_ok opn = (case opn of RkReserve a _ \<Rightarrow> rka_ok a | _ \<Rightarrow> True)"

lemma exec_advances:
  assumes "rk_state_inv st" "rk_op_ok opn"
  shows "state_advances st (snd (rk_exec opn st))"
proof (cases opn)
  case (RkReserve a now)
  then show ?thesis using assms reserve_state_advances by (simp add: rk_exec_def rk_op_ok_def)
next
  case (RkOutcome l s r out now)
  have "state_advances st (snd (rk_record_outcome l s r out now st))"
    unfolding rk_record_outcome_def
  proof (rule commit_advances [OF assms(1)], elim rbind_InrE)
    fix res p' u rid sid lid p
    assume "ensure (out \<in> {''committed'', ''released''}) (RiskBudgetError ''risk outcome must be committed or released'') = Inr u"
      and o: "rk_open st = Inr p"
      and x: "rk_outcome_locked (rk_request_hash l rid) (sha256_hex sid) (sha256_hex lid) out now p = Inr (res, Some p')"
    then have out: "out \<in> {''committed'', ''released''}" by simp
    have "rk_core p" using rk_open_inv [OF assms(1) o] by (simp add: rk_inv_def)
    then show "\<exists>p. rk_open st = Inr p \<and> advances p p'" using o outcome_advances [OF _ out x] by blast
  qed
  then show ?thesis by (simp add: RkOutcome rk_exec_def)
next
  case (RkDeliver l s h i rid)
  have "state_advances st (snd (rk_mark_lifecycle_delivered l s h i rid st))"
    unfolding rk_mark_lifecycle_delivered_def
    by (rule commit_advances [OF assms(1)], elim rbind_InrE)
       (use rk_open_inv [OF assms(1)] deliver_advances in \<open>auto simp: rk_inv_def\<close>)
  then show ?thesis by (simp add: RkDeliver rk_exec_def)
next
  case (RkQuarantineStale l s before now)
  have "state_advances st (snd (rk_quarantine_stale l s before now st))"
    unfolding rk_quarantine_stale_def
    by (rule commit_advances [OF assms(1)], elim rbind_InrE)
       (use rk_open_inv [OF assms(1)] stale_advances in \<open>auto simp: rk_inv_def\<close>)
  then show ?thesis by (simp add: RkQuarantineStale rk_exec_def)
next
  case (RkPrune now)
  have "state_advances st (snd (rk_prune_expired now st))"
    using open_pruned_advances(1) [OF assms(1)] assms(1)
    by (auto simp: rk_prune_expired_def state_advances_def split: sum.splits)
  then show ?thesis by (simp add: RkPrune rk_exec_def)
qed

interpretation risk: monotone_ledger rk_exec rk_op_ok rk_state_inv Absent spent_of
  by unfold_locales (use exec_advances in \<open>auto simp: state_advances_def rk_state_inv_def [of Absent]\<close>)

end
