(* ===== verification/Risk_Histories.thy ===== *)
theory Risk_Histories
  imports Risk_Accounting
begin

text \<open>
  What holds of every operation of the risk ledger beyond the balance of the books: no operation raises an
  error that the bookkeeping itself would be the cause of; pruning leaves what every account has in
  use as it was and makes no new records; a request that was not reserved stays unknown.
\<close>

section \<open>Errors of the bookkeeping\<close>

text \<open>The errors that say the accounts do not agree with the reservations: the checks of \<open>_validate\<close> on the accounts,
  and a missing account (a \<open>KeyError\<close>).\<close>

definition accounting_error :: "risk_error \<Rightarrow> bool" where
  "accounting_error e \<longleftrightarrow>
    (case e of
       RiskKeyError _ \<Rightarrow> True
     | RiskBudgetError m \<Rightarrow>
         m \<in> {''risk ledger reserved invariant failed'', ''risk ledger spent invariant failed'',
               ''risk ledger references a missing account''}
     | _ \<Rightarrow> False)"

definition books_sound :: "risk_error + 'a \<Rightarrow> bool" where
  "books_sound m \<longleftrightarrow> (\<forall>e. m = Inl e \<longrightarrow> \<not> accounting_error e)"

lemma books_sound_simps [simp]:
  "books_sound (Inr x)" "books_sound (Inl e) \<longleftrightarrow> \<not> accounting_error e"
  by (simp_all add: books_sound_def)

lemma books_sound_rbind [intro]:
  "books_sound m \<Longrightarrow> (\<And>x. m = Inr x \<Longrightarrow> books_sound (f x)) \<Longrightarrow> books_sound (rbind m f)"
  by (cases m) auto

lemma books_sound_ensure [intro]: "(\<not> b \<Longrightarrow> \<not> accounting_error e) \<Longrightarrow> books_sound (ensure b e)"
  by (cases b) (simp_all add: ensure_def)

lemma books_sound_checkM [intro]: "(\<And>x. x \<in> set xs \<Longrightarrow> books_sound (f x)) \<Longrightarrow> books_sound (checkM f xs)"
  by (induction xs) auto

lemma message_end:
  "(label @ '' must be between 0 and MAX_RISK_VALUE'') \<noteq> ''risk ledger reserved invariant failed''"
  "(label @ '' must be between 0 and MAX_RISK_VALUE'') \<noteq> ''risk ledger spent invariant failed''"
  "(label @ '' must be between 0 and MAX_RISK_VALUE'') \<noteq> ''risk ledger references a missing account''"
  "(label @ '' must be a non-empty string'') \<noteq> ''risk ledger reserved invariant failed''"
  "(label @ '' must be a non-empty string'') \<noteq> ''risk ledger spent invariant failed''"
  "(label @ '' must be a non-empty string'') \<noteq> ''risk ledger references a missing account''"
  "(label @ '' exceeds the byte limit'') \<noteq> ''risk ledger reserved invariant failed''"
  "(label @ '' exceeds the byte limit'') \<noteq> ''risk ledger spent invariant failed''"
  "(label @ '' exceeds the byte limit'') \<noteq> ''risk ledger references a missing account''"
  unfolding rev_is_rev_conv [symmetric, of "label @ _"] by simp_all

lemma books_sound_require [intro, simp]:
  "books_sound (require_risk_int (JInt n) label)" "books_sound (require_string (JStr s) label limit)"
  "books_sound (require_string JNull label limit)"
  by (simp_all add: require_risk_int_def require_string_def accounting_error_def message_end)

lemma books_sound_lifecycle [intro, simp]: "books_sound (check_lifecycle lf)"
proof (cases lf)
  case (Some l)
  have "books_sound (require_string (case lf_receipt_id l of None \<Rightarrow> JNull | Some r \<Rightarrow> JStr r) label limit)" for label limit
    by (cases "lf_receipt_id l") simp_all
  then have "books_sound (if b then rbind (require_string (case lf_receipt_id l of None \<Rightarrow> JNull | Some r \<Rightarrow> JStr r) label limit)
      (\<lambda>_. Inr ()) else Inr ())" for b label limit
    by (simp add: books_sound_rbind)
  then show ?thesis
    unfolding check_lifecycle_def Some option.case
    by (intro books_sound_rbind books_sound_ensure) (simp_all add: accounting_error_def)
qed (simp add: check_lifecycle_def accounting_error_def)

lemma books_sound_tombstone [intro, simp]: "books_sound (check_tombstone e)"
  unfolding check_tombstone_def Let_def
  by (intro books_sound_rbind books_sound_ensure books_sound_require books_sound_lifecycle)
     (simp_all add: accounting_error_def)

lemma books_sound_reservation [intro, simp]: "books_sound (check_reservation e)"
  unfolding check_reservation_def check_ceiling_def check_amount_def Let_def
  by (intro books_sound_rbind books_sound_ensure books_sound_checkM books_sound_require)
     (auto simp: accounting_error_def)

text \<open>A payload whose books balance once its reservations are well-formed is never turned down for its accounts.\<close>

lemma books_sound_validate:
  assumes "(\<And>e. e \<in> set (rk_reservations p) \<Longrightarrow> check_reservation e = Inr ()) \<Longrightarrow> rk_core p"
  shows "books_sound (rk_validate p)"
proof -
  have tail: "books_sound (rbind (checkM (check_account p) (rk_accounts p)) (\<lambda>_.
      ensure (list_all (has_key (rk_accounts p)) (keys (retained holds p) @ keys (retained is_committed p)))
        (RiskBudgetError ''risk ledger references a missing account'')))"
    if "checkM check_reservation (rk_reservations p) = Inr u" for u
  proof -
    have core: "rk_core p" using assms that by (simp add: checkM_Inr_iff)
    then have "list_all (has_key (rk_accounts p)) (keys (retained holds p) @ keys (retained is_committed p))"
      unfolding list_all_iff set_append Ball_def Un_iff keys_retained rk_core_def accounts_ok_def by blast
    then show ?thesis
      by (intro books_sound_rbind books_sound_ensure books_sound_checkM) (simp_all add: core_check_account [OF core])
  qed
  show ?thesis
    unfolding rk_validate_def
    by (intro books_sound_rbind books_sound_ensure tail) (auto simp: accounting_error_def)
qed

lemma books_sound_open:
  assumes "rk_state_inv st" shows "books_sound (rk_open st)"
proof (cases st)
  case (Stored p)
  then show ?thesis using assms by (simp add: rk_open_def rk_load_def rk_state_inv_def rk_inv_def)
qed (use rk_fresh_inv in \<open>simp_all add: rk_open_def rk_load_def rk_inv_def accounting_error_def\<close>)

lemma books_sound_commit:
  assumes "books_sound m"
    and "\<And>r p e. m = Inr (r, Some p) \<Longrightarrow> (\<And>e. e \<in> set (rk_reservations p) \<Longrightarrow> check_reservation e = Inr ()) \<Longrightarrow> rk_core p"
  shows "books_sound (fst (rk_commit st m))"
proof -
  have "books_sound (rk_validate p)" if "m = Inr (r, Some p)" for r p
    using assms(2) [OF that] by (rule books_sound_validate)
  then show ?thesis
    using assms(1) by (auto simp: rk_commit_def books_sound_def split: sum.splits option.splits)
qed

lemma adjust_reservation:
  assumes "rk_core p" "map_of (rk_reservations p) h = Some r"
  shows "\<exists>acc. adjust_accounts (shift ds dr da) (rr_charges r) (rk_accounts p) = Inr acc \<and>
    (\<forall>k. map_of acc k = map_option (shift ds dr da (entry_sum (rr_charges r) k)) (map_of (rk_accounts p) k))"
proof -
  have "\<forall>k \<in> set (keys (rr_charges r)). has_key (rk_accounts p) k"
    using rk_core_reservation(2,3) [OF assms] unfolding accounts_ok_def by (metis snd_conv)
  from adjust_shift [OF this] show ?thesis by blast
qed

section \<open>Pruning\<close>

text \<open>What one step of pruning makes of a payload.\<close>

definition prunes :: "rk_payload \<Rightarrow> rk_payload \<Rightarrow> bool" where
  "prunes p q \<longleftrightarrow>
    (\<forall>k. used_in (rk_accounts q) k = used_in (rk_accounts p) k) \<and>
    set (keys (rk_reservations q)) \<subseteq> set (keys (rk_reservations p)) \<and>
    set (keys (rk_tombstones q)) \<subseteq> set (keys (rk_tombstones p)) \<union> set (keys (rk_reservations p)) \<and>
    length (rk_reservations q) \<le> length (rk_reservations p)"

definition prune_follows :: "rk_prune_state \<Rightarrow> rk_prune_state \<Rightarrow> bool" where
  "prune_follows w w' \<longleftrightarrow> prunes (pr_payload w) (pr_payload w') \<and>
    pr_pruned w \<le> pr_pruned w' \<and> pr_quarantined w \<le> pr_quarantined w' \<and>
    (pr_pruned w' = pr_pruned w \<longrightarrow> pr_quarantined w' = pr_quarantined w \<longrightarrow> pr_payload w' = pr_payload w)"

lemma prunes_refl [simp]: "prunes p p"
  by (simp add: prunes_def)

lemma prune_follows_refl [simp]: "prune_follows w w"
  by (simp add: prune_follows_def)

lemma prunes_trans: "prunes p q \<Longrightarrow> prunes q r \<Longrightarrow> prunes p r"
  unfolding prunes_def by (simp only:) (blast intro: order_trans)

lemma prune_follows_trans: "prune_follows u v \<Longrightarrow> prune_follows v w \<Longrightarrow> prune_follows u w"
  unfolding prune_follows_def using prunes_trans by (metis order_trans le_antisym)

lemma used_in_shift:
  assumes "map_of acc' k = map_option (shift ds dr da c) (map_of acc k)" "ds + dr = 0"
  shows "used_in acc' k = used_in acc k"
proof -
  have "ds * c + dr * c = 0" using assms(2) by (simp add: distrib_right [symmetric])
  then show ?thesis using assms(1) by (cases "map_of acc k") (simp_all add: used_in_def dget_def)
qed

lemma length_update_old: "map_of d k = Some w \<Longrightarrow> length (AList.update k v d) = length d"
  by (induction d) (auto split: if_splits)

lemma set_keys_update: "set (keys (AList.update k v d)) = insert k (set (keys d))"
  by (induction d) auto

lemma set_keys_delete: "set (keys (AList.delete k d)) = set (keys d) - {k}"
  by (induction d) auto

lemma prune_archive_follows:
  assumes "rk_core (pr_payload w)" "map_of (rk_reservations (pr_payload w)) h = Some r" "ds + dr = 0"
  shows "books_sound (prune_archive now h r status (shift ds dr da) w)"
    and "prune_archive now h r status (shift ds dr da) w = Inr w' \<Longrightarrow> prune_follows w w'"
proof -
  let ?p = "pr_payload w"
  obtain acc where acc: "adjust_accounts (shift ds dr da) (rr_charges r) (rk_accounts ?p) = Inr acc"
    "\<forall>k. map_of acc k = map_option (shift ds dr da (entry_sum (rr_charges r) k)) (map_of (rk_accounts ?p) k)"
    using adjust_reservation [OF assms(1,2)] by blast
  show "books_sound (prune_archive now h r status (shift ds dr da) w)"
    by (simp add: prune_archive_def Let_def acc(1) accounting_error_def)
  assume "prune_archive now h r status (shift ds dr da) w = Inr w'"
  then obtain t where w': "w' = w\<lparr>pr_payload := \<lparr>rk_accounts = acc, rk_reservations = AList.delete h (rk_reservations ?p),
      rk_tombstones = AList.update h t (rk_tombstones ?p)\<rparr>, pr_pruned := pr_pruned w + 1\<rparr>"
    by (auto simp: prune_archive_def Let_def acc(1) split: if_splits)
  have "h \<in> set (keys (rk_reservations ?p))" using map_of_SomeD [OF assms(2)] by force
  moreover have "used_in acc k = used_in (rk_accounts ?p) k" for k
    by (rule used_in_shift [OF spec [OF acc(2)] assms(3)])
  ultimately have "prunes ?p (pr_payload w')"
    by (auto simp: prunes_def w' set_keys_update set_keys_delete length_delete_le simp del: set_map)
  then show "prune_follows w w'" by (simp add: prune_follows_def w')
qed

lemma prune_step_follows:
  assumes "rk_core (pr_payload w)" "map_of (rk_reservations (pr_payload w)) h = Some r"
  shows "books_sound (prune_step now w (h, r)) \<and> (\<forall>w'. prune_step now w (h, r) = Inr w' \<longrightarrow> prune_follows w w')"
proof -
  let ?step = "\<lambda>m. books_sound m \<and> (\<forall>w'. m = Inr w' \<longrightarrow> prune_follows w w')"
  have archive: "?step (prune_archive now h r status (shift ds dr da) w)" if "ds + dr = 0" for status ds dr da
    using prune_archive_follows [OF assms that] by blast
  have quarantine: "?step (Inr (w\<lparr>pr_payload := (pr_payload w)\<lparr>rk_reservations :=
      AList.update h (rk_quarantine h now r) (rk_reservations (pr_payload w))\<rparr>, pr_quarantined := pr_quarantined w + 1\<rparr>))"
    using map_of_SomeD [OF assms(2)]
    by (auto simp: prune_follows_def prunes_def set_keys_update length_update_old [OF assms(2)] simp del: set_map)
      (force simp: set_map)
  have step: "?step (if of_int e > now then Inr w
     else if rr_status r = ''active'' then
       Inr (w\<lparr>pr_payload := (pr_payload w)\<lparr>rk_reservations :=
              AList.update h (rk_quarantine h now r) (rk_reservations (pr_payload w))\<rparr>,
            pr_quarantined := pr_quarantined w + 1\<rparr>)
     else if rr_status r = ''quarantined'' then
       if now < rr_updated_at r + QUARANTINE_RETENTION_S then Inr w
       else prune_archive now h r ''quarantined_committed'' (shift 1 (- 1) 1) w
     else if rr_status r \<in> {''committed'', ''released''} \<and> undelivered (rr_lifecycle r) then Inr w
     else prune_archive now h r (rr_status r) (if rr_status r = ''committed'' then shift 0 0 1 else shift 0 0 0) w)" for e
    using archive [of 1 "- 1"] archive [of 0 0] quarantine by simp
  have "prune_step now w (h, r) = rbind (require_risk_int (JInt (rr_expires_at r)) ''risk ledger expires_at'') f \<Longrightarrow>
      (\<And>x. ?step (f x)) \<Longrightarrow> ?step (prune_step now w (h, r))" for f
    by (auto intro: books_sound_rbind)
  then show ?thesis
    using step [unfolded changes_as_shift(1-3) [symmetric]] unfolding prune_step_def Let_def fst_conv snd_conv by blast
qed

lemma prune_steps_follow:
  assumes "rk_core (pr_payload w)" "wf_dict es"
    and "\<forall>e \<in> set es. map_of (rk_reservations (pr_payload w)) (fst e) = Some (snd e)"
  shows "books_sound (foldM (prune_step now) w es) \<and>
    (\<forall>w'. foldM (prune_step now) w es = Inr w' \<longrightarrow> prune_follows w w')"
  using assms
proof (induction es arbitrary: w)
  case (Cons e es)
  have e: "map_of (rk_reservations (pr_payload w)) (fst e) = Some (snd e)" using Cons.prems(3) by simp
  note s = prune_step_follows [OF Cons.prems(1) e, of now]
  show ?case
  proof (cases "prune_step now w e")
    case (Inr v)
    have a: "advances (pr_payload w) (pr_payload v)"
      "\<forall>h'. h' \<noteq> fst e \<longrightarrow> map_of (rk_reservations (pr_payload v)) h' = map_of (rk_reservations (pr_payload w)) h'"
      using prune_step_advances [OF Cons.prems(1) e, of now v] Inr by simp_all
    have "fst d \<noteq> fst e" if "d \<in> set es" for d
      using imageI [OF that, of fst] Cons.prems(2) by (cases e) auto
    then have "\<forall>d \<in> set es. map_of (rk_reservations (pr_payload v)) (fst d) = Some (snd d)"
      using a(2) Cons.prems(3) by simp
    moreover have "rk_core (pr_payload v)" "wf_dict es"
      using a(1) Cons.prems(2) by (simp_all add: advances_def wf_dict_def)
    moreover have "prune_follows w v" using s Inr by simp
    ultimately show ?thesis using Cons.IH [of v] Inr prune_follows_trans by auto
  qed (use s in simp)
qed simp

lemma prune_payload_follows:
  assumes "rk_core p"
  shows "books_sound (prune_payload p now)"
    and "prune_payload p now = Inr w \<Longrightarrow> prunes p (pr_payload w)"
    and "prune_payload p now = Inr w \<Longrightarrow> pr_pruned w = 0 \<Longrightarrow> pr_quarantined w = 0 \<Longrightarrow> pr_payload w = p"
proof -
  let ?kept = "[e \<leftarrow> rk_tombstones p. keep_tombstone now (snd e)]"
  let ?w = "\<lparr>pr_payload = p\<lparr>rk_tombstones := ?kept\<rparr>, pr_pruned = length (rk_tombstones p) - length ?kept, pr_quarantined = 0\<rparr>"
  have core: "rk_core (pr_payload ?w)" using assms by (simp add: rk_core_def)
  have "books_sound (foldM (prune_step now) ?w (rk_reservations p)) \<and>
      (\<forall>w'. foldM (prune_step now) ?w (rk_reservations p) = Inr w' \<longrightarrow> prune_follows ?w w')"
    by (rule prune_steps_follow [OF core]) (use assms in \<open>simp_all add: rk_core_def wf_dict_def\<close>)
  then have f: "books_sound (prune_payload p now)" "prune_payload p now = Inr w \<Longrightarrow> prune_follows ?w w"
    by (simp_all only: prune_payload_def Let_def)
  show "books_sound (prune_payload p now)" by (rule f(1))
  assume w: "prune_payload p now = Inr w"
  have "prunes p (pr_payload ?w)" by (auto simp: prunes_def)
  then show "prunes p (pr_payload w)" using f(2) [OF w] prunes_trans by (auto simp: prune_follows_def)
  assume "pr_pruned w = 0" "pr_quarantined w = 0"
  then have "pr_payload w = p\<lparr>rk_tombstones := ?kept\<rparr>" "length (rk_tombstones p) \<le> length ?kept"
    using f(2) [OF w] by (auto simp: prune_follows_def)
  moreover from this(2) have "?kept = rk_tombstones p"
    using length_filter_less [of _ "rk_tombstones p" "\<lambda>e. keep_tombstone now (snd e)"] by (metis filter_id_conv not_le)
  ultimately show "pr_payload w = p" by simp
qed

text \<open>What an operation that prunes first goes on with.\<close>

lemma open_pruned_follows:
  assumes "rk_state_inv st" "rk_open st = Inr p" "rk_open_pruned st now = Inr (w, st')"
  shows "prunes p (pr_payload w)" "rk_inv (pr_payload w)" "st' = st \<or> st' = rk_persist (pr_payload w)"
proof -
  have inv: "rk_inv p" by (rule rk_open_inv [OF assms(1,2)])
  then have core: "rk_core p" by (simp add: rk_inv_def)
  have w: "prune_payload p now = Inr w"
    using assms(2,3) by (auto simp: rk_open_pruned_def split: if_splits)
  show "prunes p (pr_payload w)" by (rule prune_payload_follows(2) [OF core w])
  show "st' = st \<or> st' = rk_persist (pr_payload w)"
    using assms(2,3) w by (auto simp: rk_open_pruned_def split: if_splits)
  show "rk_inv (pr_payload w)"
  proof (cases "pr_pruned w \<noteq> 0 \<or> pr_quarantined w \<noteq> 0")
    case True
    then have "rk_validate (pr_payload w) = Inr ()"
      using assms(2,3) w by (auto simp: rk_open_pruned_def)
    then show ?thesis using prune_payload_advances [OF core w] by (simp add: rk_inv_def advances_def)
  next
    case False
    then show ?thesis using prune_payload_follows(3) [OF core w] inv by simp
  qed
qed

lemma books_sound_open_pruned:
  assumes "rk_state_inv st" shows "books_sound (rk_open_pruned st now)"
proof -
  have "books_sound (prune_payload p now)" and
      "prune_payload p now = Inr w \<Longrightarrow> books_sound (rk_validate (pr_payload w))" if "rk_open st = Inr p" for p w
    using rk_open_inv [OF assms that] prune_payload_follows(1) prune_payload_advances
    by (auto simp: rk_inv_def advances_def intro: books_sound_validate)
  then show ?thesis
    unfolding rk_open_pruned_def using books_sound_open [OF assms] by (auto intro!: books_sound_rbind)
qed

section \<open>No operation raises an accounting error\<close>

lemma books_sound_reserve:
  assumes "rk_state_inv st" "rka_ok a"
  shows "books_sound (fst (rk_reserve a now st))"
proof (cases "rbind (rk_reserve_checks a) (\<lambda>_. rk_open_pruned st now)")
  case (Inl e)
  have "books_sound (rk_reserve_checks a)"
    unfolding rk_reserve_checks_def
    by (intro books_sound_rbind books_sound_ensure books_sound_checkM) (auto simp: accounting_error_def)
  then have "books_sound (rbind (rk_reserve_checks a) (\<lambda>_. rk_open_pruned st now))"
    using books_sound_open_pruned [OF assms(1)] by blast
  then show ?thesis using Inl by (simp add: rk_reserve_def)
next
  case (Inr ws)
  obtain w st' where ws: "ws = (w, st')" by fastforce
  have core: "rk_core (pr_payload w)" using open_pruned_advances(2) [OF assms(1)] Inr ws by auto
  have locked: "books_sound (rk_reserve_locked a now p)" for p
    unfolding rk_reserve_locked_def Let_def
    by (auto simp: accounting_error_def split: option.split intro!: books_sound_rbind)
  have "books_sound (fst (rk_commit st' (rk_reserve_locked a now (pr_payload w))))"
  proof (rule books_sound_commit [OF locked])
    fix res p'
    assume l: "rk_reserve_locked a now (pr_payload w) = Inr (res, Some p')"
      and ok: "\<And>e. e \<in> set (rk_reservations p') \<Longrightarrow> check_reservation e = Inr ()"
    have "map_of (rk_reservations p') (rk_request_hash (rka_lineage_id a) (rka_request_id a)) =
        Some (rka_reservation a now (rka_expires_at a))"
      using reserve_locked_result [OF l] by (auto split: if_splits)
    from reserve_advances_checked [OF core assms(2) l ok [OF map_of_SomeD [OF this]]]
    show "rk_core p'" by (simp add: advances_def)
  qed
  then show ?thesis using Inr ws by (simp add: rk_reserve_def)
qed

lemma books_sound_outcome_locked:
  assumes "rk_core p" shows "books_sound (rk_outcome_locked rh sh lh out now p)"
proof (cases "map_of (rk_reservations p) rh")
  case (Some r)
  obtain a1 where a1: "adjust_accounts (shift 1 (- 1) 0) (rr_charges r) (rk_accounts p) = Inr a1"
    using adjust_reservation [OF assms Some] by blast
  obtain a2 where a2: "adjust_accounts (shift 0 (- 1) 0) (rr_charges r) (rk_accounts p) = Inr a2"
    using adjust_reservation [OF assms Some] by blast
  show ?thesis
    unfolding rk_outcome_locked_def changes_as_shift(4,5) Let_def Some
    by (simp add: a1 a2 accounting_error_def split: option.split)
qed (simp add: rk_outcome_locked_def accounting_error_def)

lemma books_sound_deliver_locked: "books_sound (rk_deliver_locked rh sh lh i rid p)"
proof -
  have "books_sound (check_owner a b c d)" for a b c d
    unfolding check_owner_def by (intro books_sound_rbind books_sound_ensure) (simp_all add: accounting_error_def)
  moreover have "books_sound (ack_lifecycle lf i rid)" for lf
    by (auto simp: ack_lifecycle_def accounting_error_def split: option.split)
  ultimately show ?thesis
    unfolding rk_deliver_locked_def
    by (auto simp: accounting_error_def split: option.split intro!: books_sound_rbind)
qed

lemma books_sound_map [simp]: "books_sound (map_sum id f m) \<longleftrightarrow> books_sound m"
  by (cases m) simp_all

lemma exec_books_sound:
  assumes "rk_state_inv st" "rk_op_ok opn" shows "books_sound (fst (rk_exec opn st))"
proof -
  have core: "rk_core p" if "rk_open st = Inr p" for p
    using rk_open_inv [OF assms(1) that] by (simp add: rk_inv_def)
  note sound = books_sound_rbind books_sound_require books_sound_open [OF assms(1)]
  show ?thesis
  proof (cases opn)
    case (RkReserve a now)
    then show ?thesis using assms books_sound_reserve by (simp add: rk_exec_def rk_op_ok_def)
  next
    case (RkOutcome l s r out now)
    have "books_sound (fst (rk_record_outcome l s r out now st))"
      unfolding rk_record_outcome_def
    proof (rule books_sound_commit)
      show "books_sound (rbind (ensure (out \<in> {''committed'', ''released''})
               (RiskBudgetError ''risk outcome must be committed or released'')) (\<lambda>_.
        rbind (require_string (JStr r) ''request_id'' 1024) (\<lambda>rid.
        rbind (require_string (JStr s) ''session_id'' 1024) (\<lambda>sid.
        rbind (require_string (JStr l) ''lineage_id'' 1024) (\<lambda>lid.
        rbind (rk_open st) (\<lambda>p.
        rk_outcome_locked (rk_request_hash l rid) (sha256_hex sid) (sha256_hex lid) out now p))))))"
        by (intro sound books_sound_ensure books_sound_outcome_locked core) (simp_all add: accounting_error_def)
    next
      fix res p'
      assume "rbind (ensure (out \<in> {''committed'', ''released''})
               (RiskBudgetError ''risk outcome must be committed or released'')) (\<lambda>_.
        rbind (require_string (JStr r) ''request_id'' 1024) (\<lambda>rid.
        rbind (require_string (JStr s) ''session_id'' 1024) (\<lambda>sid.
        rbind (require_string (JStr l) ''lineage_id'' 1024) (\<lambda>lid.
        rbind (rk_open st) (\<lambda>p.
        rk_outcome_locked (rk_request_hash l rid) (sha256_hex sid) (sha256_hex lid) out now p))))) = Inr (res, Some p')"
      then obtain u p rid sid lid where u: "ensure (out \<in> {''committed'', ''released''})
          (RiskBudgetError ''risk outcome must be committed or released'') = Inr u" and p: "rk_open st = Inr p"
        "rk_outcome_locked (rk_request_hash l rid) (sha256_hex sid) (sha256_hex lid) out now p = Inr (res, Some p')"
        by (elim rbind_InrE) blast
      from u have "out \<in> {''committed'', ''released''}" by simp
      then show "rk_core p'" using outcome_advances [OF core [OF p(1)] _ p(2)] by (simp add: advances_def)
    qed
    then show ?thesis by (simp add: RkOutcome rk_exec_def)
  next
    case (RkDeliver l s h i rid)
    have "books_sound (fst (rk_mark_lifecycle_delivered l s h i rid st))"
      unfolding rk_mark_lifecycle_delivered_def
      by (rule books_sound_commit, intro sound books_sound_deliver_locked, elim rbind_InrE)
         (use core deliver_advances in \<open>auto simp: advances_def\<close>)
    then show ?thesis by (simp add: RkDeliver rk_exec_def)
  next
    case (RkQuarantineStale l s stale now)
    have "books_sound (rk_stale_locked sh lh stale now p)" for sh lh p by (simp add: rk_stale_locked_def Let_def)
    then have "books_sound (fst (rk_quarantine_stale l s stale now st))"
      unfolding rk_quarantine_stale_def
      by (intro books_sound_commit sound, simp, elim rbind_InrE)
         (use core stale_advances in \<open>auto simp: advances_def\<close>)
    then show ?thesis by (simp add: RkQuarantineStale rk_exec_def)
  next
    case (RkPrune now)
    have "books_sound (fst (rk_prune_expired now st))"
      using books_sound_open_pruned [OF assms(1), of now]
      by (auto simp: rk_prune_expired_def books_sound_def split: sum.splits)
    then show ?thesis by (simp add: RkPrune rk_exec_def)
  qed
qed

section \<open>The ledger stays readable\<close>

lemma commit_readable [simp]: "snd (rk_commit st m) = Corrupt \<longleftrightarrow>
    st = Corrupt \<and> (\<forall>r p. m = Inr (r, Some p) \<longrightarrow> rk_validate p \<noteq> Inr ())"
  by (auto simp: rk_commit_def rk_persist_def split: sum.split option.split)

lemma open_pruned_readable: "rk_open_pruned st now = Inr (w, st') \<Longrightarrow> st' \<noteq> Corrupt"
  by (auto simp: rk_open_pruned_def rk_open_def rk_load_def rk_persist_def split: if_splits ledger_file.splits)

lemma exec_readable: "st \<noteq> Corrupt \<Longrightarrow> snd (rk_exec opn st) \<noteq> Corrupt"
  by (cases opn)
    (auto simp: rk_exec_def rk_reserve_def rk_record_outcome_def rk_mark_lifecycle_delivered_def rk_quarantine_stale_def
      rk_prune_expired_def dest: open_pruned_readable split: sum.split)

lemma run_readable: "st \<noteq> Corrupt \<Longrightarrow> run rk_exec ops st \<noteq> Corrupt"
  by (induction ops arbitrary: st) (simp_all add: exec_readable)

lemma readable_opens:
  assumes "rk_state_inv st" "st \<noteq> Corrupt" shows "\<exists>p. rk_open st = Inr p"
  using assms rk_fresh_inv by (cases st) (auto simp: rk_open_def rk_load_def rk_state_inv_def rk_inv_def)

section \<open>Unknown requests stay unknown\<close>

definition unknown :: "string \<Rightarrow> rk_payload \<Rightarrow> bool" where
  "unknown h p \<longleftrightarrow> h \<notin> set (keys (rk_reservations p))"

definition state_unknown :: "string \<Rightarrow> rk_state \<Rightarrow> bool" where
  "state_unknown h st = (case st of Stored p \<Rightarrow> unknown h p | _ \<Rightarrow> True)"

definition reserves :: "string \<Rightarrow> rk_op \<Rightarrow> bool" where
  "reserves h opn = (case opn of RkReserve a _ \<Rightarrow> rk_request_hash (rka_lineage_id a) (rka_request_id a) = h | _ \<Rightarrow> False)"

lemma unknown_sorted [simp]: "unknown h (rk_sorted p) \<longleftrightarrow> unknown h p"
  unfolding unknown_def set_map set_sorted_reservations image_image by (simp add: case_prod_beta)

lemma state_unknown_open: "rk_open st = Inr p \<Longrightarrow> state_unknown h st \<longleftrightarrow> unknown h p"
  by (cases st) (auto simp: state_unknown_def rk_open_def rk_load_def rk_fresh_def unknown_def)

lemma state_unknown_persist [simp]: "state_unknown h (rk_persist p) \<longleftrightarrow> unknown h p"
  by (simp add: state_unknown_def rk_persist_def)

lemma commit_unknown:
  assumes "state_unknown h st" "\<And>r p. m = Inr (r, Some p) \<Longrightarrow> unknown h p"
  shows "state_unknown h (snd (rk_commit st m))"
  using assms by (auto simp: rk_commit_def split: sum.split option.split)

lemma open_pruned_unknown:
  assumes "rk_state_inv st" "state_unknown h st" "rk_open_pruned st now = Inr (w, st')"
  shows "unknown h (pr_payload w)" "state_unknown h st'"
proof -
  obtain p where p: "rk_open st = Inr p" using assms(3) by (auto simp: rk_open_pruned_def)
  note f = open_pruned_follows [OF assms(1) p assms(3)]
  show w: "unknown h (pr_payload w)"
    using f(1) assms(2) state_unknown_open [OF p] unfolding prunes_def unknown_def by blast
  show "state_unknown h st'" using f(3) w assms(2) by auto
qed

lemma reserve_unknown:
  assumes "rk_state_inv st" "state_unknown h st" "rk_request_hash (rka_lineage_id a) (rka_request_id a) \<noteq> h"
  shows "state_unknown h (snd (rk_reserve a now st))"
proof (cases "rbind (rk_reserve_checks a) (\<lambda>_. rk_open_pruned st now)")
  case (Inr ws)
  obtain w st' where ws: "ws = (w, st')" by fastforce
  have u: "unknown h (pr_payload w)" "state_unknown h st'"
    using open_pruned_unknown [OF assms(1,2)] Inr ws by auto
  have "state_unknown h (snd (rk_commit st' (rk_reserve_locked a now (pr_payload w))))"
    by (rule commit_unknown [OF u(2)])
      (use u(1) assms(3) reserve_locked_result in \<open>fastforce simp: unknown_def set_keys_update simp del: set_map split: if_splits\<close>)
  then show ?thesis using Inr ws by (simp add: rk_reserve_def)
qed (use assms(2) in \<open>simp add: rk_reserve_def\<close>)

lemma known_update: "map_of rs h' = Some r \<Longrightarrow> set (keys (AList.update h' r' rs)) = set (keys rs)"
  unfolding set_keys_update by (metis insert_absorb map_of_eq_None_iff option.distinct(1) set_map)

lemma locked_unknown:
  "rk_outcome_locked rh sh lh out now p = Inr (res, Some p') \<Longrightarrow> unknown h p' \<longleftrightarrow> unknown h p"
  "rk_deliver_locked rh sh lh i rid p = Inr (u, Some p') \<Longrightarrow> unknown h p' \<longleftrightarrow> unknown h p"
  "rk_stale_locked sh lh stale now p = Inr (outs, Some p') \<Longrightarrow> unknown h p' \<longleftrightarrow> unknown h p"
proof -
  show "unknown h p' \<longleftrightarrow> unknown h p" if "rk_outcome_locked rh sh lh out now p = Inr (res, Some p')"
    by (rule outcome_locked_write [OF that]) (simp add: unknown_def known_update del: set_map)
  show "unknown h p' \<longleftrightarrow> unknown h p" if "rk_deliver_locked rh sh lh i rid p = Inr (u, Some p')"
    using that by (auto simp: rk_deliver_locked_def unknown_def known_update simp del: set_map split: option.splits)
  show "unknown h p' \<longleftrightarrow> unknown h p" if "rk_stale_locked sh lh stale now p = Inr (outs, Some p')"
  proof -
    define g where "g = (\<lambda>h r. if is_stale sh lh stale r then rk_quarantine h now r else r)"
    have p': "p' = p\<lparr>rk_reservations := map (\<lambda>(h, r). (h, g h r)) (rk_reservations p)\<rparr>"
      using that unfolding rk_stale_locked_def Let_def sum.inject prod.inject
      by (elim conjE) (simp add: g_def split: if_split_asm)
    have "keys (rk_reservations p') = keys (rk_reservations p)" by (simp add: p' case_prod_beta comp_def)
    then show ?thesis by (simp only: unknown_def)
  qed
qed

lemma exec_unknown:
  assumes "rk_state_inv st" "state_unknown h st" "\<not> reserves h opn"
  shows "state_unknown h (snd (rk_exec opn st))"
proof -
  have o: "unknown h p" if "rk_open st = Inr p" for p using state_unknown_open [OF that] assms(2) by simp
  show ?thesis
  proof (cases opn)
    case (RkReserve a now)
    then show ?thesis using assms reserve_unknown by (simp add: rk_exec_def reserves_def)
  next
    case (RkOutcome l s r out now)
    have "state_unknown h (snd (rk_record_outcome l s r out now st))"
      unfolding rk_record_outcome_def
      by (rule commit_unknown [OF assms(2)], elim rbind_InrE) (use o locked_unknown(1) in blast)
    then show ?thesis by (simp add: RkOutcome rk_exec_def)
  next
    case (RkDeliver l s h' i rid)
    have "state_unknown h (snd (rk_mark_lifecycle_delivered l s h' i rid st))"
      unfolding rk_mark_lifecycle_delivered_def
      by (rule commit_unknown [OF assms(2)], elim rbind_InrE) (use o locked_unknown(2) in blast)
    then show ?thesis by (simp add: RkDeliver rk_exec_def)
  next
    case (RkQuarantineStale l s stale now)
    have "state_unknown h (snd (rk_quarantine_stale l s stale now st))"
      unfolding rk_quarantine_stale_def
      by (rule commit_unknown [OF assms(2)], elim rbind_InrE) (use o locked_unknown(3) in blast)
    then show ?thesis by (simp add: RkQuarantineStale rk_exec_def)
  next
    case (RkPrune now)
    have "state_unknown h (snd (rk_prune_expired now st))"
      using open_pruned_unknown(2) [OF assms(1,2)] assms(2)
      by (auto simp: rk_prune_expired_def split: sum.split)
    then show ?thesis by (simp add: RkPrune rk_exec_def)
  qed
qed

lemma run_unknown:
  assumes "rk_state_inv st" "state_unknown h st" "list_all rk_op_ok ops" "\<not> list_ex (reserves h) ops"
  shows "rk_state_inv (run rk_exec ops st) \<and> state_unknown h (run rk_exec ops st)"
  using assms
proof (induction ops arbitrary: st)
  case (Cons opn ops)
  have "rk_state_inv (snd (rk_exec opn st))" using exec_advances Cons.prems by (simp add: state_advances_def)
  then show ?case using Cons exec_unknown by simp
qed simp

end
