(* ===== verification/Risk_Replay.thy ===== *)
theory Risk_Replay
  imports Risk_Histories
begin

text \<open>
  Replay protection of the risk ledger: the record of an accepted request survives, as a
  reservation or as a tombstone, until an hour after the expiry the request was made with,
  whatever operations run in between; and what settling a reservation does to the accounts.
\<close>

section \<open>Records survive\<close>

definition recorded :: "int \<Rightarrow> string \<Rightarrow> rk_payload \<Rightarrow> bool" where
  "recorded e h p \<longleftrightarrow>
    (has_key (rk_reservations p) h \<or> has_key (rk_tombstones p) h) \<and>
    (\<forall>r. map_of (rk_reservations p) h = Some r \<longrightarrow> e \<le> rr_expires_at r) \<and>
    (\<forall>t. map_of (rk_tombstones p) h = Some t \<longrightarrow> e + REPLAY_TOMBSTONE_RETENTION_S \<le> rt_replay_until t)"

lemma recorded_update_other:
  "h \<noteq> h' \<Longrightarrow> recorded e h (p\<lparr>rk_reservations := AList.update h' r (rk_reservations p)\<rparr>) \<longleftrightarrow> recorded e h p"
  by (simp add: recorded_def has_key_iff)

lemma recorded_update_same:
  "recorded e h p \<Longrightarrow> map_of (rk_reservations p) h = Some r \<Longrightarrow> rr_expires_at r' = rr_expires_at r \<Longrightarrow>
    recorded e h (p\<lparr>rk_reservations := AList.update h r' (rk_reservations p)\<rparr>)"
  by (simp add: recorded_def has_key_iff)

lemma recorded_update:
  "recorded e h p \<Longrightarrow> map_of (rk_reservations p) h' = Some r \<Longrightarrow> rr_expires_at r' = rr_expires_at r \<Longrightarrow>
    recorded e h (p\<lparr>rk_reservations := AList.update h' r' (rk_reservations p)\<rparr>)"
  by (cases "h = h'") (simp_all add: recorded_update_other recorded_update_same)

lemma recorded_accounts [simp]: "recorded e h (p\<lparr>rk_accounts := acc\<rparr>) = recorded e h p"
  by (simp add: recorded_def)

lemma recorded_sorted:
  assumes "rk_core p" shows "recorded e h (rk_sorted p) \<longleftrightarrow> recorded e h p"
proof -
  have "map_of (rk_reservations (rk_sorted p)) h = map_option sort_reservation (map_of (rk_reservations p) h)"
    "map_of (rk_tombstones (rk_sorted p)) h = map_of (rk_tombstones p) h"
    using assms by (simp_all add: rk_sorted_def rk_core_def map_of_map_vals)
  then show ?thesis by (auto simp: recorded_def has_key_iff sort_reservation_def)
qed

lemma prune_archive_recorded:
  assumes "prune_archive now h' r status g w = Inr w'" "map_of (rk_reservations (pr_payload w)) h' = Some r"
    and "recorded e h (pr_payload w)"
  shows "recorded e h (pr_payload w')"
proof -
  obtain acc t where w': "pr_payload w' = \<lparr>rk_accounts = acc, rk_reservations = AList.delete h' (rk_reservations (pr_payload w)),
      rk_tombstones = AList.update h' t (rk_tombstones (pr_payload w))\<rparr>"
    "rr_expires_at r + REPLAY_TOMBSTONE_RETENTION_S \<le> rt_replay_until t"
    using assms(1) by (auto simp: prune_archive_def Let_def split: if_splits)
  show ?thesis
  proof (cases "h = h'")
    case True
    then have "e \<le> rr_expires_at r" using assms(2,3) by (simp add: recorded_def)
    then show ?thesis using True w' by (simp add: recorded_def has_key_iff)
  next
    case False
    then show ?thesis using assms(3) w' by (simp add: recorded_def has_key_iff)
  qed
qed

lemma prune_step_recorded:
  assumes "prune_step now w (h', r) = Inr w'" "map_of (rk_reservations (pr_payload w)) h' = Some r"
    and "recorded e h (pr_payload w)"
  shows "recorded e h (pr_payload w')"
proof -
  note step = assms(1) [unfolded prune_step_def Let_def fst_conv snd_conv rbind_Inr_iff require_risk_int_Inr]
  have archive: ?thesis if "prune_archive now h' r status g w = Inr w'" for status g
    by (rule prune_archive_recorded [OF that assms(2,3)])
  have "rr_expires_at (rk_quarantine h' now r) = rr_expires_at r" by (simp add: rk_quarantine_def)
  note quarantined = recorded_update [OF assms(3,2) this]
  show ?thesis
  proof (cases "of_int (rr_expires_at r) > now")
    case True
    then show ?thesis using step assms(3) by auto
  next
    case expired: False
    show ?thesis
    proof (cases "rr_status r = ''active''")
      case True
      then show ?thesis using step expired quarantined by auto
    next
      case False
      then show ?thesis
        using step expired archive [of "''quarantined_committed''"] archive [of "rr_status r"] assms(3)
        by (simp split: if_split_asm) blast+
    qed
  qed
qed

lemma prune_steps_recorded:
  assumes "foldM (prune_step now) w es = Inr w'" "rk_core (pr_payload w)" "wf_dict es"
    and "\<forall>d \<in> set es. map_of (rk_reservations (pr_payload w)) (fst d) = Some (snd d)"
    and "recorded e h (pr_payload w)"
  shows "recorded e h (pr_payload w')"
  using assms
proof (induction es arbitrary: w)
  case (Cons d es)
  then obtain v where v: "prune_step now w d = Inr v" "foldM (prune_step now) v es = Inr w'" by auto
  have s: "advances (pr_payload w) (pr_payload v)"
    "\<forall>h'. h' \<noteq> fst d \<longrightarrow> map_of (rk_reservations (pr_payload v)) h' = map_of (rk_reservations (pr_payload w)) h'"
    using prune_step_advances [OF Cons.prems(2), of "fst d" "snd d" now v] v(1) Cons.prems(4) by simp_all
  have "fst x \<noteq> fst d" if "x \<in> set es" for x
  proof -
    have "fst x \<in> fst ` set es" using that by (rule imageI)
    then show ?thesis using Cons.prems(3) by (cases d) auto
  qed
  then have "\<forall>x \<in> set es. map_of (rk_reservations (pr_payload v)) (fst x) = Some (snd x)"
    using s(2) Cons.prems(4) by simp
  moreover have "recorded e h (pr_payload v)"
    using prune_step_recorded [of now w "fst d" "snd d" v] v(1) Cons.prems(4,5) by simp
  ultimately show ?case
    using s(1) Cons.prems(3) by (intro Cons.IH [OF v(2)]) (simp_all add: advances_def wf_dict_def)
qed simp

lemma map_of_filter_vals:
  "(\<And>v. map_of d k = Some v \<Longrightarrow> P v) \<Longrightarrow> map_of [e \<leftarrow> d. P (snd e)] k = map_of d k"
  by (induction d) auto

lemma prune_payload_recorded:
  assumes "rk_core p" "prune_payload p now = Inr w" "recorded e h p"
    and "now < of_int (e + REPLAY_TOMBSTONE_RETENTION_S)"
  shows "recorded e h (pr_payload w)"
proof -
  let ?p = "p\<lparr>rk_tombstones := [x \<leftarrow> rk_tombstones p. keep_tombstone now (snd x)]\<rparr>"
  have "keep_tombstone now t" if "map_of (rk_tombstones p) h = Some t" for t
  proof -
    have "e + REPLAY_TOMBSTONE_RETENTION_S \<le> rt_replay_until t"
      using assms(3) that by (simp add: recorded_def)
    then have "now < of_int (rt_replay_until t)"
      using assms(4) by (meson less_le_trans of_int_le_iff)
    then show ?thesis by (simp add: keep_tombstone_def)
  qed
  then have "map_of [x \<leftarrow> rk_tombstones p. keep_tombstone now (snd x)] h = map_of (rk_tombstones p) h"
    by (intro map_of_filter_vals) simp
  then have "recorded e h ?p" using assms(3) by (simp add: recorded_def has_key_iff)
  moreover have "rk_core ?p" using assms(1) by (simp add: rk_core_def)
  ultimately show ?thesis
    using prune_steps_recorded [OF assms(2) [unfolded prune_payload_def Let_def]] assms(1)
    by (simp add: rk_core_def wf_dict_def)
qed

section \<open>Runs\<close>

text \<open>The operations that prune run before the given time.\<close>

definition before :: "rat \<Rightarrow> rk_op \<Rightarrow> bool" where
  "before t opn = (case opn of RkReserve _ now \<Rightarrow> now < t | RkPrune now \<Rightarrow> now < t | _ \<Rightarrow> True)"

definition state_recorded :: "int \<Rightarrow> string \<Rightarrow> rk_state \<Rightarrow> bool" where
  "state_recorded e h st = (case st of Stored p \<Rightarrow> recorded e h p | _ \<Rightarrow> False)"

lemma open_recorded: "state_recorded e h st \<Longrightarrow> rk_open st = Inr p \<Longrightarrow> recorded e h p"
  by (cases st) (auto simp: state_recorded_def rk_open_def rk_load_def)

lemma persist_recorded: "rk_core p \<Longrightarrow> recorded e h p \<Longrightarrow> state_recorded e h (rk_persist p)"
  by (simp add: state_recorded_def rk_persist_def recorded_sorted)

lemma commit_recorded:
  assumes "state_recorded e h st"
    and "\<And>r p'. m = Inr (r, Some p') \<Longrightarrow> rk_validate p' = Inr () \<Longrightarrow> rk_core p' \<and> recorded e h p'"
  shows "state_recorded e h (snd (rk_commit st m))"
  using assms persist_recorded by (auto simp: rk_commit_def split: sum.splits option.splits)

lemma open_pruned_recorded:
  assumes "rk_state_inv st" "state_recorded e h st" "rk_open_pruned st now = Inr (w, st')"
    and "now < of_int (e + REPLAY_TOMBSTONE_RETENTION_S)"
  shows "recorded e h (pr_payload w)" "state_recorded e h st'"
proof -
  obtain p where p: "rk_open st = Inr p" "rk_inv p" "prune_payload p now = Inr w" "advances p (pr_payload w)"
    "rk_state_inv st'" "st' = rk_persist (pr_payload w) \<or> st' = st"
    by (rule open_pruned [OF assms(1,3)])
  show r: "recorded e h (pr_payload w)"
    using prune_payload_recorded [OF _ p(3) open_recorded [OF assms(2) p(1)] assms(4)] p(2) by (simp add: rk_inv_def)
  show "state_recorded e h st'"
    using p(4,6) r persist_recorded assms(2) by (auto simp: advances_def)
qed

lemma reserve_refused:
  assumes "recorded e (rk_request_hash (rka_lineage_id a) (rka_request_id a)) p"
  shows "\<exists>err. rk_reserve_locked a now p = Inl err"
proof (cases "rk_reserve_locked a now p")
  case (Inr x)
  then obtain res w where "rk_reserve_locked a now p = Inr (res, w)" by (cases x) simp
  from reserve_locked_result [OF this] assms show ?thesis by (simp add: recorded_def has_key_iff)
qed simp

lemma outcome_recorded:
  assumes "rk_outcome_locked rh sh lh out now p = Inr (res, Some p')" "recorded e h p"
  shows "recorded e h p'"
  using assms(1)
proof (rule outcome_locked_write)
  fix r :: rk_reservation and acc
  let ?r' = "r\<lparr>rr_status := out, rr_updated_at := now, rr_lifecycle := Some (pending_lifecycle rh out)\<rparr>"
  assume r: "map_of (rk_reservations p) rh = Some r"
    and p': "p' = p\<lparr>rk_accounts := acc, rk_reservations := AList.update rh ?r' (rk_reservations p)\<rparr>"
  have "recorded e h (p\<lparr>rk_accounts := acc\<rparr>)" using assms(2) by simp
  from recorded_update [OF this, of rh r ?r'] r show ?thesis unfolding p' by simp
qed

lemma deliver_recorded:
  assumes "rk_deliver_locked rh sh lh i rid p = Inr (u, Some p')" "recorded e h p"
  shows "recorded e h p'"
proof (cases "map_of (rk_reservations p) rh")
  case None
  then obtain t l where t: "map_of (rk_tombstones p) rh = Some t"
    "p' = p\<lparr>rk_tombstones := AList.update rh (t\<lparr>rt_lifecycle := Some l\<rparr>) (rk_tombstones p)\<rparr>"
    using assms(1) by (auto simp: rk_deliver_locked_def split: option.splits)
  then show ?thesis using assms(2) by (auto simp: recorded_def has_key_iff)
next
  case (Some r)
  then obtain l where p': "p' = p\<lparr>rk_reservations := AList.update rh (r\<lparr>rr_lifecycle := Some l\<rparr>) (rk_reservations p)\<rparr>"
    using assms(1) by (auto simp: rk_deliver_locked_def split: option.splits)
  show ?thesis unfolding p' by (rule recorded_update [OF assms(2) Some]) simp
qed

lemma stale_recorded:
  assumes "rk_stale_locked sh lh stale now p = Inr (u, Some p')" "recorded e h p"
  shows "recorded e h p'"
proof -
  define q where "q = (\<lambda>h r. if is_stale sh lh stale r then rk_quarantine h now r else r)"
  have p': "p' = p\<lparr>rk_reservations := map (\<lambda>(h, r). (h, q h r)) (rk_reservations p)\<rparr>"
    using assms(1) unfolding rk_stale_locked_def Let_def sum.inject prod.inject
    by (elim conjE) (simp add: q_def split: if_split_asm)
  have "rr_expires_at (q h r) = rr_expires_at r" for r by (simp add: q_def rk_quarantine_def)
  then show ?thesis using assms(2) by (auto simp: p' recorded_def has_key_iff map_of_map_vals)
qed

lemma reserve_recorded:
  assumes "rk_state_inv st" "rka_ok a" "state_recorded e h st" "now < of_int (e + REPLAY_TOMBSTONE_RETENTION_S)"
  shows "state_recorded e h (snd (rk_reserve a now st))"
proof (cases "rbind (rk_reserve_checks a) (\<lambda>_. rk_open_pruned st now)")
  case (Inl x)
  then show ?thesis using assms(3) by (simp add: rk_reserve_def)
next
  case (Inr ws)
  obtain w st' where ws: "ws = (w, st')" by fastforce
  have o: "rk_open_pruned st now = Inr (w, st')" using Inr ws by auto
  note r = open_pruned_recorded [OF assms(1,3) o assms(4)]
  note core = open_pruned_advances(2) [OF assms(1) o]
  have "state_recorded e h (snd (rk_commit st' (rk_reserve_locked a now (pr_payload w))))"
  proof (rule commit_recorded [OF r(2)])
    fix res p' assume l: "rk_reserve_locked a now (pr_payload w) = Inr (res, Some p')" and v: "rk_validate p' = Inr ()"
    have "rk_core p'" using reserve_advances [OF core assms(2) l v] by (simp add: advances_def)
    moreover have "recorded e h p'"
    proof (cases "h = rk_request_hash (rka_lineage_id a) (rka_request_id a)")
      case True
      then show ?thesis using reserve_refused [of e a "pr_payload w" now] r(1) l by simp
    next
      case False
      then show ?thesis
        using reserve_locked_result [OF l] r(1) by (auto simp: recorded_def has_key_iff split: if_splits)
    qed
    ultimately show "rk_core p' \<and> recorded e h p'" ..
  qed
  then show ?thesis using Inr ws by (simp add: rk_reserve_def)
qed

lemma exec_recorded:
  assumes "rk_state_inv st" "rk_op_ok opn" "state_recorded e h st"
    and "before (of_int (e + REPLAY_TOMBSTONE_RETENTION_S)) opn"
  shows "state_recorded e h (snd (rk_exec opn st))"
proof (cases opn)
  case (RkReserve a now)
  then show ?thesis
    using assms reserve_recorded by (simp add: rk_exec_def rk_op_ok_def before_def)
next
  case (RkOutcome l s r out now)
  have "state_recorded e h (snd (rk_record_outcome l s r out now st))"
    unfolding rk_record_outcome_def
  proof (rule commit_recorded [OF assms(3)], elim rbind_InrE)
    fix res p' u rid sid lid p
    assume "ensure (out \<in> {''committed'', ''released''}) (RiskBudgetError ''risk outcome must be committed or released'') = Inr u"
      and o: "rk_open st = Inr p"
      and x: "rk_outcome_locked (rk_request_hash l rid) (sha256_hex sid) (sha256_hex lid) out now p = Inr (res, Some p')"
    then have out: "out \<in> {''committed'', ''released''}" by simp
    have "rk_core p" using rk_open_inv [OF assms(1) o] by (simp add: rk_inv_def)
    then show "rk_core p' \<and> recorded e h p'"
      using outcome_advances [OF _ out x] outcome_recorded [OF x open_recorded [OF assms(3) o]]
      by (simp add: advances_def)
  qed
  then show ?thesis by (simp add: RkOutcome rk_exec_def)
next
  case (RkDeliver l s h' i rid)
  have "state_recorded e h (snd (rk_mark_lifecycle_delivered l s h' i rid st))"
    unfolding rk_mark_lifecycle_delivered_def
    by (rule commit_recorded [OF assms(3)], elim rbind_InrE)
       (use rk_open_inv [OF assms(1)] deliver_advances deliver_recorded open_recorded [OF assms(3)] in
         \<open>auto simp: rk_inv_def advances_def\<close>)
  then show ?thesis by (simp add: RkDeliver rk_exec_def)
next
  case (RkQuarantineStale l s stale now)
  have "state_recorded e h (snd (rk_quarantine_stale l s stale now st))"
    unfolding rk_quarantine_stale_def
    by (rule commit_recorded [OF assms(3)], elim rbind_InrE)
       (use rk_open_inv [OF assms(1)] stale_advances stale_recorded open_recorded [OF assms(3)] in
         \<open>auto simp: rk_inv_def advances_def\<close>)
  then show ?thesis by (simp add: RkQuarantineStale rk_exec_def)
next
  case (RkPrune now)
  then have "state_recorded e h (snd (rk_prune_expired now st))"
    using open_pruned_recorded(2) [OF assms(1,3)] assms(3,4)
    by (auto simp: rk_prune_expired_def before_def split: sum.splits)
  then show ?thesis by (simp add: RkPrune rk_exec_def)
qed

lemma run_recorded:
  assumes "rk_state_inv st" "state_recorded e h st" "list_all rk_op_ok ops"
    and "list_all (before (of_int (e + REPLAY_TOMBSTONE_RETENTION_S))) ops"
  shows "rk_state_inv (run rk_exec ops st) \<and> state_recorded e h (run rk_exec ops st)"
  using assms
proof (induction ops arbitrary: st)
  case (Cons opn ops)
  have "rk_state_inv (snd (rk_exec opn st))" using exec_advances Cons.prems by (simp add: state_advances_def)
  then show ?case using Cons exec_recorded by simp
qed simp

text \<open>What an accepted reservation leaves behind.\<close>

lemma reserve_accepted:
  assumes "rk_state_inv st" "rka_ok a" "rk_reserve a now st = (Inr res, st')" "rres_accepted res"
  obtains q p' where "rk_core q" "st' = rk_persist p'" "rk_validate p' = Inr ()" "advances q p'"
    "blocking (rka_numeric_facts a) (rk_remaining q (rka_ceilings a) (rka_scope_keys a)) = None"
    "p' = q\<lparr>rk_accounts := reserve_accounts (charges (rka_numeric_facts a) (rka_scope_keys a)) (rk_accounts q),
      rk_reservations := AList.update (rk_request_hash (rka_lineage_id a) (rka_request_id a))
        (rka_reservation a now (rka_expires_at a)) (rk_reservations q)\<rparr>"
    "map_of (rk_tombstones q) (rk_request_hash (rka_lineage_id a) (rka_request_id a)) = None"
proof -
  obtain w st1 where o: "rk_open_pruned st now = Inr (w, st1)"
    "rk_commit st1 (rk_reserve_locked a now (pr_payload w)) = (Inr res, st')"
    using assms(3) by (auto simp: rk_reserve_def split: sum.splits)
  then obtain x where x: "rk_reserve_locked a now (pr_payload w) = Inr (res, x)"
    by (auto simp: rk_commit_def split: sum.splits option.splits)
  note l = reserve_locked_result [OF x]
  then obtain p' where p': "x = Some p'" using assms(4) by auto
  have v: "rk_validate p' = Inr ()" "st' = rk_persist p'"
    using o(2) x p' by (auto simp: rk_commit_def split: sum.splits)
  note core = open_pruned_advances(2) [OF assms(1) o(1)]
  have "advances (pr_payload w) p'" using reserve_advances [OF core assms(2) x [unfolded p'] v(1)] .
  then show thesis using that [of "pr_payload w" p'] core v l p' assms(4) by simp
qed

section \<open>Writes never fail validation\<close>

definition rka_valid :: "rk_reserve_args \<Rightarrow> bool" where
  "rka_valid a \<longleftrightarrow> rka_ok a \<and> rk_reserve_checks a = Inr () \<and>
    set (keys (rka_numeric_facts a)) \<subseteq> set NUMERIC_RISK_FACTS \<and>
    (\<forall>e \<in> set (rka_ceilings a). check_ceiling e = Inr ()) \<and>
    0 \<le> rka_expires_at a \<and> rka_expires_at a \<le> MAX_RISK_VALUE"

lemma rk_inv_checks:
  assumes "rk_inv p"
  shows "rk_core p" "length (rk_reservations p) \<le> MAX_RESERVATIONS" "length (rk_tombstones p) \<le> MAX_RESERVATIONS"
    "\<forall>e \<in> set (rk_tombstones p). check_tombstone e = Inr ()"
    "\<forall>e \<in> set (rk_reservations p). check_reservation e = Inr ()"
  using assms by (auto simp: rk_inv_def rk_validate_Inr)

lemma length_update_new: "map_of d k = None \<Longrightarrow> length (AList.update k v d) = Suc (length d)"
  by (induction d) (auto split: if_splits)

lemma reserve_checks_Inr:
  assumes "rk_reserve_checks a = Inr ()"
  shows "set (keys (rka_numeric_facts a)) = set (keys (rka_ceilings a))"
    "\<forall>e \<in> set (rka_numeric_facts a). 0 \<le> snd e \<and> snd e \<le> MAX_RISK_VALUE"
  using assms unfolding rk_reserve_checks_def rbind_Inr_iff checkM_Inr_iff ensure_Inr_iff
  by (simp_all add: case_prod_beta rbind_Inr_iff require_risk_int_Inr)

lemma check_new_reservation:
  assumes "rka_valid a"
  shows "check_reservation (rk_request_hash l i, rka_reservation a now (rka_expires_at a)) = Inr ()"
proof -
  have "check_amount (rka_scope_keys a) e = Inr ()" if "e \<in> set (rka_numeric_facts a)" for e
  proof -
    have "0 \<le> snd e \<and> snd e \<le> MAX_RISK_VALUE"
      using assms that reserve_checks_Inr by (auto simp: rka_valid_def)
    moreover have "fst e \<in> set NUMERIC_RISK_FACTS" using assms that by (auto simp: rka_valid_def)
    ultimately show ?thesis
      using rka_keys_ok [of a] by (auto simp: check_amount_def rbind_Inr_iff require_risk_int_Inr keys_ok_def)
  qed
  moreover have "set (keys (rka_numeric_facts a)) = set (keys (rka_ceilings a))"
    using assms reserve_checks_Inr by (simp add: rka_valid_def)
  ultimately show ?thesis
    using assms by (simp add: check_reservation_Inr rka_reservation_def rk_request_hash_def rka_valid_def reservation_statuses_def)
qed

lemma reserve_validates:
  assumes "rk_inv p" "rka_valid a" "rk_reserve_locked a now p = Inr (res, Some p')"
  shows "rk_validate p' = Inr ()"
proof -
  define h where "h = rk_request_hash (rka_lineage_id a) (rka_request_id a)"
  define r where "r = rka_reservation a now (rka_expires_at a)"
  note w = reserve_locked_result [OF assms(3)]
  note c = rk_inv_checks [OF assms(1)]
  have p': "p' = p\<lparr>rk_accounts := reserve_accounts (charges (rka_numeric_facts a) (rka_scope_keys a)) (rk_accounts p),
      rk_reservations := AList.update h r (rk_reservations p)\<rparr>"
    and fresh: "map_of (rk_reservations p) h = None"
    using w by (auto simp: h_def r_def split: if_splits)
  have chk: "check_reservation (h, r) = Inr ()"
    unfolding h_def r_def by (rule check_new_reservation [OF assms(2)])
  have "rk_core p'"
    using reserve_advances_checked [OF c(1) _ assms(3)] chk assms(2)
    by (simp add: advances_def rka_valid_def h_def r_def)
  moreover have "length (rk_reservations p) < MAX_RESERVATIONS"
    using assms(3) w by (auto simp: rk_reserve_locked_def Let_def split: if_splits)
  ultimately show ?thesis
    using c(3-5) chk fresh
    by (intro rk_core_validate) (auto simp: p' length_update_new dest!: set_update_subset)
qed

lemma check_settled:
  assumes "check_reservation (h, r) = Inr ()" "out \<in> {''committed'', ''released''}"
  shows "check_reservation (h, r\<lparr>rr_status := out, rr_updated_at := now,
    rr_lifecycle := Some (pending_lifecycle h out)\<rparr>) = Inr ()"
proof -
  have "check_lifecycle (Some (pending_lifecycle h out)) = Inr ()"
    by (simp add: check_lifecycle_def pending_lifecycle_def)
  moreover have "out \<in> set reservation_statuses" "out \<noteq> ''active''"
    using assms(2) by (auto simp: reservation_statuses_def)
  ultimately show ?thesis using assms(1) by (simp add: check_reservation_Inr)
qed

lemma outcome_validates:
  assumes "rk_inv p" "out \<in> {''committed'', ''released''}"
    and "rk_outcome_locked rh sh lh out now p = Inr (res, Some p')"
  shows "rk_validate p' = Inr ()"
  using assms(3)
proof (rule outcome_locked_write)
  fix r :: rk_reservation and acc
  let ?r' = "r\<lparr>rr_status := out, rr_updated_at := now, rr_lifecycle := Some (pending_lifecycle rh out)\<rparr>"
  assume r: "map_of (rk_reservations p) rh = Some r"
    and p': "p' = p\<lparr>rk_accounts := acc, rk_reservations := AList.update rh ?r' (rk_reservations p)\<rparr>"
  note c = rk_inv_checks [OF assms(1)]
  have "check_reservation (rh, ?r') = Inr ()"
    using check_settled [OF _ assms(2)] c(5) map_of_SomeD [OF r] by blast
  moreover have "rk_core p'" using outcome_advances [OF c(1) assms(2,3)] by (simp add: advances_def)
  ultimately show ?thesis
    using c(2-5) by (intro rk_core_validate) (auto simp: p' length_update_old [OF r] dest!: set_update_subset)
qed

lemma outcome_locked_total:
  assumes "rk_inv p" "map_of (rk_reservations p) rh = Some r" "owned sh lh r" "rr_status r = ''active''"
    and "out \<in> {''committed'', ''released''}"
  shows "\<exists>res p'. rk_outcome_locked rh sh lh out now p = Inr (res, Some p')"
proof -
  have c: "rk_core p" using assms(1) by (simp add: rk_inv_def)
  note r = rk_core_reservation [OF c assms(2)]
  have k: "\<forall>k \<in> set (keys (rr_charges r)). has_key (rk_accounts p) k"
    using r(2,3) unfolding accounts_ok_def by (metis snd_conv)
  obtain a1 where a1: "adjust_accounts (shift 1 (- 1) 0) (rr_charges r) (rk_accounts p) = Inr a1"
    using adjust_shift [OF k] by blast
  obtain a2 where a2: "adjust_accounts (shift 0 (- 1) 0) (rr_charges r) (rk_accounts p) = Inr a2"
    using adjust_shift [OF k] by blast
  show ?thesis
    using assms(3,4,5) assms(2) a1 a2
    by (auto simp: rk_outcome_locked_def changes_as_shift(4,5) owned_def Let_def)
qed

text \<open>With well-formed arguments and an identifier that is not recorded, the only question is whether a fact blocks.\<close>

lemma reserve_decides:
  assumes "rk_inv (pr_payload w)" "rka_valid a" "rk_open_pruned st now = Inr (w, st1)"
    and "map_of (rk_tombstones (pr_payload w)) (rk_request_hash (rka_lineage_id a) (rka_request_id a)) = None"
    and "map_of (rk_reservations (pr_payload w)) (rk_request_hash (rka_lineage_id a) (rka_request_id a)) = None"
    and "length (rk_reservations (pr_payload w)) < MAX_RESERVATIONS"
  shows "\<exists>res st'. rk_reserve a now st = (Inr res, st') \<and> (rres_accepted res \<longleftrightarrow>
    blocking (rka_numeric_facts a) (rk_remaining (pr_payload w) (rka_ceilings a) (rka_scope_keys a)) = None)"
proof -
  let ?p = "pr_payload w"
  have e: "require_risk_int (JInt (rka_expires_at a)) ''expires_at'' = Inr (rka_expires_at a)"
    using assms(2) by (simp add: require_risk_int_Inr rka_valid_def)
  obtain res x where l: "rk_reserve_locked a now ?p = Inr (res, x)"
    using assms(4-6) e
    by (cases "blocking (rka_numeric_facts a) (rk_remaining ?p (rka_ceilings a) (rka_scope_keys a))")
      (auto simp: rk_reserve_locked_def Let_def)
  have "rk_validate p' = Inr ()" if "x = Some p'" for p'
    using reserve_validates [OF assms(1,2)] l that by blast
  then have "fst (rk_commit st1 (rk_reserve_locked a now ?p)) = Inr res"
    by (cases x) (simp_all add: l rk_commit_def)
  then show ?thesis
    using reserve_locked_result [OF l] assms(2,3)
    by (cases "rk_commit st1 (rk_reserve_locked a now ?p)") (simp add: rk_reserve_def rka_valid_def)
qed


section \<open>A run to evaluate\<close>

definition rk_demo :: "string \<Rightarrow> rk_reserve_args" where
  "rk_demo request_id = \<lparr>rka_lineage_id = ''root'', rka_session_id = ''s1'', rka_agent_id = ''agent'',
     rka_request_id = request_id, rka_fingerprint = ''rm a b'',
     rka_numeric_facts = [(''destructive_targets'', 2)],
     rka_ceilings = [(''destructive_targets'', \<lparr>at_session = 10, at_agent = 20, at_lineage = 30\<rparr>)],
     rka_policy_digest = ''p'', rka_contract_digest = ''c'', rka_fact_digest = ''f'', rka_expires_at = 100\<rparr>"

definition rk_demo_hash :: "string \<Rightarrow> string" where
  "rk_demo_hash request_id = rk_request_hash ''root'' request_id"

definition rk_demo_key :: string where
  "rk_demo_key = account_key ''destructive_targets'' Session (sha256_hex ''s1'')"

lemma rk_demo_valid: "i \<in> {''r1'', '' r1''} \<Longrightarrow> rka_valid (rk_demo i)"
proof -
  assume "i \<in> {''r1'', '' r1''}"
  moreover have "rk_reserve_checks (rk_demo ''r1'') = Inr ()" by code_simp
  moreover have "rk_reserve_checks (rk_demo '' r1'') = Inr ()" by code_simp
  ultimately have "rk_reserve_checks (rk_demo i) = Inr ()" by auto
  then show ?thesis
    by (simp add: rka_valid_def rka_ok_def) (simp add: rk_demo_def check_ceiling_def scopes_def
        require_risk_int_def NUMERIC_RISK_FACTS_def MAX_RISK_VALUE_def)
qed

lemma rk_demo_ok: "rka_ok (rk_demo i)"
  by (simp add: rka_ok_def rk_demo_def)

lemma rk_absent_inv: "rk_state_inv Absent"
  by (simp add: rk_state_inv_def)

lemma rk_demo_opened:
  "rk_open_pruned Absent 0 = Inr (\<lparr>pr_payload = rk_fresh, pr_pruned = 0, pr_quarantined = 0\<rparr>, Absent)"
  using rk_fresh_inv
  by (simp add: rk_open_pruned_def rk_open_def rk_load_def rk_inv_def prune_payload_def)
     (simp add: rk_fresh_def)

lemma rk_demo_accepted:
  assumes "i \<in> {''r1'', '' r1''}"
  shows "\<exists>res st'. rk_reserve (rk_demo i) 0 Absent = (Inr res, st') \<and> rres_accepted res"
proof -
  have "blocking (rka_numeric_facts (rk_demo i)) (rk_remaining rk_fresh (rka_ceilings (rk_demo i)) (rka_scope_keys (rk_demo i))) = None"
    by (simp add: blocking_def rk_remaining_def rk_demo_def rk_fresh_def scopes_def zero_account_def dget_def)
  then show ?thesis
    using reserve_decides [OF _ rk_demo_valid [OF assms] rk_demo_opened] rk_fresh_inv
    by (simp add: rk_fresh_def MAX_RESERVATIONS_def)
qed

lemma rk_demo_state:
  assumes i: "i \<in> {''r1'', '' r1''}"
  obtains res p where "rk_reserve (rk_demo i) 0 Absent = (Inr res, rk_persist p)" "rres_accepted res" "rk_inv p"
    "rk_open (rk_persist p) = Inr (rk_sorted p)" "rk_tombstones p = []" "keys (rk_reservations p) = [rk_demo_hash i]"
    "map_of (rk_reservations p) (rk_demo_hash i) = Some (rka_reservation (rk_demo i) 0 100)"
    "map_of (rk_accounts (rk_sorted p)) rk_demo_key = Some \<lparr>ac_spent = 0, ac_reserved = 2, ac_archived_spent = 0\<rparr>"
proof -
  obtain res st' where r: "rk_reserve (rk_demo i) 0 Absent = (Inr res, st')" "rres_accepted res"
    using rk_demo_accepted [OF i] by blast
  have "rk_reserve_checks (rk_demo i) = Inr ()" using rk_demo_valid [OF i] by (simp add: rka_valid_def)
  then have c: "rk_commit Absent (rk_reserve_locked (rk_demo i) 0 rk_fresh) = (Inr res, st')"
    using r(1) by (simp add: rk_reserve_def rk_demo_opened)
  then obtain x where x: "rk_reserve_locked (rk_demo i) 0 rk_fresh = Inr (res, x)"
    by (auto simp: rk_commit_def split: sum.splits option.splits)
  define p where "p = rk_fresh\<lparr>rk_accounts := reserve_accounts (charges (rka_numeric_facts (rk_demo i)) (rka_scope_keys (rk_demo i))) (rk_accounts rk_fresh),
      rk_reservations := AList.update (rk_demo_hash i) (rka_reservation (rk_demo i) 0 100) (rk_reservations rk_fresh)\<rparr>"
  have demo: "rka_lineage_id (rk_demo i) = ''root''" "rka_request_id (rk_demo i) = i" "rka_expires_at (rk_demo i) = 100"
    by (simp_all add: rk_demo_def)
  have p: "x = Some p"
    using reserve_locked_result [OF x] r(2) by (simp add: p_def rk_demo_hash_def demo)
  have v: "rk_validate p = Inr ()" "st' = rk_persist p"
    using c x p by (auto simp: rk_commit_def split: sum.splits)
  have core: "rk_core p"
    using reserve_advances [OF _ rk_demo_ok x [unfolded p] v(1)] rk_fresh_inv by (simp add: advances_def rk_inv_def)
  have f: "(''destructive_targets'', 2) \<in> set (rka_numeric_facts (rk_demo i))" by (simp add: rk_demo_def)
  have k: "rk_demo_key = account_key ''destructive_targets'' Session (at_scope (rka_scope_keys (rk_demo i)) Session)"
    by (simp add: rk_demo_key_def rka_scope_keys_def rk_demo_def)
  have sum: "entry_sum (charges (rka_numeric_facts (rk_demo i)) (rka_scope_keys (rk_demo i))) rk_demo_key = 2"
    unfolding k by (rule charge_of_amount [OF _ rka_keys_ok f]) (use rk_demo_ok in \<open>simp add: rka_ok_def\<close>)
  then have "rk_demo_key \<in> set (keys (charges (rka_numeric_facts (rk_demo i)) (rka_scope_keys (rk_demo i))))"
    using entry_sum_absent by fastforce
  then have "map_of (rk_accounts p) rk_demo_key = Some \<lparr>ac_spent = 0, ac_reserved = 2, ac_archived_spent = 0\<rparr>"
    using sum by (simp add: p_def rk_fresh_def reserve_accounts_map_of shift_def zero_account_def dget_def)
  then have "map_of (rk_accounts (rk_sorted p)) rk_demo_key = Some \<lparr>ac_spent = 0, ac_reserved = 2, ac_archived_spent = 0\<rparr>"
    using core by (simp add: rk_sorted_def rk_core_def accounts_ok_def)
  moreover have "rk_open (rk_persist p) = Inr (rk_sorted p)"
    using v(1) rk_validate_sorted [of p] by (simp add: rk_open_def rk_load_def rk_persist_def)
  ultimately show thesis
    using that [of res p] r v core by (simp add: rk_inv_def p_def rk_fresh_def)
qed

lemma rk_demo_run: "run rk_exec [RkReserve (rk_demo i) 0] Absent = snd (rk_reserve (rk_demo i) 0 Absent)"
  by (simp add: rk_exec_def)

section \<open>Properties\<close>

text \<open>C2: An accepted reservation keeps every budget: after it, for each fact it charges (a positive
  amount) and each of the scopes session, agent and lineage, what that account has spent and
  reserved is within the ceiling, and the request stands in the ledger as active.\<close>

theorem risk_reserve_within_ceilings:
  assumes "rk_state_inv st" and "rka_ok a"
    and "rk_reserve a now st = (Inr res, st')" and "rres_accepted res"
  shows "\<exists>p. rk_open st' = Inr p \<and>
    (\<forall>f n c s. (f, n) \<in> set (rka_numeric_facts a) \<longrightarrow> (f, c) \<in> set (rka_ceilings a) \<longrightarrow> 0 < n \<longrightarrow>
       used_in (rk_accounts p) (account_key f s (at_scope (rka_scope_keys a) s)) \<le> at_scope c s) \<and>
    map_option rr_status (map_of (rk_reservations p)
      (rk_request_hash (rka_lineage_id a) (rka_request_id a))) = Some ''active''"
proof (rule reserve_accepted [OF assms])
  fix q p'
  let ?h = "rk_request_hash (rka_lineage_id a) (rka_request_id a)"
  assume p: "rk_core q" "st' = rk_persist p'" "rk_validate p' = Inr ()" "advances q p'"
    and room: "blocking (rka_numeric_facts a) (rk_remaining q (rka_ceilings a) (rka_scope_keys a)) = None"
    and p': "p' = q\<lparr>rk_accounts := reserve_accounts (charges (rka_numeric_facts a) (rka_scope_keys a)) (rk_accounts q),
      rk_reservations := AList.update ?h (rka_reservation a now (rka_expires_at a)) (rk_reservations q)\<rparr>"
  have core: "rk_core p'" using p(4) by (simp add: advances_def)
  have o: "rk_open st' = Inr (rk_sorted p')"
    using p(2,3) rk_validate_sorted [of p'] by (simp add: rk_open_def rk_load_def rk_persist_def)
  have "used_in (rk_accounts (rk_sorted p')) k = used_in (rk_accounts p') k" for k
    using core by (simp add: used_in_def rk_sorted_def dget_def rk_core_def accounts_ok_def)
  moreover have "used_in (rk_accounts p') (account_key f s (at_scope (rka_scope_keys a) s)) \<le> at_scope c s"
    if "(f, n) \<in> set (rka_numeric_facts a)" "(f, c) \<in> set (rka_ceilings a)" "0 < n" for f n c s
    using room_left [OF assms(2) room that(1,2), of s] that
      used_in_reserve_accounts [of "rka_numeric_facts a" "rka_scope_keys a" f n "rk_accounts q" s] assms(2)
    by (simp add: p' rka_ok_def)
  moreover have "map_option rr_status (map_of (rk_reservations (rk_sorted p')) ?h) = Some ''active''"
    using core by (simp add: p' rk_sorted_def rk_core_def map_of_map_vals sort_reservation_def rka_reservation_def)
  ultimately show ?thesis using o by (auto simp del: sha256_hex_nonempty)
qed

text \<open>C4: The books of the risk ledger stay balanced. After any history the ledger can be read, and every account has
  reserved exactly what its active and quarantined reservations hold, has spent exactly its archive
  plus its committed reservations, and both together are within the largest risk value. And it is the arithmetic of the
  operations that keeps it so, not the check before each write: no further operation is turned down because an
  account would disagree with the reservations or because an account is missing.\<close>

theorem risk_books_balance:
  assumes "list_all rk_op_ok ops" and "rk_op_ok opn"
  shows "(\<exists>p. rk_open (run rk_exec ops Absent) = Inr p \<and>
      (\<forall>k x. map_of (rk_accounts p) k = Some x \<longrightarrow>
        ac_reserved x = entry_sum (retained holds p) k \<and>
        ac_spent x = ac_archived_spent x + entry_sum (retained is_committed p) k \<and>
        0 \<le> ac_archived_spent x \<and> ac_spent x + ac_reserved x \<le> MAX_RISK_VALUE)) \<and>
    (\<forall>e. fst (rk_exec opn (run rk_exec ops Absent)) = Inl e \<longrightarrow> \<not> accounting_error e)"
proof -
  let ?st = "run rk_exec ops Absent"
  have inv: "rk_state_inv ?st" by (rule risk.inv_reachable [OF assms(1)])
  obtain p where p: "rk_open ?st = Inr p" using readable_opens [OF inv] run_readable by blast
  have "rk_inv p" by (rule rk_open_inv [OF inv p])
  then have "\<forall>k x. map_of (rk_accounts p) k = Some x \<longrightarrow> account_ok (rk_reservations p) k x"
    by (simp add: rk_inv_def rk_core_def accounts_ok_def)
  then show ?thesis
    using p exec_books_sound [OF inv assms(2)] unfolding account_ok_def entry_sum_retained books_sound_def by blast
qed

text \<open>C18: What an account has spent never falls: not by releasing, quarantining, delivering receipts,
  pruning or archiving, and not by operations that raise.\<close>

theorem risk_spending_is_final:
  assumes "list_all rk_op_ok (xs @ ys)"
  shows "spent_of (run rk_exec xs Absent) k \<le> spent_of (run rk_exec (xs @ ys) Absent) k"
  by (rule risk.measure_history [OF assms])

text \<open>C8: A request identifier is accepted once: after an accepted reservation, whatever operations
  run, every further reservation under the same lineage and request identifier is refused while the
  clock is within an hour of the expiry of the first.\<close>

theorem risk_replay_refused:
  assumes "rk_state_inv st" and "rka_ok a"
    and "rk_reserve a now st = (Inr res, st')" and "rres_accepted res"
    and "list_all rk_op_ok ops"
    and "list_all (before (of_int (rka_expires_at a + REPLAY_TOMBSTONE_RETENTION_S))) ops"
    and "rka_lineage_id b = rka_lineage_id a" and "rka_request_id b = rka_request_id a"
    and "later < of_int (rka_expires_at a + REPLAY_TOMBSTONE_RETENTION_S)"
  shows "\<exists>err. fst (rk_reserve b later (run rk_exec ops st')) = Inl err"
proof -
  let ?h = "rk_request_hash (rka_lineage_id a) (rka_request_id a)" and ?st = "run rk_exec ops st'"
  have "rk_state_inv st'" using reserve_state_advances [OF assms(1,2)] assms(3) by (metis snd_conv state_advances_def)
  moreover have "state_recorded (rka_expires_at a) ?h st'"
    by (rule reserve_accepted [OF assms(1-4)])
       (auto simp: advances_def recorded_def has_key_iff rka_reservation_def intro!: persist_recorded)
  ultimately have st: "rk_state_inv ?st" "state_recorded (rka_expires_at a) ?h ?st"
    using run_recorded assms(5,6) by blast+
  show ?thesis
  proof (cases "rbind (rk_reserve_checks b) (\<lambda>_. rk_open_pruned ?st later)")
    case (Inr ws)
    obtain w st1 where ws: "ws = (w, st1)" by fastforce
    then have "recorded (rka_expires_at a) ?h (pr_payload w)"
      using open_pruned_recorded(1) [OF st _ assms(9)] Inr by auto
    then obtain err where "rk_reserve_locked b later (pr_payload w) = Inl err"
      using reserve_refused [of "rka_expires_at a" b "pr_payload w" later] assms(7,8) by auto
    then show ?thesis using Inr ws by (simp add: rk_reserve_def rk_commit_def)
  qed (simp add: rk_reserve_def)
qed


text \<open>Settling an active reservation from its own session always succeeds, and moves exactly its
  amounts: a commit turns what the reservation held into spending, a release gives it back, in the
  reservation's own accounts and nowhere else.\<close>

theorem risk_outcome_settles:
  assumes "rk_state_inv st" and "rk_open st = Inr p"
    and "require_string (JStr request_id) ''request_id'' 1024 = Inr request_id"
    and "require_string (JStr session_id) ''session_id'' 1024 = Inr session_id"
    and "require_string (JStr lineage_id) ''lineage_id'' 1024 = Inr lineage_id"
    and "map_of (rk_reservations p) (rk_request_hash lineage_id request_id) = Some r"
    and "owned (sha256_hex session_id) (sha256_hex lineage_id) r" and "rr_status r = ''active''"
    and "outcome \<in> {''committed'', ''released''}"
  shows "\<exists>res q. rk_record_outcome lineage_id session_id request_id outcome now st = (Inr res, Stored q) \<and>
    (\<forall>k x. map_of (rk_accounts p) k = Some x \<longrightarrow>
      map_of (rk_accounts q) k = Some \<lparr>
        ac_spent = ac_spent x + (if outcome = ''committed'' then entry_sum (charges (rr_amounts r) (rr_scope_keys r)) k else 0),
        ac_reserved = ac_reserved x - entry_sum (charges (rr_amounts r) (rr_scope_keys r)) k,
        ac_archived_spent = ac_archived_spent x\<rparr>)"
proof -
  have inv: "rk_inv p" by (rule rk_open_inv [OF assms(1,2)])
  have core: "rk_core p" using inv by (simp add: rk_inv_def)
  obtain res p' where l: "rk_outcome_locked (rk_request_hash lineage_id request_id) (sha256_hex session_id)
      (sha256_hex lineage_id) outcome now p = Inr (res, Some p')"
    using outcome_locked_total [OF inv assms(6-9)] by blast
  note v = outcome_validates [OF inv assms(9) l]
  have wf: "wf_dict (rk_accounts p')"
    using outcome_advances [OF core assms(9) l] by (simp add: advances_def rk_core_def accounts_ok_def)
  obtain acc where acc: "adjust_accounts (if outcome = ''committed'' then shift 1 (- 1) 0 else shift 0 (- 1) 0)
      (rr_charges r) (rk_accounts p) = Inr acc" "rk_accounts p' = acc"
    by (rule outcome_locked_write [OF l]) (use assms(6) in auto)
  have k: "\<forall>k \<in> set (keys (rr_charges r)). has_key (rk_accounts p) k"
    using rk_core_reservation(2,3) [OF core assms(6)] unfolding accounts_ok_def by (metis snd_conv)
  have "map_of acc j = map_option (if outcome = ''committed'' then shift 1 (- 1) 0 (entry_sum (rr_charges r) j)
      else shift 0 (- 1) 0 (entry_sum (rr_charges r) j)) (map_of (rk_accounts p) j)" for j
    using adjust_shift [OF k, of 1 "- 1" 0] adjust_shift [OF k, of 0 "- 1" 0] acc(1) by auto
  then have "map_of (rk_accounts (rk_sorted p')) j = map_option (if outcome = ''committed''
      then shift 1 (- 1) 0 (entry_sum (rr_charges r) j) else shift 0 (- 1) 0 (entry_sum (rr_charges r) j))
      (map_of (rk_accounts p) j)" for j
    using wf acc(2) by (simp add: rk_sorted_def)
  moreover have "rk_record_outcome lineage_id session_id request_id outcome now st = (Inr res, Stored (rk_sorted p'))"
    using l v assms(2-5,9) by (simp add: rk_record_outcome_def rk_commit_def rk_persist_def)
  ultimately show ?thesis by (auto simp: shift_def)
qed

text \<open>A quarantined reservation is never given back: releasing it raises a conflict and leaves the
  ledger as it was, so its amounts stay reserved until it is committed or archived as spent.\<close>

theorem risk_quarantined_never_released:
  assumes "rk_open st = Inr p"
    and "map_of (rk_reservations p) (rk_request_hash lineage_id (strip request_id)) = Some r"
    and "rr_status r = ''quarantined''"
  shows "\<exists>err. rk_record_outcome lineage_id session_id request_id ''released'' now st = (Inl err, st)"
proof -
  have "\<exists>err. rk_outcome_locked (rk_request_hash lineage_id (strip request_id)) (sha256_hex (strip session_id))
      (sha256_hex (strip lineage_id)) ''released'' now p = Inl err"
    using assms(2,3) by (simp add: rk_outcome_locked_def)
  then obtain err where "rk_outcome_locked (rk_request_hash lineage_id (strip request_id)) (sha256_hex (strip session_id))
      (sha256_hex (strip lineage_id)) ''released'' now p = Inl err" ..
  then show ?thesis
    using assms(1) by (simp add: rk_record_outcome_def rk_commit_def require_string_def)
qed

text \<open>C39: \<open>reserve\<close> hashes the request identifier as given, \<open>record_outcome\<close> hashes it without
  surrounding blanks. So a reservation accepted under a padded identifier can never be settled under that identifier: whatever
  operations run, unless one of them reserves the stripped identifier, recording an outcome finds no reservation
  (or the two texts collide under the hash).\<close>

theorem risk_padded_request_not_found:
  assumes "rk_state_inv st" and "rka_ok a"
    and "rk_reserve a now st = (Inr res, st')" and "rres_accepted res"
    and "rk_open st = Inr p"
    and "\<not> has_key (rk_reservations p) (rk_request_hash (rka_lineage_id a) (strip (rka_request_id a)))"
    and "list_all rk_op_ok ops"
    and "\<not> list_ex (reserves (rk_request_hash (rka_lineage_id a) (strip (rka_request_id a)))) ops"
    and "outcome \<in> {''committed'', ''released''}"
  shows "fst (rk_record_outcome (rka_lineage_id a) (rka_session_id a) (rka_request_id a) outcome later (run rk_exec ops st')) =
      Inl (RiskBudgetError ''risk reservation does not exist'') \<or>
    rk_request_hash (rka_lineage_id a) (strip (rka_request_id a)) = rk_request_hash (rka_lineage_id a) (rka_request_id a)"
proof (rule disjCI)
  let ?h = "rk_request_hash (rka_lineage_id a) (strip (rka_request_id a))" and ?st = "run rk_exec ops st'"
  assume ne: "?h \<noteq> rk_request_hash (rka_lineage_id a) (rka_request_id a)"
  have st': "snd (rk_reserve a now st) = st'" using assms(3) by simp
  have "rk_state_inv st'" using reserve_state_advances [OF assms(1,2), of now] by (simp add: st' state_advances_def)
  moreover have "state_unknown ?h st'"
    using reserve_unknown [OF assms(1), of ?h a now] state_unknown_open [OF assms(5), of ?h] assms(6) ne
    by (simp add: st' unknown_def has_key_def)
  ultimately have run: "rk_state_inv ?st" "state_unknown ?h ?st"
    using run_unknown assms(7,8) by blast+
  have "st' \<noteq> Corrupt" by (rule reserve_accepted [OF assms(1-4)]) (simp add: rk_persist_def)
  then obtain q where q: "rk_open ?st = Inr q" using readable_opens [OF run(1)] run_readable by blast
  have "map_of (rk_reservations q) ?h = None"
    using state_unknown_open [OF q] run(2) by (simp add: unknown_def map_of_eq_None_iff)
  moreover have "rk_reserve_checks a = Inr ()"
    using assms(3) by (auto simp: rk_reserve_def split: sum.splits)
  then have "require_string (JStr (rka_request_id a)) ''request_id'' 1024 = Inr (strip (rka_request_id a))"
      "require_string (JStr (rka_session_id a)) ''session_id'' 1024 = Inr (strip (rka_session_id a))"
      "require_string (JStr (rka_lineage_id a)) ''lineage_id'' 1024 = Inr (strip (rka_lineage_id a))"
    by (auto simp: rk_reserve_checks_def rbind_Inr_iff require_string_def split: if_splits)
  ultimately show "fst (rk_record_outcome (rka_lineage_id a) (rka_session_id a) (rka_request_id a) outcome later ?st) =
      Inl (RiskBudgetError ''risk reservation does not exist'')"
    using q assms(9) by (simp add: rk_record_outcome_def rk_outcome_locked_def rk_commit_def)
qed

lemma long_receipt_invalid:
  "256 < length (utf8 (strip rid)) \<Longrightarrow>
    check_lifecycle (Some (l\<lparr>lf_state := ''delivered'', lf_receipt_id := Some rid\<rparr>)) \<noteq> Inr ()"
  by (auto simp: check_lifecycle_def require_string_def rbind_Inr_iff)

lemma ack_lifecycle_write:
  "ack_lifecycle lf i rid = Inr (Some l') \<Longrightarrow> \<exists>l. l' = l\<lparr>lf_state := ''delivered'', lf_receipt_id := Some rid\<rparr>"
  by (auto simp: ack_lifecycle_def split: option.splits if_splits)

lemma deliver_long_receipt:
  assumes "256 < length (utf8 (strip rid))" "rk_deliver_locked rh sh lh i rid p = Inr (u, Some p')"
  shows "rk_validate p' \<noteq> Inr ()"
proof (cases "map_of (rk_reservations p) rh")
  case None
  then obtain t l where t: "ack_lifecycle (rt_lifecycle t) i rid = Inr (Some l)"
    "p' = p\<lparr>rk_tombstones := AList.update rh (t\<lparr>rt_lifecycle := Some l\<rparr>) (rk_tombstones p)\<rparr>"
    using assms(2) by (auto simp: rk_deliver_locked_def split: option.splits)
  then have "check_lifecycle (Some l) \<noteq> Inr ()"
    using ack_lifecycle_write long_receipt_invalid [OF assms(1)] by blast
  then have "check_tombstone (rh, t\<lparr>rt_lifecycle := Some l\<rparr>) \<noteq> Inr ()"
    by (auto simp: check_tombstone_def Let_def)
  moreover have "(rh, t\<lparr>rt_lifecycle := Some l\<rparr>) \<in> set (rk_tombstones p')"
    by (rule map_of_SomeD) (simp add: t(2))
  ultimately show ?thesis by (auto simp: rk_validate_Inr)
next
  case (Some r)
  then obtain l where l: "ack_lifecycle (rr_lifecycle r) i rid = Inr (Some l)"
    "p' = p\<lparr>rk_reservations := AList.update rh (r\<lparr>rr_lifecycle := Some l\<rparr>) (rk_reservations p)\<rparr>"
    using assms(2) by (auto simp: rk_deliver_locked_def split: option.splits)
  then have "check_lifecycle (Some l) \<noteq> Inr ()"
    using ack_lifecycle_write long_receipt_invalid [OF assms(1)] by blast
  then have "check_reservation (rh, r\<lparr>rr_lifecycle := Some l\<rparr>) \<noteq> Inr ()"
    by (auto simp: check_reservation_Inr)
  moreover have "(rh, r\<lparr>rr_lifecycle := Some l\<rparr>) \<in> set (rk_reservations p')"
    by (rule map_of_SomeD) (simp add: l(2))
  ultimately show ?thesis by (auto simp: rk_validate_Inr)
qed

text \<open>A receipt identifier of more than 256 bytes passes the argument check of
  \<open>mark_lifecycle_delivered\<close> (1024 bytes) but never the check of the ledger before writing: the
  record can not be acknowledged with it, the ledger stays as it was.\<close>

theorem risk_long_receipt_never_delivered:
  assumes "256 < length (utf8 (strip receipt_id))"
  shows "snd (rk_mark_lifecycle_delivered lineage_id session_id request_hash lifecycle_id receipt_id st) = st"
proof -
  have c: "snd (rk_commit st m) = st" if "\<And>r p'. m = Inr (r, Some p') \<Longrightarrow> rk_validate p' \<noteq> Inr ()" for m :: "risk_error + unit \<times> rk_payload option"
    using that by (auto simp: rk_commit_def split: sum.splits option.splits)
  show ?thesis
    unfolding rk_mark_lifecycle_delivered_def
    by (rule c, elim rbind_InrE) (rule deliver_long_receipt [OF assms])
qed

section \<open>Witnesses\<close>

theorem risk_reserve_within_ceilings_witness:
  "\<exists>res st' p. rk_reserve (rk_demo ''r1'') 0 Absent = (Inr res, st') \<and> rres_accepted res \<and> rk_open st' = Inr p \<and>
    used_in (rk_accounts p) (account_key ''destructive_targets'' Agent (at_scope (rka_scope_keys (rk_demo ''r1'')) Agent)) \<le> 20"
proof -
  obtain res st' where r: "rk_reserve (rk_demo ''r1'') 0 Absent = (Inr res, st')" "rres_accepted res"
    using rk_demo_accepted [of "''r1''"] by auto
  have "(''destructive_targets'', 2) \<in> set (rka_numeric_facts (rk_demo ''r1''))"
    "(''destructive_targets'', \<lparr>at_session = 10, at_agent = 20, at_lineage = 30\<rparr>) \<in> set (rka_ceilings (rk_demo ''r1''))"
    by (simp_all add: rk_demo_def)
  moreover obtain p where p: "rk_open st' = Inr p" "\<forall>f n c s. (f, n) \<in> set (rka_numeric_facts (rk_demo ''r1'')) \<longrightarrow>
      (f, c) \<in> set (rka_ceilings (rk_demo ''r1'')) \<longrightarrow> 0 < n \<longrightarrow>
      used_in (rk_accounts p) (account_key f s (at_scope (rka_scope_keys (rk_demo ''r1'')) s)) \<le> at_scope c s"
    using risk_reserve_within_ceilings [OF rk_absent_inv rk_demo_ok r] by (elim exE conjE) (rule that)
  ultimately have "used_in (rk_accounts p) (account_key ''destructive_targets'' Agent
      (at_scope (rka_scope_keys (rk_demo ''r1'')) Agent)) \<le> at_scope \<lparr>at_session = 10, at_agent = 20, at_lineage = 30\<rparr> Agent"
    using zero_less_numeral by blast
  then show ?thesis using r p(1) by simp
qed

theorem risk_books_balance_witness:
  "\<exists>p. rk_open (run rk_exec [RkReserve (rk_demo ''r1'') 0] Absent) = Inr p \<and>
    entry_sum (retained holds p) rk_demo_key = 2 \<and> entry_sum (retained is_committed p) rk_demo_key = 0"
proof (rule rk_demo_state [of "''r1''"])
  fix res p
  assume r: "rk_reserve (rk_demo ''r1'') 0 Absent = (Inr res, rk_persist p)"
    and o: "rk_open (rk_persist p) = Inr (rk_sorted p)"
    and k: "map_of (rk_accounts (rk_sorted p)) rk_demo_key = Some \<lparr>ac_spent = 0, ac_reserved = 2, ac_archived_spent = 0\<rparr>"
  have "rk_open (run rk_exec [RkReserve (rk_demo ''r1'') 0] Absent) = Inr (rk_sorted p)"
    using r o by (simp add: rk_exec_def)
  moreover have "list_all rk_op_ok [RkReserve (rk_demo ''r1'') 0]" "rk_op_ok (RkPrune 200)"
    by (simp_all add: rk_op_ok_def rk_demo_ok)
  ultimately show ?thesis using risk_books_balance [THEN conjunct1] k by fastforce
qed simp

theorem risk_spending_is_final_witness:
  "spent_of (run rk_exec [RkReserve (rk_demo ''r1'') 0] Absent) rk_demo_key \<le>
    spent_of (run rk_exec ([RkReserve (rk_demo ''r1'') 0] @
      [RkOutcome ''root'' ''s1'' ''r1'' ''committed'' 1, RkPrune 200]) Absent) rk_demo_key"
  by (rule risk_spending_is_final) (simp add: rk_op_ok_def rk_demo_ok)

theorem risk_replay_refused_witness:
  "\<exists>res st'. rk_reserve (rk_demo ''r1'') 0 Absent = (Inr res, st') \<and>
    (\<exists>err. fst (rk_reserve (rk_demo ''r1'') 3000 (run rk_exec [RkPrune 2000] st')) = Inl err)"
proof -
  obtain res st' where r: "rk_reserve (rk_demo ''r1'') 0 Absent = (Inr res, st')" "rres_accepted res"
    using rk_demo_accepted [of "''r1''"] by auto
  have "\<exists>err. fst (rk_reserve (rk_demo ''r1'') 3000 (run rk_exec [RkPrune 2000] st')) = Inl err"
    by (rule risk_replay_refused [OF rk_absent_inv rk_demo_ok r])
       (simp_all add: rk_op_ok_def before_def rk_demo_def REPLAY_TOMBSTONE_RETENTION_S_def)
  then show ?thesis using r by blast
qed


theorem risk_padded_request_not_found_witness:
  "\<exists>res st'. rk_reserve (rk_demo '' r1'') 0 Absent = (Inr res, st') \<and> rres_accepted res \<and>
    (fst (rk_record_outcome ''root'' ''s1'' '' r1'' ''committed'' 60 (run rk_exec [RkPrune 50] st')) =
        Inl (RiskBudgetError ''risk reservation does not exist'')
     \<or> rk_request_hash ''root'' ''r1'' = rk_request_hash ''root'' '' r1'')"
proof -
  obtain res st' where r: "rk_reserve (rk_demo '' r1'') 0 Absent = (Inr res, st')" "rres_accepted res"
    using rk_demo_accepted [of "'' r1''"] by auto
  have o: "rk_open Absent = Inr rk_fresh" using rk_fresh_inv by (simp add: rk_open_def rk_load_def rk_inv_def)
  have demo: "rka_lineage_id (rk_demo '' r1'') = ''root''" "rka_session_id (rk_demo '' r1'') = ''s1''"
    "rka_request_id (rk_demo '' r1'') = '' r1''" by (simp_all add: rk_demo_def)
  have "strip '' r1'' = ''r1''" by code_simp
  then show ?thesis
    using risk_padded_request_not_found [OF rk_absent_inv rk_demo_ok r o, of "[RkPrune 50]" "''committed''" 60] r
    by (simp add: demo rk_fresh_def has_key_def rk_op_ok_def reserves_def)
qed

theorem risk_outcome_settles_witness:
  "\<exists>res st res' q. rk_reserve (rk_demo ''r1'') 0 Absent = (Inr res, st) \<and>
    rk_record_outcome ''root'' ''s1'' ''r1'' ''committed'' 1 st = (Inr res', Stored q) \<and>
    map_of (rk_accounts q) rk_demo_key = Some \<lparr>ac_spent = 2, ac_reserved = 0, ac_archived_spent = 0\<rparr>"
proof (rule rk_demo_state [of "''r1''"])
  fix res p
  let ?r = "sort_reservation (rka_reservation (rk_demo ''r1'') 0 100)"
  assume r: "rk_reserve (rk_demo ''r1'') 0 Absent = (Inr res, rk_persist p)" and inv: "rk_inv p"
    and o: "rk_open (rk_persist p) = Inr (rk_sorted p)"
    and h: "map_of (rk_reservations p) (rk_demo_hash ''r1'') = Some (rka_reservation (rk_demo ''r1'') 0 100)"
    and k: "map_of (rk_accounts (rk_sorted p)) rk_demo_key = Some \<lparr>ac_spent = 0, ac_reserved = 2, ac_archived_spent = 0\<rparr>"
  have s: "require_string (JStr ''r1'') ''request_id'' 1024 = Inr ''r1''"
    "require_string (JStr ''s1'') ''session_id'' 1024 = Inr ''s1''"
    "require_string (JStr ''root'') ''lineage_id'' 1024 = Inr ''root''" by code_simp+
  have st: "rk_state_inv (rk_persist p)" using inv by (simp add: rk_inv_def rk_inv_persist)
  have f: "map_of (rk_reservations (rk_sorted p)) (rk_request_hash ''root'' ''r1'') = Some ?r"
    using h inv by (simp add: rk_sorted_def rk_inv_def rk_core_def map_of_map_vals rk_demo_hash_def)
  have "owned (sha256_hex ''s1'') (sha256_hex ''root'') ?r" "rr_status ?r = ''active''"
    by (simp_all add: owned_def sort_reservation_def rka_reservation_def rka_scope_keys_def rk_demo_def)
  from risk_outcome_settles [OF st o s f this, of "''committed''" 1] obtain res' q where
    q: "rk_record_outcome ''root'' ''s1'' ''r1'' ''committed'' 1 (rk_persist p) = (Inr res', Stored q)"
      "map_of (rk_accounts q) rk_demo_key = Some \<lparr>ac_spent = entry_sum (rr_charges ?r) rk_demo_key,
        ac_reserved = 2 - entry_sum (rr_charges ?r) rk_demo_key, ac_archived_spent = 0\<rparr>"
    using k by auto
  have "entry_sum (rr_charges ?r) rk_demo_key = 2"
    using charge_of_amount [of "rr_amounts ?r" "rka_scope_keys (rk_demo ''r1'')" "''destructive_targets''" 2 Session,
        OF _ rka_keys_ok]
    by (simp add: sort_reservation_def rka_reservation_def rk_demo_def rka_scope_keys_def rk_demo_key_def)
  then show ?thesis using r q by auto
qed simp

lemma check_quarantined:
  "check_reservation (h, r) = Inr () \<Longrightarrow> check_reservation (h, rk_quarantine h now r) = Inr ()"
  by (simp add: check_reservation_Inr rk_quarantine_def reservation_statuses_def check_lifecycle_def pending_lifecycle_def)

theorem risk_quarantined_never_released_witness:
  "\<exists>st p r err. rk_open st = Inr p \<and> map_of (rk_reservations p) (rk_request_hash ''root'' ''r1'') = Some r \<and>
    rr_status r = ''quarantined'' \<and> rk_record_outcome ''root'' ''s1'' ''r1'' ''released'' 300 st = (Inl err, st)"
proof (rule rk_demo_state [of "''r1''"])
  fix res and p :: rk_payload
  let ?h = "rk_demo_hash ''r1''" and ?r = "rka_reservation (rk_demo ''r1'') 0 100"
  let ?q = "p\<lparr>rk_reservations := AList.update ?h (rk_quarantine ?h 200 ?r) (rk_reservations p)\<rparr>"
  assume inv: "rk_inv p" and h: "map_of (rk_reservations p) ?h = Some ?r"
  note c = rk_inv_checks [OF inv]
  have core: "rk_core ?q"
    using quarantine_advances [OF c(1) h] by (simp add: advances_def rka_reservation_def)
  have "check_reservation (?h, rk_quarantine ?h 200 ?r) = Inr ()"
    by (rule check_quarantined) (use c(5) map_of_SomeD [OF h] in blast)
  then have "rk_validate ?q = Inr ()"
    using c(2-5) by (intro rk_core_validate [OF core]) (auto simp: length_update_old [OF h] dest!: set_update_subset)
  then have o: "rk_open (rk_persist ?q) = Inr (rk_sorted ?q)"
    using rk_validate_sorted [of ?q] by (simp add: rk_open_def rk_load_def rk_persist_def)
  have "strip ''r1'' = ''r1''" by code_simp
  then have f: "map_of (rk_reservations (rk_sorted ?q)) (rk_request_hash ''root'' (strip ''r1'')) =
      Some (sort_reservation (rk_quarantine ?h 200 ?r))"
    using core by (simp add: rk_sorted_def rk_core_def map_of_map_vals rk_demo_hash_def)
  have "rr_status (sort_reservation (rk_quarantine ?h 200 ?r)) = ''quarantined''"
    by (simp add: sort_reservation_def rk_quarantine_def)
  with risk_quarantined_never_released [OF o f this, of "''s1''" 300] o f \<open>strip ''r1'' = ''r1''\<close>
  show ?thesis by metis
qed simp

theorem risk_long_receipt_never_delivered_witness:
  "snd (rk_mark_lifecycle_delivered ''root'' ''s1'' (rk_demo_hash ''r1'') ''id'' (replicate 300 (CHR ''x'')) Absent) = Absent"
proof (rule risk_long_receipt_never_delivered)
  have "strip (replicate 300 (CHR ''x'')) = replicate 300 (CHR ''x'')"
    by (rule strip_no_space) (simp add: is_py_space_def code_point_def)
  moreover have "length (utf8 (replicate 300 (CHR ''x''))) = 300"
    using length_utf8_ascii [of "replicate 300 (CHR ''x'')"] by (simp add: code_point_def)
  ultimately show "256 < length (utf8 (strip (replicate 300 (CHR ''x''))))" by simp
qed

end
