(* ===== verification/Spend_Policy.thy ===== *)
theory Spend_Policy
  imports Canonical_JSON
begin

text \<open>
  The policy half of \<open>spend_budget.py\<close>: the signed \<open>spend_budget\<close> claim and its
  normalization, the operator's price quotes, the quote store, and the request that reserves
  tokens under a quote. All amounts are integers, kept for the two dimensions \<open>("tokens",
  "currency_micros")\<close>; a dictionary with exactly these keys is a record.
\<close>

datatype spend_error =
    SpendBudgetError string string
  | SpendBudgetConflictError string string
  | SpendCanonError canon_error

abbreviation spend_policy_invalid :: "string \<Rightarrow> spend_error" where
  "spend_policy_invalid detail \<equiv> SpendBudgetError ''spend_policy_invalid'' detail"

section \<open>Values kept once per dimension\<close>

datatype dimension = Tokens | CurrencyMicros

record 'v dims =
  at_tokens :: 'v
  at_currency_micros :: 'v

type_synonym amounts = "int dims"

definition dimensions :: "dimension list" where
  "dimensions = [Tokens, CurrencyMicros]"

fun dimension_name :: "dimension \<Rightarrow> string" where
  "dimension_name Tokens = ''tokens''"
| "dimension_name CurrencyMicros = ''currency_micros''"

fun at_dim :: "'v dims \<Rightarrow> dimension \<Rightarrow> 'v" where
  "at_dim a Tokens = at_tokens a"
| "at_dim a CurrencyMicros = at_currency_micros a"

definition dims_of :: "(dimension \<Rightarrow> 'v) \<Rightarrow> 'v dims" where
  "dims_of f = \<lparr>at_tokens = f Tokens, at_currency_micros = f CurrencyMicros\<rparr>"

lemma at_dims_of [simp]: "at_dim (dims_of f) d = f d"
  by (cases d) (simp_all add: dims_of_def)

lemma dim_in_dimensions [simp, intro]: "d \<in> set dimensions"
  by (cases d) (simp_all add: dimensions_def)

lemma all_dimensions: "(\<forall>d \<in> set dimensions. P d) \<longleftrightarrow> (\<forall>d. P d)"
  by blast

lemma dims_eqI: "(\<And>d. at_dim a d = at_dim b d) \<Longrightarrow> a = (b :: 'v dims)"
  by (metis at_dim.simps dims.equality old.unit.exhaust)

lemma dims_eq_iff: "a = (b :: 'v dims) \<longleftrightarrow> (\<forall>d. at_dim a d = at_dim b d)"
  using dims_eqI by blast

definition zero_amounts :: amounts where
  "zero_amounts = dims_of (\<lambda>_. 0)"

definition add_amounts :: "amounts \<Rightarrow> amounts \<Rightarrow> amounts" where
  "add_amounts a b = dims_of (\<lambda>d. at_dim a d + at_dim b d)"

definition sub_amounts :: "amounts \<Rightarrow> amounts \<Rightarrow> amounts" where
  "sub_amounts a b = dims_of (\<lambda>d. at_dim a d - at_dim b d)"

lemma at_amounts [simp]:
  "at_dim zero_amounts d = 0"
  "at_dim (add_amounts a b) d = at_dim a d + at_dim b d"
  "at_dim (sub_amounts a b) d = at_dim a d - at_dim b d"
  by (simp_all add: zero_amounts_def add_amounts_def sub_amounts_def)

section \<open>Reading untrusted values\<close>

definition SPEND_BUDGET_VERSION :: int where
  "SPEND_BUDGET_VERSION = 1"

definition SPEND_QUOTE_VERSION :: int where
  "SPEND_QUOTE_VERSION = 1"

definition SPEND_LEDGER_VERSION :: int where
  "SPEND_LEDGER_VERSION = 1"

definition MAX_SAFE_INTEGER :: int where
  "MAX_SAFE_INTEGER = 9007199254740991"

definition MAX_METERED_TOOLS :: nat where
  "MAX_METERED_TOOLS = 256"

definition non_negative_int :: "jv \<Rightarrow> string \<Rightarrow> spend_error + int" where
  "non_negative_int v field =
    (case v of
       JInt n \<Rightarrow>
         if n < 0 \<or> n > MAX_SAFE_INTEGER
         then Inl (spend_policy_invalid (field @ '' must be between 0 and MAX_SAFE_INTEGER''))
         else Inr n
     | _ \<Rightarrow> Inl (spend_policy_invalid (field @ '' must be a non-negative integer'')))"

definition bounded_string :: "jv \<Rightarrow> string \<Rightarrow> nat \<Rightarrow> spend_error + string" where
  "bounded_string v field max_bytes =
    (case v of
       JStr s \<Rightarrow>
         if strip s = [] then Inl (spend_policy_invalid (field @ '' must be a non-empty string''))
         else if length (utf8 (strip s)) > max_bytes
         then Inl (spend_policy_invalid (field @ '' exceeds the byte limit''))
         else Inr (strip s)
     | _ \<Rightarrow> Inl (spend_policy_invalid (field @ '' must be a non-empty string'')))"

text \<open>\<open>_CURRENCY_RE.fullmatch\<close> and \<open>_DIGEST_RE.fullmatch\<close>.\<close>

definition is_currency :: "string \<Rightarrow> bool" where
  "is_currency s \<longleftrightarrow> length s = 3 \<and> list_all is_upper s"

definition is_digest :: "string \<Rightarrow> bool" where
  "is_digest s \<longleftrightarrow> length s = 64 \<and> list_all is_lower_hex s"

definition currency :: "jv \<Rightarrow> string \<Rightarrow> spend_error + string" where
  "currency v field =
    rbind (bounded_string v field 3) (\<lambda>normalized.
    if is_currency normalized then Inr normalized
    else Inl (spend_policy_invalid (field @ '' must be a three-letter uppercase currency code'')))"

definition reject_unknown_fields :: "(string \<times> jv) list \<Rightarrow> string list \<Rightarrow> string \<Rightarrow> spend_error + unit" where
  "reject_unknown_fields d allowed field =
    ensure (set (keys d) \<subseteq> set allowed) (spend_policy_invalid (field @ '' contains unknown fields''))"

section \<open>The signed claim\<close>

record spend_policy =
  spp_currency :: string
  spp_metered_tools :: "string list"
  spp_ceilings :: "int scoped dims"
  spp_lineage_id :: "string option"

definition scope_keys_exact :: "(string \<times> jv) list \<Rightarrow> bool" where
  "scope_keys_exact d \<longleftrightarrow> set (keys d) = set (map scope_name scopes)"

definition normalize_scopes :: "string \<Rightarrow> jv \<Rightarrow> spend_error + int scoped" where
  "normalize_scopes field v =
    (case v of
       JObj d \<Rightarrow>
         if scope_keys_exact d then
           rbind (non_negative_int (jget d (scope_name Session)) (field @ ''.session'')) (\<lambda>s.
           rbind (non_negative_int (jget d (scope_name Agent)) (field @ ''.agent'')) (\<lambda>a.
           rbind (non_negative_int (jget d (scope_name Lineage)) (field @ ''.lineage'')) (\<lambda>l.
           Inr \<lparr>at_session = s, at_agent = a, at_lineage = l\<rparr>)))
         else Inl (spend_policy_invalid (field @ '' must declare session, agent, and lineage''))
     | _ \<Rightarrow> Inl (spend_policy_invalid (field @ '' must declare session, agent, and lineage'')))"

definition normalize_ceilings :: "jv \<Rightarrow> spend_error + int scoped dims" where
  "normalize_ceilings v =
    (case v of
       JObj d \<Rightarrow>
         rbind (reject_unknown_fields d (map dimension_name dimensions) ''spend_budget.ceilings'') (\<lambda>_.
         rbind (ensure (set (keys d) = set (map dimension_name dimensions))
                  (spend_policy_invalid ''spend_budget.ceilings must declare tokens and currency_micros'')) (\<lambda>_.
         rbind (normalize_scopes ''spend_budget.ceilings.tokens'' (jget d ''tokens'')) (\<lambda>t.
         rbind (normalize_scopes ''spend_budget.ceilings.currency_micros'' (jget d ''currency_micros'')) (\<lambda>m.
         Inr \<lparr>at_tokens = t, at_currency_micros = m\<rparr>))))
     | _ \<Rightarrow> Inl (spend_policy_invalid ''spend_budget.ceilings must be an object''))"

definition normalize_tools :: "jv \<Rightarrow> spend_error + string list" where
  "normalize_tools v =
    (case v of
       JArr items \<Rightarrow>
         if items = [] then Inl (spend_policy_invalid ''spend_budget.metered_tools must be a non-empty array'')
         else if length items > MAX_METERED_TOOLS
         then Inl (spend_policy_invalid ''spend_budget.metered_tools exceeds the entry limit'')
         else
           rbind (mapM (\<lambda>item. bounded_string item ''spend_budget.metered_tools[]'' 256) items) (\<lambda>names.
           let tools = sort (remdups names) in
           if length tools \<noteq> length items
           then Inl (spend_policy_invalid ''spend_budget.metered_tools must not contain duplicates'')
           else Inr tools)
     | _ \<Rightarrow> Inl (spend_policy_invalid ''spend_budget.metered_tools must be a non-empty array''))"

text \<open>The lineage a claim is bound to: the issuer's identifier, or the one already in the claim.\<close>

definition normalize_lineage :: "jv \<Rightarrow> string option \<Rightarrow> bool \<Rightarrow> spend_error + string option" where
  "normalize_lineage claimed lineage_id require_lineage_id =
    rbind (case lineage_id of
         Some l \<Rightarrow>
           if claimed = JNull then Inr ()
           else rbind (bounded_string claimed ''spend_budget.lineage_id'' 256) (\<lambda>c.
             ensure (c = l) (spend_policy_invalid ''spend_budget.lineage_id conflicts with issuance lineage''))
       | None \<Rightarrow> Inr ()) (\<lambda>_.
    let effective = (case lineage_id of Some l \<Rightarrow> JStr l | None \<Rightarrow> claimed) in
    if effective \<noteq> JNull then
      rbind (bounded_string effective ''spend_budget.lineage_id'' 256) (\<lambda>l. Inr (Some l))
    else if require_lineage_id then
      Inl (spend_policy_invalid ''spend_budget.lineage_id is required at runtime'')
    else Inr None)"

definition normalize_spend_budget :: "jv \<Rightarrow> string option \<Rightarrow> bool \<Rightarrow> spend_error + spend_policy" where
  "normalize_spend_budget raw lineage_id require_lineage_id =
    (case raw of
       JObj d \<Rightarrow>
         rbind (reject_unknown_fields d
           [''version'', ''currency'', ''metered_tools'', ''ceilings'', ''lineage_id''] ''spend_budget'') (\<lambda>_.
         rbind (non_negative_int (jget d ''version'') ''spend_budget.version'') (\<lambda>version.
         rbind (ensure (version = SPEND_BUDGET_VERSION)
                  (spend_policy_invalid ''unsupported spend_budget.version'')) (\<lambda>_.
         rbind (currency (jget d ''currency'') ''spend_budget.currency'') (\<lambda>cur.
         rbind (normalize_tools (jget d ''metered_tools'')) (\<lambda>tools.
         rbind (normalize_ceilings (jget d ''ceilings'')) (\<lambda>ceilings.
         rbind (normalize_lineage (jget d ''lineage_id'') lineage_id require_lineage_id) (\<lambda>lineage.
         Inr \<lparr>spp_currency = cur, spp_metered_tools = tools, spp_ceilings = ceilings,
              spp_lineage_id = lineage\<rparr>)))))))
     | _ \<Rightarrow> Inl (spend_policy_invalid ''spend_budget must be an object''))"

text \<open>The dictionary a normalized claim is.\<close>

definition scoped_json :: "int scoped \<Rightarrow> jv" where
  "scoped_json c = JObj (map (\<lambda>s. (scope_name s, JInt (at_scope c s))) scopes)"

definition ceilings_json :: "int scoped dims \<Rightarrow> jv" where
  "ceilings_json c = JObj (map (\<lambda>d. (dimension_name d, scoped_json (at_dim c d))) dimensions)"

definition spend_policy_json :: "spend_policy \<Rightarrow> jv" where
  "spend_policy_json p = JObj (
    [(''version'', JInt SPEND_BUDGET_VERSION), (''currency'', JStr (spp_currency p)),
     (''metered_tools'', JArr (map JStr (spp_metered_tools p))),
     (''ceilings'', ceilings_json (spp_ceilings p))] @
    (case spp_lineage_id p of None \<Rightarrow> [] | Some l \<Rightarrow> [(''lineage_id'', JStr l)]))"

section \<open>Quotes\<close>

record spend_quote =
  q_quote_id :: string
  q_tool_name :: string
  q_model :: string
  q_currency :: string
  q_input_rate :: int
  q_output_rate :: int
  q_valid_from :: int
  q_valid_until :: int

text \<open>The checks of \<open>SpendQuote.__post_init__\<close>, on the values the constructor is given.\<close>

definition make_spend_quote :: "jv \<Rightarrow> jv \<Rightarrow> jv \<Rightarrow> jv \<Rightarrow> jv \<Rightarrow> jv \<Rightarrow> jv \<Rightarrow> jv \<Rightarrow> spend_error + spend_quote" where
  "make_spend_quote quote_id tool_name model cur input_rate output_rate valid_from valid_until =
    rbind (bounded_string quote_id ''quote_id'' 256) (\<lambda>qid.
    rbind (bounded_string tool_name ''tool_name'' 256) (\<lambda>tool.
    rbind (bounded_string model ''model'' 256) (\<lambda>mdl.
    rbind (currency cur ''currency'') (\<lambda>c.
    rbind (non_negative_int input_rate ''input_micros_per_million_tokens'') (\<lambda>ir.
    rbind (non_negative_int output_rate ''output_micros_per_million_tokens'') (\<lambda>orate.
    rbind (non_negative_int valid_from ''valid_from'') (\<lambda>vf.
    rbind (non_negative_int valid_until ''valid_until'') (\<lambda>vu.
    if vu \<le> vf
    then Inl (SpendBudgetError ''spend_quote_invalid'' ''valid_until must be greater than valid_from'')
    else Inr \<lparr>q_quote_id = qid, q_tool_name = tool, q_model = mdl, q_currency = c, q_input_rate = ir,
              q_output_rate = orate, q_valid_from = vf, q_valid_until = vu\<rparr>))))))))"

definition canonical_payload :: "spend_quote \<Rightarrow> jv" where
  "canonical_payload q = JObj
    [(''version'', JInt SPEND_QUOTE_VERSION), (''quote_id'', JStr (q_quote_id q)),
     (''tool_name'', JStr (q_tool_name q)), (''model'', JStr (q_model q)),
     (''currency'', JStr (q_currency q)),
     (''input_micros_per_million_tokens'', JInt (q_input_rate q)),
     (''output_micros_per_million_tokens'', JInt (q_output_rate q)),
     (''valid_from'', JInt (q_valid_from q)), (''valid_until'', JInt (q_valid_until q))]"

definition canonical_digest :: "jv \<Rightarrow> spend_error + string" where
  "canonical_digest v =
    (case canonical_json_bytes v of Inl e \<Rightarrow> Inl (SpendCanonError e) | Inr b \<Rightarrow> Inr (hexlify (sha256 b)))"

definition quote_digest :: "spend_quote \<Rightarrow> spend_error + string" where
  "quote_digest q = canonical_digest (canonical_payload q)"

definition ceil_div :: "int \<Rightarrow> int \<Rightarrow> int" where
  "ceil_div numerator denominator = (numerator + denominator - 1) div denominator"

text \<open>What a number of tokens costs at two rates: the sum of two separately rounded prices.\<close>

definition priced :: "int \<Rightarrow> int \<Rightarrow> int \<Rightarrow> int \<Rightarrow> amounts" where
  "priced input_rate output_rate input_tokens output_tokens =
    \<lparr>at_tokens = input_tokens + output_tokens,
     at_currency_micros = ceil_div (input_tokens * input_rate) 1000000
       + ceil_div (output_tokens * output_rate) 1000000\<rparr>"

definition reserve_amounts :: "spend_quote \<Rightarrow> int \<Rightarrow> int \<Rightarrow> spend_error + amounts" where
  "reserve_amounts q input_tokens output_tokens =
    rbind (non_negative_int (JInt input_tokens) ''input_tokens'') (\<lambda>i.
    rbind (non_negative_int (JInt output_tokens) ''output_tokens'') (\<lambda>j.
    let a = priced (q_input_rate q) (q_output_rate q) i j in
    if at_tokens a > MAX_SAFE_INTEGER then Inl (SpendBudgetError ''spend_amount_overflow'' [])
    else if at_currency_micros a > MAX_SAFE_INTEGER then Inl (SpendBudgetError ''spend_amount_overflow'' [])
    else Inr a))"

section \<open>The quote store\<close>

definition quote_store :: "spend_quote list \<Rightarrow> spend_error + spend_quote dict" where
  "quote_store quotes =
    foldM (\<lambda>by_id q.
      if has_key by_id (q_quote_id q)
      then Inl (SpendBudgetError ''spend_quote_invalid'' ''duplicate quote_id'')
      else Inr (AList.update (q_quote_id q) q by_id)) [] quotes"

definition resolve_quote ::
  "spend_quote dict \<Rightarrow> string \<Rightarrow> string \<Rightarrow> string \<Rightarrow> string \<Rightarrow> int \<Rightarrow> spend_error + spend_quote" where
  "resolve_quote store quote_id tool_name model cur now =
    (case map_of store quote_id of
       None \<Rightarrow> Inl (SpendBudgetError ''spend_quote_unknown'' [])
     | Some q \<Rightarrow>
         if q_tool_name q \<noteq> tool_name \<or> q_model q \<noteq> model
         then Inl (SpendBudgetError ''spend_quote_scope_mismatch'' [])
         else if q_currency q \<noteq> cur then Inl (SpendBudgetError ''spend_quote_currency_mismatch'' [])
         else if now < q_valid_from q then Inl (SpendBudgetError ''spend_quote_not_yet_valid'' [])
         else if now \<ge> q_valid_until q then Inl (SpendBudgetError ''spend_quote_expired'' [])
         else Inr q)"

section \<open>Requests\<close>

record spend_request =
  rq_request_id :: string
  rq_quote_id :: string
  rq_model :: string
  rq_max_input_tokens :: int
  rq_max_output_tokens :: int

text \<open>The checks of \<open>SpendReservationRequest.__post_init__\<close>.\<close>

definition make_spend_request :: "jv \<Rightarrow> jv \<Rightarrow> jv \<Rightarrow> jv \<Rightarrow> jv \<Rightarrow> spend_error + spend_request" where
  "make_spend_request request_id quote_id model max_input_tokens max_output_tokens =
    rbind (bounded_string request_id ''request_id'' 512) (\<lambda>rid.
    rbind (bounded_string quote_id ''quote_id'' 256) (\<lambda>qid.
    rbind (bounded_string model ''model'' 256) (\<lambda>mdl.
    rbind (non_negative_int max_input_tokens ''max_input_tokens'') (\<lambda>i.
    rbind (non_negative_int max_output_tokens ''max_output_tokens'') (\<lambda>j.
    if i + j \<le> 0 then Inl (SpendBudgetError ''spend_request_invalid'' ''at least one reserved token is required'')
    else Inr \<lparr>rq_request_id = rid, rq_quote_id = qid, rq_model = mdl, rq_max_input_tokens = i,
              rq_max_output_tokens = j\<rparr>)))))"

section \<open>Opaque identifiers\<close>

definition opaque_hash :: "string \<Rightarrow> string \<Rightarrow> string" where
  "opaque_hash domain v = sha256_hex (''ardur:'' @ domain @ '':v1'' @ CHR 0x00 # v)"

definition scope_hash :: "scope \<Rightarrow> string \<Rightarrow> string" where
  "scope_hash s v = opaque_hash (''scope:'' @ scope_name s) v"

definition spend_reservation_hash :: "string \<Rightarrow> spend_error + string" where
  "spend_reservation_hash request_id =
    rbind (bounded_string (JStr request_id) ''request_id'' 512) (\<lambda>rid.
    Inr (opaque_hash ''spend-reservation'' rid))"

end
