(* ===== verification/Spend_Ledger.thy ===== *)
theory Spend_Ledger
  imports Spend_Policy Ledger_Spec
begin

text \<open>
  The spend ledger of \<open>spend_budget.py\<close>, class \<open>FileSpendBudgetLedger\<close>: one file per lineage,
  in which the tokens and the money a call may cost are reserved in three scopes before the call
  runs, and settled, released or quarantined afterwards.

  Time is an argument: \<open>now\<close> where the code takes it, \<open>clock\<close> where it calls \<open>time.time()\<close>
  itself. A payload has the shape the code writes, the optional fields of a record included; a
  file with anything else in it is \<open>Corrupt\<close>. The value checks of \<open>_validate_payload\<close> are
  modelled one by one and run on every load and before every write.
\<close>

section \<open>State\<close>

definition MAX_LEDGER_RECORDS :: nat where
  "MAX_LEDGER_RECORDS = 100000"

record spend_totals =
  tt_spent :: amounts
  tt_reserved :: amounts

record spend_record =
  sr_fingerprint :: string
  sr_reservation_hash :: string
  sr_quote_digest :: string
  sr_quote_id_hash :: string
  sr_currency :: string
  sr_reserved :: amounts
  sr_scope_refs :: "string scoped"
  sr_ceilings :: "int scoped dims"
  sr_max_input_tokens :: int
  sr_max_output_tokens :: int
  sr_input_rate :: int
  sr_output_rate :: int
  sr_created_at :: int
  sr_retention_until :: int
  sr_operation :: "string option"
  sr_reason_code :: "string option"
  sr_remaining_at_decision :: "amounts scoped option"
  sr_closed_at :: "int option"
  sr_quarantined_at :: "int option"
  sr_settled_at :: "int option"
  sr_settlement_fingerprint :: "string option"
  sr_usage_proof_digest :: "string option"
  sr_actual :: "amounts option"
  sr_refunded :: "amounts option"
  sr_reconciled :: "bool option"

record spend_payload =
  sp_version :: int
  sp_lineage_id_hash :: string
  sp_scopes :: "spend_totals dict"
  sp_archived_spent :: "amounts dict"
  sp_reservations :: "spend_record dict"
  sp_closed :: "spend_record dict"
  sp_quarantined :: "spend_record dict"

type_synonym spend_state = "spend_payload directory"

record spend_reservation_result =
  srr_accepted :: bool
  srr_reason_code :: string
  srr_reservation_hash :: string
  srr_quote_digest :: string
  srr_currency :: string
  srr_reserved :: amounts
  srr_remaining :: "amounts scoped"
  srr_idempotent :: bool

record spend_close_result =
  scr_operation :: string
  scr_reason_code :: string
  scr_reservation_hash :: string
  scr_quote_digest :: string
  scr_currency :: string
  scr_reserved :: amounts
  scr_actual :: amounts
  scr_refunded :: amounts
  scr_remaining :: "amounts scoped"
  scr_idempotent :: bool
  scr_reconciled :: bool

record spend_reserve_args =
  sa_policy :: jv
  sa_session_id :: string
  sa_agent_id :: string
  sa_request :: spend_request
  sa_quote :: spend_quote
  sa_now :: int
  sa_retention_until :: "int option"

abbreviation spend_ledger_invalid :: spend_error where
  "spend_ledger_invalid \<equiv> SpendBudgetError ''spend_ledger_invalid'' []"

abbreviation accounting_mismatch :: spend_error where
  "accounting_mismatch \<equiv> SpendBudgetError ''spend_ledger_accounting_mismatch'' []"

section \<open>Validation\<close>

definition validate_ledger_int :: "int \<Rightarrow> spend_error + unit" where
  "validate_ledger_int n = ensure (0 \<le> n \<and> n \<le> MAX_SAFE_INTEGER) spend_ledger_invalid"

definition validate_amounts :: "amounts \<Rightarrow> spend_error + unit" where
  "validate_amounts a = checkM (\<lambda>d. validate_ledger_int (at_dim a d)) dimensions"

definition validate_scope_totals :: "spend_totals \<Rightarrow> spend_error + unit" where
  "validate_scope_totals t = rbind (validate_amounts (tt_spent t)) (\<lambda>_. validate_amounts (tt_reserved t))"

datatype container = Reservations | ClosedReservations | QuarantinedReservations

text \<open>The amounts of a closed record, with the \<open>isinstance\<close> check of a missing one.\<close>

definition validate_present :: "amounts option \<Rightarrow> spend_error + amounts" where
  "validate_present a =
    (case a of None \<Rightarrow> Inl spend_ledger_invalid | Some x \<Rightarrow> rbind (validate_amounts x) (\<lambda>_. Inr x))"

definition validate_digest :: "string option \<Rightarrow> spend_error + unit" where
  "validate_digest s = ensure (case s of None \<Rightarrow> False | Some x \<Rightarrow> is_digest x) spend_ledger_invalid"

definition validate_closing :: "spend_record \<Rightarrow> spend_error + unit" where
  "validate_closing r =
    rbind (ensure (sr_operation r \<in> Some ` {''reject'', ''release'', ''settle''}) spend_ledger_invalid) (\<lambda>_.
    if sr_operation r = Some ''settle'' then
      rbind (validate_present (sr_actual r)) (\<lambda>actual.
      rbind (validate_present (sr_refunded r)) (\<lambda>refunded.
      rbind (validate_amounts (sr_reserved r)) (\<lambda>_.
      rbind (ensure (list_all (\<lambda>d. at_dim actual d + at_dim refunded d = at_dim (sr_reserved r) d) dimensions)
               accounting_mismatch) (\<lambda>_.
      rbind (validate_digest (sr_settlement_fingerprint r)) (\<lambda>_.
      validate_digest (sr_usage_proof_digest r))))))
    else if sr_operation r = Some ''release'' then
      rbind (validate_present (sr_actual r)) (\<lambda>actual.
      rbind (validate_present (sr_refunded r)) (\<lambda>refunded.
      rbind (validate_amounts (sr_reserved r)) (\<lambda>_.
      rbind (ensure (actual = zero_amounts) accounting_mismatch) (\<lambda>_.
      ensure (refunded = sr_reserved r) accounting_mismatch))))
    else Inr ())"

definition validate_record :: "container \<Rightarrow> string \<Rightarrow> spend_record \<Rightarrow> spend_error + unit" where
  "validate_record c reservation_hash r =
    rbind (ensure (is_digest reservation_hash) spend_ledger_invalid) (\<lambda>_.
    rbind (ensure (list_all is_digest
             [sr_fingerprint r, sr_reservation_hash r, sr_quote_digest r, sr_quote_id_hash r]) spend_ledger_invalid) (\<lambda>_.
    rbind (ensure (sr_reservation_hash r = reservation_hash) spend_ledger_invalid) (\<lambda>_.
    rbind (ensure (is_currency (sr_currency r)) spend_ledger_invalid) (\<lambda>_.
    rbind (validate_amounts (sr_reserved r)) (\<lambda>_.
    rbind (checkM validate_ledger_int
             [sr_max_input_tokens r, sr_max_output_tokens r, sr_created_at r, sr_retention_until r]) (\<lambda>_.
    rbind (ensure (sr_created_at r < sr_retention_until r) spend_ledger_invalid) (\<lambda>_.
    rbind (ensure (list_all (\<lambda>s. is_digest (at_scope (sr_scope_refs r) s)) scopes) spend_ledger_invalid) (\<lambda>_.
    rbind (checkM (\<lambda>d. checkM (\<lambda>s. validate_ledger_int (at_scope (at_dim (sr_ceilings r) d) s)) scopes)
             dimensions) (\<lambda>_.
    rbind (checkM validate_ledger_int [sr_input_rate r, sr_output_rate r]) (\<lambda>_.
    case c of
      Reservations \<Rightarrow> ensure (sr_operation r = None) spend_ledger_invalid
    | QuarantinedReservations \<Rightarrow> ensure (sr_operation r = Some ''quarantine'') spend_ledger_invalid
    | ClosedReservations \<Rightarrow> validate_closing r))))))))))"

text \<open>How often an account occurs among the three scopes of a record, and what the records of a
  payload add up to: the loops that fill \<open>expected_reserved\<close> and \<open>expected_spent\<close>.\<close>

definition ref_count :: "string scoped \<Rightarrow> string \<Rightarrow> int" where
  "ref_count refs ref = int (length (filter (\<lambda>s. at_scope refs s = ref) scopes))"

definition reserved_part :: "string \<Rightarrow> dimension \<Rightarrow> spend_record \<Rightarrow> int" where
  "reserved_part ref d r = ref_count (sr_scope_refs r) ref * at_dim (sr_reserved r) d"

definition actual_amounts :: "spend_record \<Rightarrow> amounts" where
  "actual_amounts r = (case sr_actual r of None \<Rightarrow> zero_amounts | Some a \<Rightarrow> a)"

definition spent_part :: "string \<Rightarrow> dimension \<Rightarrow> spend_record \<Rightarrow> int" where
  "spent_part ref d r =
    (if sr_operation r = Some ''settle'' then ref_count (sr_scope_refs r) ref * at_dim (actual_amounts r) d else 0)"

definition expected_reserved :: "spend_payload \<Rightarrow> string \<Rightarrow> amounts" where
  "expected_reserved p ref = dims_of (\<lambda>d.
    total (reserved_part ref d) (sp_reservations p) + total (reserved_part ref d) (sp_quarantined p))"

definition expected_spent :: "spend_payload \<Rightarrow> string \<Rightarrow> amounts" where
  "expected_spent p ref = dims_of (\<lambda>d.
    at_dim (dget (sp_archived_spent p) ref zero_amounts) d + total (spent_part ref d) (sp_closed p))"

definition validate_container :: "container \<Rightarrow> spend_totals dict \<Rightarrow> spend_record dict \<Rightarrow> spend_error + unit" where
  "validate_container c scs rs = checkM (\<lambda>(h, r).
    rbind (validate_record c h r) (\<lambda>_.
    ensure (list_all (\<lambda>s. has_key scs (at_scope (sr_scope_refs r) s)) scopes) spend_ledger_invalid)) rs"

definition validate_books :: "spend_payload \<Rightarrow> spend_error + unit" where
  "validate_books p =
    rbind (checkM (\<lambda>(ref, t). rbind (ensure (is_digest ref) spend_ledger_invalid)
             (\<lambda>_. validate_scope_totals t)) (sp_scopes p)) (\<lambda>_.
    rbind (checkM (\<lambda>(ref, a). rbind (ensure (has_key (sp_scopes p) ref) spend_ledger_invalid)
             (\<lambda>_. validate_amounts a)) (sp_archived_spent p)) (\<lambda>_.
    rbind (validate_container Reservations (sp_scopes p) (sp_reservations p)) (\<lambda>_.
    rbind (validate_container ClosedReservations (sp_scopes p) (sp_closed p)) (\<lambda>_.
    rbind (validate_container QuarantinedReservations (sp_scopes p) (sp_quarantined p)) (\<lambda>_.
    checkM (\<lambda>(ref, t).
      rbind (ensure (tt_reserved t = expected_reserved p ref) accounting_mismatch) (\<lambda>_.
      ensure (tt_spent t = expected_spent p ref) accounting_mismatch)) (sp_scopes p))))))"

definition validate_payload :: "spend_payload \<Rightarrow> string \<Rightarrow> spend_error + unit" where
  "validate_payload p lineage_id =
    rbind (ensure (sp_version p = SPEND_LEDGER_VERSION) spend_ledger_invalid) (\<lambda>_.
    rbind (ensure (sp_lineage_id_hash p = scope_hash Lineage lineage_id)
             (SpendBudgetError ''spend_ledger_lineage_mismatch'' [])) (\<lambda>_.
    validate_books p))"

section \<open>Loading and persisting\<close>

definition spend_path :: "string \<Rightarrow> string" where
  "spend_path lineage_id = scope_hash Lineage lineage_id @ ''.json''"

definition spend_fresh :: "string \<Rightarrow> spend_payload" where
  "spend_fresh lineage_id =
    \<lparr>sp_version = SPEND_LEDGER_VERSION, sp_lineage_id_hash = scope_hash Lineage lineage_id,
     sp_scopes = [], sp_archived_spent = [], sp_reservations = [], sp_closed = [], sp_quarantined = []\<rparr>"

definition spend_load :: "spend_state \<Rightarrow> string \<Rightarrow> spend_error + spend_payload" where
  "spend_load st lineage_id =
    (case st (spend_path lineage_id) of
       Absent \<Rightarrow> Inr (spend_fresh lineage_id)
     | Corrupt \<Rightarrow> Inl spend_ledger_invalid
     | Stored p \<Rightarrow> rbind (validate_payload p lineage_id) (\<lambda>_. Inr p))"

definition spend_sorted :: "spend_payload \<Rightarrow> spend_payload" where
  "spend_sorted p =
    p\<lparr>sp_scopes := sort_keys (sp_scopes p), sp_archived_spent := sort_keys (sp_archived_spent p),
      sp_reservations := sort_keys (sp_reservations p), sp_closed := sort_keys (sp_closed p),
      sp_quarantined := sort_keys (sp_quarantined p)\<rparr>"

definition spend_persist :: "spend_state \<Rightarrow> string \<Rightarrow> spend_payload \<Rightarrow> spend_error + spend_state" where
  "spend_persist st lineage_id p =
    rbind (validate_payload p lineage_id) (\<lambda>_. Inr (st(spend_path lineage_id := Stored (spend_sorted p))))"

text \<open>
  The end of a locked section: the payload it writes, if any, and then the result it builds,
  which may raise in its turn.
\<close>

definition spend_commit ::
  "spend_state \<Rightarrow> string \<Rightarrow> spend_error + spend_payload option \<times> (spend_error + 'r) \<Rightarrow>
    (spend_error + 'r) \<times> spend_state" where
  "spend_commit st lineage_id m =
    (case m of
       Inl e \<Rightarrow> (Inl e, st)
     | Inr (None, r) \<Rightarrow> (r, st)
     | Inr (Some p, r) \<Rightarrow>
         (case spend_persist st lineage_id p of Inl e \<Rightarrow> (Inl e, st) | Inr st' \<Rightarrow> (r, st')))"

section \<open>Scope totals\<close>

definition zero_totals :: spend_totals where
  "zero_totals = \<lparr>tt_spent = zero_amounts, tt_reserved = zero_amounts\<rparr>"

text \<open>Reading the totals of a scope creates them on first use.\<close>

definition scope_totals :: "spend_totals dict \<Rightarrow> string \<Rightarrow> spend_error + spend_totals \<times> spend_totals dict" where
  "scope_totals scs ref =
    (case map_of scs ref of
       None \<Rightarrow> Inr (zero_totals, AList.update ref zero_totals scs)
     | Some t \<Rightarrow> rbind (validate_scope_totals t) (\<lambda>_. Inr (t, scs)))"

definition room :: "int scoped dims \<Rightarrow> scope \<Rightarrow> spend_totals \<Rightarrow> amounts" where
  "room ceilings s t = dims_of (\<lambda>d.
    max 0 (at_scope (at_dim ceilings d) s - at_dim (tt_spent t) d - at_dim (tt_reserved t) d))"

definition spend_remaining ::
  "int scoped dims \<Rightarrow> string scoped \<Rightarrow> spend_totals dict \<Rightarrow> spend_error + amounts scoped \<times> spend_totals dict" where
  "spend_remaining ceilings refs scs =
    rbind (scope_totals scs (at_session refs)) (\<lambda>(t1, scs1).
    rbind (scope_totals scs1 (at_agent refs)) (\<lambda>(t2, scs2).
    rbind (scope_totals scs2 (at_lineage refs)) (\<lambda>(t3, scs3).
    Inr (\<lparr>at_session = room ceilings Session t1, at_agent = room ceilings Agent t2,
          at_lineage = room ceilings Lineage t3\<rparr>, scs3))))"

text \<open>The loops that change the totals of the three scopes of a record.\<close>

definition adjust_scopes ::
  "(spend_totals \<Rightarrow> spend_totals) \<Rightarrow> string scoped \<Rightarrow> spend_totals dict \<Rightarrow> spend_error + spend_totals dict" where
  "adjust_scopes g refs scs =
    foldM (\<lambda>scs s. rbind (scope_totals scs (at_scope refs s)) (\<lambda>(t, scs').
      Inr (AList.update (at_scope refs s) (g t) scs'))) scs scopes"

definition add_totals :: "amounts \<Rightarrow> amounts \<Rightarrow> spend_totals \<Rightarrow> spend_totals" where
  "add_totals spent reserved t =
    \<lparr>tt_spent = add_amounts (tt_spent t) spent, tt_reserved = add_amounts (tt_reserved t) reserved\<rparr>"

definition negate :: "amounts \<Rightarrow> amounts" where
  "negate a = sub_amounts zero_amounts a"

section \<open>Results\<close>

definition remaining_from_record :: "spend_payload \<Rightarrow> spend_record \<Rightarrow> spend_error + amounts scoped" where
  "remaining_from_record p r =
    rbind (spend_remaining (sr_ceilings r) (sr_scope_refs r) (sp_scopes p)) (\<lambda>(m, _). Inr m)"

definition result_from_record ::
  "spend_record \<Rightarrow> bool \<Rightarrow> string \<Rightarrow> spend_payload \<Rightarrow> bool \<Rightarrow> spend_error + spend_reservation_result" where
  "result_from_record r accepted reason_code p idem =
    rbind (remaining_from_record p r) (\<lambda>remaining.
    Inr \<lparr>srr_accepted = accepted, srr_reason_code = reason_code,
         srr_reservation_hash = sr_reservation_hash r, srr_quote_digest = sr_quote_digest r,
         srr_currency = sr_currency r, srr_reserved = sr_reserved r, srr_remaining = remaining,
         srr_idempotent = idem\<rparr>)"

definition or_default :: "'a option \<Rightarrow> 'a \<Rightarrow> 'a" where
  "or_default x d = (case x of None \<Rightarrow> d | Some y \<Rightarrow> y)"

definition close_result ::
  "spend_record \<Rightarrow> spend_payload \<Rightarrow> bool \<Rightarrow> bool option \<Rightarrow> spend_error + spend_close_result" where
  "close_result r p idem reconciled =
    (let operation = or_default (sr_operation r) ''quarantine'' in
     rbind (remaining_from_record p r) (\<lambda>remaining.
     Inr \<lparr>scr_operation = operation,
          scr_reason_code = or_default (sr_reason_code r) ''spend_reservation_quarantined'',
          scr_reservation_hash = sr_reservation_hash r, scr_quote_digest = sr_quote_digest r,
          scr_currency = sr_currency r, scr_reserved = sr_reserved r,
          scr_actual = (if operation = ''settle'' then actual_amounts r else zero_amounts),
          scr_refunded = or_default (sr_refunded r) zero_amounts,
          scr_remaining = remaining, scr_idempotent = idem,
          scr_reconciled = or_default reconciled (or_default (sr_reconciled r) False)\<rparr>))"

definition require_fingerprint :: "spend_record \<Rightarrow> string \<Rightarrow> spend_error + unit" where
  "require_fingerprint r fingerprint =
    ensure (sr_fingerprint r = fingerprint) (SpendBudgetConflictError ''spend_request_conflict''
      ''request_id was reused with different reservation semantics'')"

definition require_session_scope :: "spend_record \<Rightarrow> string \<Rightarrow> spend_error + unit" where
  "require_session_scope r session_id =
    ensure (at_session (sr_scope_refs r) = scope_hash Session session_id)
      (SpendBudgetConflictError ''spend_reservation_session_mismatch'' [])"

section \<open>Pruning\<close>

text \<open>A settled record leaves what it spent to the archive of its scopes; a missing \<open>actual\<close>
  would be the \<open>KeyError\<close> that validation excludes.\<close>

definition archive_scope :: "spend_record \<Rightarrow> amounts dict \<Rightarrow> scope \<Rightarrow> amounts dict" where
  "archive_scope r archived s =
    (let ref = at_scope (sr_scope_refs r) s
     in AList.update ref (add_amounts (dget archived ref zero_amounts) (actual_amounts r)) archived)"

definition archive_record :: "spend_record \<Rightarrow> amounts dict \<Rightarrow> amounts dict" where
  "archive_record r archived =
    (if sr_operation r = Some ''settle'' then foldl (archive_scope r) archived scopes else archived)"

definition prune_closed :: "int \<Rightarrow> spend_payload \<Rightarrow> string \<times> spend_record \<Rightarrow> spend_payload" where
  "prune_closed now p e =
    (if sr_retention_until (snd e) > now then p
     else p\<lparr>sp_archived_spent := archive_record (snd e) (sp_archived_spent p),
            sp_closed := AList.delete (fst e) (sp_closed p)\<rparr>)"

definition prune_terminal_records :: "int \<Rightarrow> spend_payload \<Rightarrow> spend_payload" where
  "prune_terminal_records now p = foldl (prune_closed now) p (sp_closed p)"

section \<open>Reserving\<close>

text \<open>The first scope and dimension in which the request exceeds what remains.\<close>

definition first_breach :: "amounts \<Rightarrow> amounts scoped \<Rightarrow> (scope \<times> dimension) option" where
  "first_breach requested remaining =
    find (\<lambda>(s, d). at_dim requested d > at_dim (at_scope remaining s) d) (List.product scopes dimensions)"

definition sa_scope_refs :: "spend_reserve_args \<Rightarrow> string \<Rightarrow> string scoped" where
  "sa_scope_refs a lineage_id =
    \<lparr>at_session = scope_hash Session (sa_session_id a), at_agent = scope_hash Agent (sa_agent_id a),
     at_lineage = scope_hash Lineage lineage_id\<rparr>"

definition refs_json :: "string scoped \<Rightarrow> jv" where
  "refs_json refs = JObj (map (\<lambda>s. (scope_name s, JStr (at_scope refs s))) scopes)"

definition fingerprint_payload ::
  "spend_reserve_args \<Rightarrow> spend_policy \<Rightarrow> string \<Rightarrow> string \<Rightarrow> string \<Rightarrow> jv" where
  "fingerprint_payload a pol lineage_id qdigest reservation_hash = JObj
    [(''version'', JInt SPEND_LEDGER_VERSION),
     (''lineage_id_hash'', JStr (scope_hash Lineage lineage_id)),
     (''scope_refs'', refs_json (sa_scope_refs a lineage_id)),
     (''policy'', spend_policy_json pol), (''quote_digest'', JStr qdigest),
     (''request'', JObj
       [(''request_id_hash'', JStr reservation_hash),
        (''quote_id_hash'', JStr (opaque_hash ''quote'' (rq_quote_id (sa_request a)))),
        (''model_hash'', JStr (opaque_hash ''model'' (rq_model (sa_request a)))),
        (''max_input_tokens'', JInt (rq_max_input_tokens (sa_request a))),
        (''max_output_tokens'', JInt (rq_max_output_tokens (sa_request a)))])]"

text \<open>What \<open>reserve\<close> does before it takes the lock: the lineage and the record it would write.\<close>

definition spend_prepare :: "spend_reserve_args \<Rightarrow> spend_error + string \<times> spend_record" where
  "spend_prepare a =
    rbind (normalize_spend_budget (sa_policy a) None True) (\<lambda>pol.
    let lineage_id = or_default (spp_lineage_id pol) []; q = sa_quote a; rq = sa_request a in
    rbind (ensure (q_currency q = spp_currency pol)
             (SpendBudgetError ''spend_quote_currency_mismatch'' [])) (\<lambda>_.
    rbind (ensure (q_quote_id q = rq_quote_id rq \<and> q_model q = rq_model rq)
             (SpendBudgetError ''spend_quote_scope_mismatch'' [])) (\<lambda>_.
    rbind (ensure (q_valid_from q \<le> sa_now a) (SpendBudgetError ''spend_quote_not_yet_valid'' [])) (\<lambda>_.
    rbind (ensure (sa_now a < q_valid_until q) (SpendBudgetError ''spend_quote_expired'' [])) (\<lambda>_.
    rbind (non_negative_int (JInt (or_default (sa_retention_until a) (q_valid_until q))) ''retention_until'') (\<lambda>retention.
    rbind (ensure (sa_now a < retention) (SpendBudgetError ''spend_retention_expired'' [])) (\<lambda>_.
    rbind (reserve_amounts q (rq_max_input_tokens rq) (rq_max_output_tokens rq)) (\<lambda>reserved.
    rbind (spend_reservation_hash (rq_request_id rq)) (\<lambda>reservation_hash.
    rbind (quote_digest q) (\<lambda>qdigest.
    rbind (canonical_digest (fingerprint_payload a pol lineage_id qdigest reservation_hash)) (\<lambda>fingerprint.
    Inr (lineage_id,
      \<lparr>sr_fingerprint = fingerprint, sr_reservation_hash = reservation_hash, sr_quote_digest = qdigest,
       sr_quote_id_hash = opaque_hash ''quote'' (rq_quote_id rq), sr_currency = q_currency q,
       sr_reserved = reserved, sr_scope_refs = sa_scope_refs a lineage_id,
       sr_ceilings = spp_ceilings pol, sr_max_input_tokens = rq_max_input_tokens rq,
       sr_max_output_tokens = rq_max_output_tokens rq, sr_input_rate = q_input_rate q,
       sr_output_rate = q_output_rate q, sr_created_at = sa_now a, sr_retention_until = retention,
       sr_operation = None, sr_reason_code = None, sr_remaining_at_decision = None,
       sr_closed_at = None, sr_quarantined_at = None, sr_settled_at = None,
       sr_settlement_fingerprint = None, sr_usage_proof_digest = None, sr_actual = None,
       sr_refunded = None, sr_reconciled = None\<rparr>))))))))))))"

definition reject_record :: "spend_record \<Rightarrow> scope \<times> dimension \<Rightarrow> amounts scoped \<Rightarrow> int \<Rightarrow> spend_record" where
  "reject_record r breach remaining now =
    r\<lparr>sr_operation := Some ''reject'',
      sr_reason_code := Some (''spend_'' @ scope_name (fst breach) @ ''_'' @ dimension_name (snd breach) @ ''_exhausted''),
      sr_remaining_at_decision := Some remaining, sr_closed_at := Some now\<rparr>"

text \<open>\<open>str(reason or default)\<close>: an empty reason counts as missing.\<close>

definition closed_reason :: "spend_record \<Rightarrow> string" where
  "closed_reason r = (let s = or_default (sr_reason_code r) [] in
     if s = [] then ''spend_request_already_closed'' else s)"

definition spend_reserve_new ::
  "spend_record \<Rightarrow> int \<Rightarrow> spend_payload \<Rightarrow>
    spend_error + spend_payload option \<times> (spend_error + spend_reservation_result)" where
  "spend_reserve_new r now p =
    rbind (spend_remaining (sr_ceilings r) (sr_scope_refs r) (sp_scopes p)) (\<lambda>(remaining, scs).
    case first_breach (sr_reserved r) remaining of
      Some breach \<Rightarrow>
        let r' = reject_record r breach remaining now;
            p' = p\<lparr>sp_scopes := scs, sp_closed := AList.update (sr_reservation_hash r) r' (sp_closed p)\<rparr>
        in Inr (Some p', result_from_record r' False (or_default (sr_reason_code r') []) p' False)
    | None \<Rightarrow>
        rbind (adjust_scopes (add_totals zero_amounts (sr_reserved r)) (sr_scope_refs r) scs) (\<lambda>scs'.
        let p' = p\<lparr>sp_scopes := scs',
              sp_reservations := AList.update (sr_reservation_hash r) r (sp_reservations p)\<rparr>
        in Inr (Some p', result_from_record r True ''spend_reserved'' p' False)))"

definition spend_replay ::
  "spend_record \<Rightarrow> spend_record \<Rightarrow> string \<Rightarrow> spend_payload \<Rightarrow>
    spend_error + spend_payload option \<times> (spend_error + spend_reservation_result)" where
  "spend_replay r prior reason p =
    rbind (require_fingerprint prior (sr_fingerprint r)) (\<lambda>_.
    Inr (None, result_from_record prior False reason p True))"

definition spend_reserve_locked ::
  "spend_record \<Rightarrow> int \<Rightarrow> spend_payload \<Rightarrow>
    spend_error + spend_payload option \<times> (spend_error + spend_reservation_result)" where
  "spend_reserve_locked r now p0 =
    (let p = prune_terminal_records now p0; h = sr_reservation_hash r in
     case map_of (sp_reservations p) h of
       Some prior \<Rightarrow> spend_replay r prior ''spend_request_already_reserved'' p
     | None \<Rightarrow>
     (case map_of (sp_quarantined p) h of
       Some prior \<Rightarrow> spend_replay r prior ''spend_reservation_quarantined'' p
     | None \<Rightarrow>
     (case map_of (sp_closed p) h of
       Some prior \<Rightarrow> spend_replay r prior (closed_reason prior) p
     | None \<Rightarrow>
       if length (sp_reservations p) + length (sp_closed p) + length (sp_quarantined p) \<ge> MAX_LEDGER_RECORDS
       then Inl (SpendBudgetError ''spend_ledger_capacity_exhausted'' [])
       else spend_reserve_new r now p)))"

definition spend_reserve ::
  "spend_reserve_args \<Rightarrow> spend_state \<Rightarrow> (spend_error + spend_reservation_result) \<times> spend_state" where
  "spend_reserve a st =
    (case spend_prepare a of
       Inl e \<Rightarrow> (Inl e, st)
     | Inr (lineage_id, r) \<Rightarrow>
         spend_commit st lineage_id (rbind (spend_load st lineage_id) (spend_reserve_locked r (sa_now a))))"

section \<open>Closing\<close>

definition release_record :: "spend_record \<Rightarrow> string \<Rightarrow> string \<Rightarrow> int \<Rightarrow> spend_record" where
  "release_record r operation reason_code clock =
    r\<lparr>sr_operation := Some operation, sr_reason_code := Some reason_code,
      sr_actual := Some zero_amounts, sr_refunded := Some (sr_reserved r), sr_closed_at := Some clock\<rparr>"

definition close_locked ::
  "string \<Rightarrow> string \<Rightarrow> string \<Rightarrow> string \<Rightarrow> int \<Rightarrow> spend_payload \<Rightarrow>
    spend_error + spend_payload option \<times> (spend_error + spend_close_result)" where
  "close_locked h session_id operation reason_code clock p =
    (case map_of (sp_closed p) h of
       Some prior \<Rightarrow>
         rbind (require_session_scope prior session_id) (\<lambda>_.
         if sr_operation prior \<noteq> Some operation \<or> sr_reason_code prior \<noteq> Some reason_code
         then Inl (SpendBudgetConflictError ''spend_close_conflict'' [])
         else Inr (None, close_result prior p True None))
     | None \<Rightarrow>
     (case map_of (sp_reservations p) h of
       None \<Rightarrow> Inl (SpendBudgetError ''spend_reservation_unknown'' [])
     | Some r \<Rightarrow>
         rbind (require_session_scope r session_id) (\<lambda>_.
         rbind (adjust_scopes (add_totals zero_amounts (negate (sr_reserved r))) (sr_scope_refs r) (sp_scopes p)) (\<lambda>scs.
         let r' = release_record r operation reason_code clock;
             p' = p\<lparr>sp_scopes := scs, sp_reservations := AList.delete h (sp_reservations p),
                   sp_closed := AList.update h r' (sp_closed p)\<rparr>
         in Inr (Some p', close_result r' p' False None)))))"

definition close_without_spend ::
  "string \<Rightarrow> string \<Rightarrow> string \<Rightarrow> string \<Rightarrow> string \<Rightarrow> int \<Rightarrow> spend_state \<Rightarrow>
    (spend_error + spend_close_result) \<times> spend_state" where
  "close_without_spend lineage_id session_id request_id operation reason_code clock st =
    spend_commit st lineage_id
      (rbind (spend_reservation_hash request_id) (\<lambda>h.
       rbind (spend_load st lineage_id) (close_locked h session_id operation reason_code clock)))"

definition spend_cancel ::
  "string \<Rightarrow> string \<Rightarrow> string \<Rightarrow> string \<Rightarrow> int \<Rightarrow> spend_state \<Rightarrow>
    (spend_error + spend_close_result) \<times> spend_state" where
  "spend_cancel lineage_id session_id request_id reason_code clock st =
    (case bounded_string (JStr reason_code) ''reason_code'' 256 of
       Inl e \<Rightarrow> (Inl e, st)
     | Inr reason \<Rightarrow> close_without_spend lineage_id session_id request_id ''release'' reason clock st)"

definition quarantine_record :: "spend_record \<Rightarrow> string \<Rightarrow> int \<Rightarrow> spend_record" where
  "quarantine_record r reason clock =
    r\<lparr>sr_operation := Some ''quarantine'', sr_reason_code := Some reason, sr_quarantined_at := Some clock\<rparr>"

text \<open>Move an active record to the quarantine.\<close>

definition to_quarantine :: "string \<Rightarrow> spend_record \<Rightarrow> spend_payload \<Rightarrow> spend_payload" where
  "to_quarantine h r p =
    p\<lparr>sp_reservations := AList.delete h (sp_reservations p),
      sp_quarantined := AList.update h r (sp_quarantined p)\<rparr>"

section \<open>Settling\<close>

definition settlement_payload :: "string \<Rightarrow> int \<Rightarrow> int \<Rightarrow> string option \<Rightarrow> jv" where
  "settlement_payload h input_tokens output_tokens proof_digest = JObj
    [(''reservation_hash'', JStr h), (''actual_input_tokens'', JInt input_tokens),
     (''actual_output_tokens'', JInt output_tokens),
     (''usage_proof_digest'', case proof_digest of None \<Rightarrow> JNull | Some d \<Rightarrow> JStr d)]"

definition settle_record ::
  "spend_record \<Rightarrow> amounts \<Rightarrow> string \<Rightarrow> string option \<Rightarrow> int \<Rightarrow> bool \<Rightarrow> spend_record" where
  "settle_record r actual fingerprint proof_digest clock reconciled =
    r\<lparr>sr_operation := Some ''settle'', sr_reason_code := Some ''spend_settled'',
      sr_settlement_fingerprint := Some fingerprint, sr_usage_proof_digest := proof_digest,
      sr_actual := Some actual, sr_refunded := Some (sub_amounts (sr_reserved r) actual),
      sr_settled_at := Some clock, sr_reconciled := Some reconciled\<rparr>"

text \<open>Usage without proof or beyond the reservation: an active record is quarantined, a
  quarantined one stays as it is.\<close>

definition settle_refused ::
  "string \<Rightarrow> spend_record \<Rightarrow> bool \<Rightarrow> string \<Rightarrow> int \<Rightarrow> spend_payload \<Rightarrow>
    spend_error + spend_payload option \<times> (spend_error + spend_close_result)" where
  "settle_refused h r reconciled reason clock p =
    (if reconciled then Inr (None, close_result r p False (Some False))
     else
       let r' = quarantine_record r reason clock; p' = to_quarantine h r' p
       in Inr (Some p', close_result r' p' False (Some False)))"

definition settle_found ::
  "string \<Rightarrow> spend_record \<Rightarrow> bool \<Rightarrow> int \<Rightarrow> int \<Rightarrow> string option \<Rightarrow> string \<Rightarrow> int \<Rightarrow> spend_payload \<Rightarrow>
    spend_error + spend_payload option \<times> (spend_error + spend_close_result)" where
  "settle_found h r reconciled input_tokens output_tokens proof_digest fingerprint clock p =
    (let proof_valid = (case proof_digest of None \<Rightarrow> False | Some d \<Rightarrow> is_digest d);
         within_reservation = (input_tokens \<le> sr_max_input_tokens r \<and> output_tokens \<le> sr_max_output_tokens r);
         actual = priced (sr_input_rate r) (sr_output_rate r) input_tokens output_tokens
     in if \<not> proof_valid \<or> \<not> within_reservation then
          settle_refused h r reconciled
            (if \<not> proof_valid then ''spend_settlement_evidence_missing'' else ''spend_usage_exceeds_reservation'') clock p
        else if list_ex (\<lambda>d. at_dim actual d > at_dim (sr_reserved r) d) dimensions then
          settle_refused h r reconciled ''spend_usage_exceeds_reservation'' clock p
        else
          rbind (adjust_scopes (add_totals actual (negate (sr_reserved r))) (sr_scope_refs r) (sp_scopes p)) (\<lambda>scs.
          let r' = settle_record r actual fingerprint proof_digest clock reconciled;
              p' = p\<lparr>sp_scopes := scs,
                    sp_reservations := (if reconciled then sp_reservations p else AList.delete h (sp_reservations p)),
                    sp_quarantined := (if reconciled then AList.delete h (sp_quarantined p) else sp_quarantined p),
                    sp_closed := AList.update h r' (sp_closed p)\<rparr>
          in Inr (Some p', close_result r' p' False (Some reconciled))))"

definition settle_locked ::
  "string \<Rightarrow> string \<Rightarrow> int \<Rightarrow> int \<Rightarrow> string option \<Rightarrow> string \<Rightarrow> int \<Rightarrow> spend_payload \<Rightarrow>
    spend_error + spend_payload option \<times> (spend_error + spend_close_result)" where
  "settle_locked h session_id input_tokens output_tokens proof_digest fingerprint clock p =
    (case map_of (sp_closed p) h of
       Some prior \<Rightarrow>
         rbind (require_session_scope prior session_id) (\<lambda>_.
         if sr_operation prior \<noteq> Some ''settle'' then
           Inl (SpendBudgetConflictError ''spend_settlement_conflict'' ''reservation is already closed without settlement'')
         else if sr_settlement_fingerprint prior \<noteq> Some fingerprint then
           Inl (SpendBudgetConflictError ''spend_settlement_conflict'' ''settlement replay carries different usage evidence'')
         else Inr (None, close_result prior p True None))
     | None \<Rightarrow>
     (case map_of (sp_reservations p) h of
       Some r \<Rightarrow>
         rbind (require_session_scope r session_id) (\<lambda>_.
         settle_found h r False input_tokens output_tokens proof_digest fingerprint clock p)
     | None \<Rightarrow>
     (case map_of (sp_quarantined p) h of
       Some r \<Rightarrow>
         rbind (require_session_scope r session_id) (\<lambda>_.
         settle_found h r True input_tokens output_tokens proof_digest fingerprint clock p)
     | None \<Rightarrow> Inl (SpendBudgetError ''spend_reservation_unknown'' []))))"

record spend_usage =
  us_input_tokens :: int
  us_output_tokens :: int
  us_proof_digest :: "string option"

definition spend_settle ::
  "string \<Rightarrow> string \<Rightarrow> string \<Rightarrow> spend_usage \<Rightarrow> int \<Rightarrow> spend_state \<Rightarrow>
    (spend_error + spend_close_result) \<times> spend_state" where
  "spend_settle lineage_id session_id request_id u clock st =
    spend_commit st lineage_id
      (rbind (non_negative_int (JInt (us_input_tokens u)) ''actual_input_tokens'') (\<lambda>i.
       rbind (non_negative_int (JInt (us_output_tokens u)) ''actual_output_tokens'') (\<lambda>j.
       rbind (spend_reservation_hash request_id) (\<lambda>h.
       rbind (canonical_digest (settlement_payload h i j (us_proof_digest u))) (\<lambda>fingerprint.
       rbind (spend_load st lineage_id) (settle_locked h session_id i j (us_proof_digest u) fingerprint clock))))))"

section \<open>Quarantine\<close>

definition quarantine_locked ::
  "string \<Rightarrow> string \<Rightarrow> string \<Rightarrow> int \<Rightarrow> spend_payload \<Rightarrow>
    spend_error + spend_payload option \<times> (spend_error + spend_close_result)" where
  "quarantine_locked h session_id reason clock p =
    (case map_of (sp_quarantined p) h of
       Some prior \<Rightarrow>
         rbind (require_session_scope prior session_id) (\<lambda>_.
         if sr_reason_code prior \<noteq> Some reason
         then Inl (SpendBudgetConflictError ''spend_quarantine_conflict'' [])
         else Inr (None, close_result prior p True None))
     | None \<Rightarrow>
     (case map_of (sp_closed p) h of
       Some prior \<Rightarrow>
         rbind (require_session_scope prior session_id) (\<lambda>_.
         Inl (SpendBudgetConflictError ''spend_reservation_already_closed'' []))
     | None \<Rightarrow>
     (case map_of (sp_reservations p) h of
       None \<Rightarrow> Inl (SpendBudgetError ''spend_reservation_unknown'' [])
     | Some r \<Rightarrow>
         rbind (require_session_scope r session_id) (\<lambda>_.
         let r' = quarantine_record r reason clock; p' = to_quarantine h r' p
         in Inr (Some p', close_result r' p' False None)))))"

definition spend_quarantine ::
  "string \<Rightarrow> string \<Rightarrow> string \<Rightarrow> string \<Rightarrow> int \<Rightarrow> spend_state \<Rightarrow>
    (spend_error + spend_close_result) \<times> spend_state" where
  "spend_quarantine lineage_id session_id request_id reason_code clock st =
    spend_commit st lineage_id
      (rbind (spend_reservation_hash request_id) (\<lambda>h.
       rbind (bounded_string (JStr reason_code) ''reason_code'' 256) (\<lambda>reason.
       rbind (spend_load st lineage_id) (quarantine_locked h session_id reason clock))))"

definition stale_step ::
  "string \<Rightarrow> int \<Rightarrow> int \<Rightarrow> spend_payload \<times> spend_close_result list \<Rightarrow> string \<times> spend_record \<Rightarrow>
    spend_error + spend_payload \<times> spend_close_result list" where
  "stale_step session_ref cutoff now w e =
    (if at_session (sr_scope_refs (snd e)) \<noteq> session_ref \<or> sr_created_at (snd e) > cutoff then Inr w
     else
       let r = quarantine_record (snd e) ''spend_reservation_stale'' now;
           p = to_quarantine (fst e) r (fst w)
       in rbind (close_result r p False None) (\<lambda>c. Inr (p, snd w @ [c])))"

definition stale_locked ::
  "string \<Rightarrow> int \<Rightarrow> int \<Rightarrow> spend_payload \<Rightarrow>
    spend_error + spend_payload option \<times> (spend_error + spend_close_result list)" where
  "stale_locked session_ref cutoff now p =
    rbind (foldM (stale_step session_ref cutoff now) (p, []) (sp_reservations p)) (\<lambda>(p', results).
    Inr (if results \<noteq> [] then Some p' else None, Inr results))"

definition spend_quarantine_stale ::
  "string \<Rightarrow> string \<Rightarrow> int \<Rightarrow> int \<Rightarrow> spend_state \<Rightarrow>
    (spend_error + spend_close_result list) \<times> spend_state" where
  "spend_quarantine_stale lineage_id session_id older_than_s now st =
    spend_commit st lineage_id
      (rbind (non_negative_int (JInt older_than_s) ''older_than_s'') (\<lambda>age.
       rbind (spend_load st lineage_id) (stale_locked (scope_hash Session session_id) (now - age) now)))"

section \<open>Queries\<close>

definition spend_snapshot :: "spend_state \<Rightarrow> string \<Rightarrow> spend_error + spend_payload" where
  "spend_snapshot st lineage_id = spend_load st lineage_id"

definition has_active_reservations :: "spend_state \<Rightarrow> string \<Rightarrow> string \<Rightarrow> spend_error + bool" where
  "has_active_reservations st lineage_id session_id =
    rbind (spend_load st lineage_id) (\<lambda>p.
    Inr (list_ex (\<lambda>e. at_session (sr_scope_refs (snd e)) = scope_hash Session session_id) (sp_reservations p)))"

section \<open>The ledger as a state machine\<close>

datatype spend_op =
    SpReserve spend_reserve_args
  | SpCancel string string string string int
  | SpSettle string string string spend_usage int
  | SpQuarantine string string string string int
  | SpQuarantineStale string string int int

datatype spend_outcome =
    SpReserved spend_reservation_result
  | SpClosed spend_close_result
  | SpStale "spend_close_result list"

fun spend_exec :: "spend_op \<Rightarrow> spend_state \<Rightarrow> (spend_error + spend_outcome) \<times> spend_state" where
  "spend_exec (SpReserve a) st = map_prod (map_sum id SpReserved) id (spend_reserve a st)"
| "spend_exec (SpCancel l s r reason clock) st =
    map_prod (map_sum id SpClosed) id (spend_cancel l s r reason clock st)"
| "spend_exec (SpSettle l s r u clock) st =
    map_prod (map_sum id SpClosed) id (spend_settle l s r u clock st)"
| "spend_exec (SpQuarantine l s r reason clock) st =
    map_prod (map_sum id SpClosed) id (spend_quarantine l s r reason clock st)"
| "spend_exec (SpQuarantineStale l s age now) st =
    map_prod (map_sum id SpStale) id (spend_quarantine_stale l s age now st)"

end
