(* ===== verification/Spend_Accounting.thy ===== *)
theory Spend_Accounting
  imports Spend_Ledger
begin

text \<open>
  The bookkeeping of the spend ledger: validation as an arithmetic statement about the payload,
  the effect of the loops over the three scopes, and the invariant every operation keeps.
\<close>

section \<open>Amounts and totals\<close>

definition safe_int :: "int \<Rightarrow> bool" where
  "safe_int n \<longleftrightarrow> 0 \<le> n \<and> n \<le> MAX_SAFE_INTEGER"

definition amounts_ok :: "amounts \<Rightarrow> bool" where
  "amounts_ok a \<longleftrightarrow> (\<forall>d. safe_int (at_dim a d))"

definition totals_ok :: "spend_totals \<Rightarrow> bool" where
  "totals_ok t \<longleftrightarrow> amounts_ok (tt_spent t) \<and> amounts_ok (tt_reserved t)"

lemma validate_ledger_int_iff [simp]: "validate_ledger_int n = Inr u \<longleftrightarrow> safe_int n"
  by (simp add: validate_ledger_int_def safe_int_def)

lemma validate_amounts_iff [simp]: "validate_amounts a = Inr u \<longleftrightarrow> amounts_ok a"
  by (simp add: validate_amounts_def amounts_ok_def all_dimensions)

lemma validate_scope_totals_iff [simp]: "validate_scope_totals t = Inr u \<longleftrightarrow> totals_ok t"
  by (auto simp: validate_scope_totals_def totals_ok_def rbind_Inr_iff)

lemma amounts_ok_zero [simp]: "amounts_ok zero_amounts"
  by (simp add: amounts_ok_def safe_int_def MAX_SAFE_INTEGER_def)

lemma totals_ok_zero [simp]: "totals_ok zero_totals"
  by (simp add: totals_ok_def zero_totals_def)

lemma ref_count_nonneg [simp]: "0 \<le> ref_count refs k"
  by (simp add: ref_count_def)

lemma ref_count_zero: "(\<And>s. at_scope refs s \<noteq> k) \<Longrightarrow> ref_count refs k = 0"
  by (simp add: ref_count_def)

lemma ref_count_pos: "1 \<le> ref_count refs (at_scope refs s)"
  by (cases s) (simp_all add: ref_count_def scopes_def)

section \<open>The totals of a scope\<close>

abbreviation totals_at :: "spend_totals dict \<Rightarrow> string \<Rightarrow> spend_totals" where
  "totals_at scs k \<equiv> dget scs k zero_totals"

definition spent_at :: "spend_totals dict \<Rightarrow> string \<Rightarrow> dimension \<Rightarrow> int" where
  "spent_at scs k d = at_dim (tt_spent (totals_at scs k)) d"

definition reserved_at :: "spend_totals dict \<Rightarrow> string \<Rightarrow> dimension \<Rightarrow> int" where
  "reserved_at scs k d = at_dim (tt_reserved (totals_at scs k)) d"

lemma totals_ok_at: "totals_ok (totals_at scs k) \<longleftrightarrow> (\<forall>d. safe_int (spent_at scs k d) \<and> safe_int (reserved_at scs k d))"
  by (auto simp: totals_ok_def amounts_ok_def spent_at_def reserved_at_def)

lemma dget_update [simp]: "dget (AList.update k v m) j w = (if j = k then v else dget m j w)"
  by (simp add: dget_def)

lemma has_key_update [simp]: "has_key (AList.update k v m) j \<longleftrightarrow> j = k \<or> has_key m j"
  by (simp add: has_key_iff)

lemma scope_totals_Inr:
  assumes "scope_totals scs k = Inr (t, scs')"
  shows "t = totals_at scs k" and "totals_ok t"
    and "\<And>j. totals_at scs' j = totals_at scs j" and "\<And>j. has_key scs' j \<longleftrightarrow> j = k \<or> has_key scs j"
    and "wf_dict scs \<Longrightarrow> wf_dict scs'"
proof -
  have "t = totals_at scs k \<and> totals_ok t \<and> (\<forall>j. totals_at scs' j = totals_at scs j) \<and>
    (\<forall>j. has_key scs' j \<longleftrightarrow> j = k \<or> has_key scs j) \<and> (wf_dict scs \<longrightarrow> wf_dict scs')"
  proof (cases "map_of scs k")
    case None
    then show ?thesis using assms by (auto simp: scope_totals_def dget_def)
  next
    case (Some u)
    then show ?thesis using assms by (auto simp: scope_totals_def dget_def has_key_iff rbind_Inr_iff)
  qed
  then show "t = totals_at scs k" and "totals_ok t"
    and "\<And>j. totals_at scs' j = totals_at scs j" and "\<And>j. has_key scs' j \<longleftrightarrow> j = k \<or> has_key scs j"
    and "wf_dict scs \<Longrightarrow> wf_dict scs'" by blast+
qed

lemma scope_totals_ok:
  "totals_ok (totals_at scs k) \<Longrightarrow> \<exists>scs'. scope_totals scs k = Inr (totals_at scs k, scs')"
  by (cases "map_of scs k") (simp_all add: scope_totals_def dget_def rbind_Inr_iff)

definition count_in :: "scope list \<Rightarrow> string scoped \<Rightarrow> string \<Rightarrow> int" where
  "count_in ss refs k = int (length (filter (\<lambda>s. at_scope refs s = k) ss))"

lemma count_in_simps [simp]:
  "count_in [] refs k = 0"
  "count_in (s # ss) refs k = (if at_scope refs s = k then 1 else 0) + count_in ss refs k"
  by (simp_all add: count_in_def)

lemma count_in_nonneg [simp]: "0 \<le> count_in ss refs k"
  by (simp add: count_in_def)

lemma count_in_scopes [simp]: "count_in scopes refs = ref_count refs"
  by (simp add: fun_eq_iff count_in_def ref_count_def)

definition adjust_step ::
  "(spend_totals \<Rightarrow> spend_totals) \<Rightarrow> string scoped \<Rightarrow> spend_totals dict \<Rightarrow> scope \<Rightarrow> spend_error + spend_totals dict" where
  "adjust_step g refs scs s = rbind (scope_totals scs (at_scope refs s)) (\<lambda>(t, scs').
     Inr (AList.update (at_scope refs s) (g t) scs'))"

lemma adjust_scopes_steps: "adjust_scopes g refs scs = foldM (adjust_step g refs) scs scopes"
  by (simp add: adjust_scopes_def adjust_step_def [abs_def])

text \<open>What the loop leaves: every account has moved once per scope that uses it.\<close>

definition moved :: "amounts \<Rightarrow> amounts \<Rightarrow> (string \<Rightarrow> int) \<Rightarrow> spend_totals dict \<Rightarrow> spend_totals dict \<Rightarrow> bool" where
  "moved x y n scs scs' \<longleftrightarrow>
    (\<forall>k d. spent_at scs' k d = spent_at scs k d + n k * at_dim x d \<and>
           reserved_at scs' k d = reserved_at scs k d + n k * at_dim y d)"

lemma adjust_step_Inr:
  assumes "adjust_step (add_totals x y) refs scs s = Inr scs'"
  shows "moved x y (count_in [s] refs) scs scs'"
    and "\<And>j. has_key scs' j \<longleftrightarrow> j = at_scope refs s \<or> has_key scs j"
    and "wf_dict scs \<Longrightarrow> wf_dict scs'"
proof -
  obtain t scs1 where 1: "scope_totals scs (at_scope refs s) = Inr (t, scs1)"
    and 2: "scs' = AList.update (at_scope refs s) (add_totals x y t) scs1"
    using assms by (auto simp: adjust_step_def)
  note f = scope_totals_Inr [OF 1]
  show "moved x y (count_in [s] refs) scs scs'"
    by (simp add: moved_def spent_at_def reserved_at_def 2 f(1,3) add_totals_def)
  show "has_key scs' j \<longleftrightarrow> j = at_scope refs s \<or> has_key scs j" for j
    using f(4) by (auto simp: 2)
  show "wf_dict scs \<Longrightarrow> wf_dict scs'" using f(5) by (simp add: 2)
qed

lemma moved_trans:
  "moved x y m scs scs1 \<Longrightarrow> moved x y n scs1 scs2 \<Longrightarrow> moved x y (\<lambda>k. m k + n k) scs scs2"
  by (simp add: moved_def algebra_simps)

lemma adjust_steps_Inr:
  assumes "foldM (adjust_step (add_totals x y) refs) scs ss = Inr scs'"
  shows "moved x y (count_in ss refs) scs scs' \<and>
    (\<forall>j. has_key scs' j \<longleftrightarrow> j \<in> at_scope refs ` set ss \<or> has_key scs j) \<and> (wf_dict scs \<longrightarrow> wf_dict scs')"
  using assms
proof (induction ss arbitrary: scs)
  case Nil
  then show ?case by (simp add: moved_def)
next
  case (Cons s ss)
  then obtain scs1 where 1: "adjust_step (add_totals x y) refs scs s = Inr scs1"
    and 2: "foldM (adjust_step (add_totals x y) refs) scs1 ss = Inr scs'" by auto
  note f = adjust_step_Inr [OF 1] and g = Cons.IH [OF 2]
  have "moved x y (\<lambda>k. count_in [s] refs k + count_in ss refs k) scs scs'"
    by (rule moved_trans [OF f(1) conjunct1 [OF g]])
  moreover have "count_in (s # ss) refs = (\<lambda>k. count_in [s] refs k + count_in ss refs k)"
    by (simp add: fun_eq_iff)
  moreover have "has_key scs' j \<longleftrightarrow> j \<in> at_scope refs ` set (s # ss) \<or> has_key scs j" for j
    using g by (simp add: f(2)) blast
  ultimately show ?case using f(3) g by simp
qed

lemma adjust_scopes_Inr:
  assumes "adjust_scopes (add_totals x y) refs scs = Inr scs'"
  shows "moved x y (ref_count refs) scs scs'"
    and "\<And>j. has_key scs' j \<longleftrightarrow> (\<exists>s. j = at_scope refs s) \<or> has_key scs j"
    and "wf_dict scs \<Longrightarrow> wf_dict scs'"
proof -
  note f = adjust_steps_Inr [OF assms [unfolded adjust_scopes_steps]]
  show "moved x y (ref_count refs) scs scs'" "wf_dict scs \<Longrightarrow> wf_dict scs'" using f by simp_all
  show "has_key scs' j \<longleftrightarrow> (\<exists>s. j = at_scope refs s) \<or> has_key scs j" for j
    using f by auto
qed

text \<open>The loop succeeds when both ends are within range: every step in between is too.\<close>

lemma safe_int_between:
  assumes "safe_int v" and "safe_int (v + c * x)" and "1 \<le> c"
  shows "safe_int (v + x)"
proof (cases "0 \<le> x")
  case True
  then have "1 * x \<le> c * x" using assms(3) by (intro mult_right_mono) simp_all
  then show ?thesis using assms(1,2) True unfolding safe_int_def by linarith
next
  case False
  then have "c * x \<le> 1 * x" using assms(3) by (intro mult_right_mono_neg) simp_all
  then show ?thesis using assms(1,2) False unfolding safe_int_def by linarith
qed

definition ends_ok :: "amounts \<Rightarrow> amounts \<Rightarrow> (string \<Rightarrow> int) \<Rightarrow> spend_totals dict \<Rightarrow> string \<Rightarrow> bool" where
  "ends_ok x y n scs k \<longleftrightarrow> (\<forall>d. safe_int (spent_at scs k d) \<and> safe_int (reserved_at scs k d) \<and>
     safe_int (spent_at scs k d + n k * at_dim x d) \<and> safe_int (reserved_at scs k d + n k * at_dim y d))"

lemma adjust_steps_ok:
  assumes "\<And>k. ends_ok x y (count_in ss refs) scs k"
  shows "\<exists>scs'. foldM (adjust_step (add_totals x y) refs) scs ss = Inr scs'"
  using assms
proof (induction ss arbitrary: scs)
  case (Cons s ss)
  let ?k = "at_scope refs s"
  have "totals_ok (totals_at scs ?k)"
    using Cons.prems [of ?k] by (simp add: totals_ok_at ends_ok_def)
  then obtain scs1 where 1: "adjust_step (add_totals x y) refs scs s = Inr scs1"
    using scope_totals_ok by (fastforce simp: adjust_step_def)
  note f = adjust_step_Inr(1) [OF 1]
  have "ends_ok x y (count_in ss refs) scs1 k" for k
  proof (cases "k = ?k")
    case True
    have c: "1 \<le> count_in (s # ss) refs k" using True by simp
    have "safe_int (spent_at scs k d) \<and> safe_int (reserved_at scs k d) \<and>
        safe_int (spent_at scs k d + count_in (s # ss) refs k * at_dim x d) \<and>
        safe_int (reserved_at scs k d + count_in (s # ss) refs k * at_dim y d)" for d
      using Cons.prems [of k] by (simp only: ends_ok_def)
    moreover have m: "spent_at scs1 k d = spent_at scs k d + at_dim x d"
      "reserved_at scs1 k d = reserved_at scs k d + at_dim y d" for d
      using f True by (simp_all add: moved_def)
    ultimately have "safe_int (spent_at scs1 k d) \<and> safe_int (reserved_at scs1 k d) \<and>
        safe_int (spent_at scs k d + count_in (s # ss) refs k * at_dim x d) \<and>
        safe_int (reserved_at scs k d + count_in (s # ss) refs k * at_dim y d)" for d
      unfolding m using safe_int_between [OF _ _ c] by blast
    then show ?thesis using m True by (simp add: ends_ok_def algebra_simps)
  qed (use Cons.prems [of k] f in \<open>simp add: ends_ok_def moved_def\<close>)
  then obtain scs' where "foldM (adjust_step (add_totals x y) refs) scs1 ss = Inr scs'"
    using Cons.IH by blast
  then show ?case using 1 by simp
qed simp

lemma adjust_scopes_ok:
  "(\<And>k. ends_ok x y (ref_count refs) scs k) \<Longrightarrow> \<exists>scs'. adjust_scopes (add_totals x y) refs scs = Inr scs'"
  using adjust_steps_ok [of x y scopes refs scs] by (simp add: adjust_scopes_steps)

lemma ex_scope: "(\<exists>s. P s) \<longleftrightarrow> P Session \<or> P Agent \<or> P Lineage"
  by (metis scope.exhaust)

lemma spend_remaining_Inr:
  assumes "spend_remaining ceilings refs scs = Inr (m, scs')"
  shows "\<And>s. at_scope m s = room ceilings s (totals_at scs (at_scope refs s))"
    and "\<And>k. totals_at scs' k = totals_at scs k"
    and "\<And>j. has_key scs' j \<longleftrightarrow> (\<exists>s. j = at_scope refs s) \<or> has_key scs j"
    and "wf_dict scs \<Longrightarrow> wf_dict scs'"
proof -
  obtain t1 scs1 t2 scs2 t3 where 1: "scope_totals scs (at_session refs) = Inr (t1, scs1)"
    and 2: "scope_totals scs1 (at_agent refs) = Inr (t2, scs2)"
    and 3: "scope_totals scs2 (at_lineage refs) = Inr (t3, scs')"
    and m: "m = \<lparr>at_session = room ceilings Session t1, at_agent = room ceilings Agent t2,
      at_lineage = room ceilings Lineage t3\<rparr>"
    using assms by (auto simp: spend_remaining_def)
  note f = scope_totals_Inr [OF 1] and g = scope_totals_Inr [OF 2] and h = scope_totals_Inr [OF 3]
  show "at_scope m s = room ceilings s (totals_at scs (at_scope refs s))" for s
    by (cases s) (simp_all add: m f(1,3) g(1,3) h(1))
  show "totals_at scs' k = totals_at scs k" for k using f(3) g(3) h(3) by simp
  show "has_key scs' j \<longleftrightarrow> (\<exists>s. j = at_scope refs s) \<or> has_key scs j" for j
    by (auto simp: h(4) g(4) f(4) ex_scope)
  show "wf_dict scs \<Longrightarrow> wf_dict scs'" using f(5) g(5) h(5) by simp
qed

lemma spend_remaining_ok:
  assumes "\<And>k. totals_ok (totals_at scs k)"
  shows "\<exists>m scs'. spend_remaining ceilings refs scs = Inr (m, scs')"
proof -
  obtain scs1 where 1: "scope_totals scs (at_session refs) = Inr (totals_at scs (at_session refs), scs1)"
    using scope_totals_ok [OF assms] by blast
  have a1: "totals_ok (totals_at scs1 k)" for k unfolding scope_totals_Inr(3) [OF 1] by (rule assms)
  obtain scs2 where 2: "scope_totals scs1 (at_agent refs) = Inr (totals_at scs1 (at_agent refs), scs2)"
    using scope_totals_ok [OF a1] by blast
  have a2: "totals_ok (totals_at scs2 k)" for k unfolding scope_totals_Inr(3) [OF 2] by (rule a1)
  obtain scs3 where 3: "scope_totals scs2 (at_lineage refs) = Inr (totals_at scs2 (at_lineage refs), scs3)"
    using scope_totals_ok [OF a2] by blast
  show ?thesis by (simp add: spend_remaining_def 1 2 3)
qed

section \<open>Validation as arithmetic\<close>

definition container_ok :: "container \<Rightarrow> spend_totals dict \<Rightarrow> spend_record dict \<Rightarrow> bool" where
  "container_ok c scs rs \<longleftrightarrow> (\<forall>(h, r) \<in> set rs. validate_record c h r = Inr () \<and>
    (\<forall>s. has_key scs (at_scope (sr_scope_refs r) s)))"

lemma all_scopes: "list_all P scopes \<longleftrightarrow> (\<forall>s. P s)"
  by (auto simp: list_all_iff)

lemma validate_container_iff [simp]: "validate_container c scs rs = Inr u \<longleftrightarrow> container_ok c scs rs"
  by (simp add: validate_container_def container_ok_def rbind_Inr_iff all_scopes case_prod_beta)

definition archive_ok :: "spend_payload \<Rightarrow> bool" where
  "archive_ok p \<longleftrightarrow> (\<forall>(k, a) \<in> set (sp_archived_spent p). has_key (sp_scopes p) k \<and> amounts_ok a)"

definition containers_ok :: "spend_payload \<Rightarrow> bool" where
  "containers_ok p \<longleftrightarrow> container_ok Reservations (sp_scopes p) (sp_reservations p) \<and>
    container_ok ClosedReservations (sp_scopes p) (sp_closed p) \<and>
    container_ok QuarantinedReservations (sp_scopes p) (sp_quarantined p)"

text \<open>The totals of every account, used or not, are what the records add up to.\<close>

definition balanced :: "spend_payload \<Rightarrow> bool" where
  "balanced p \<longleftrightarrow> (\<forall>k d. reserved_at (sp_scopes p) k d = at_dim (expected_reserved p k) d \<and>
     spent_at (sp_scopes p) k d = at_dim (expected_spent p k) d)"

definition books :: "spend_payload \<Rightarrow> bool" where
  "books p \<longleftrightarrow> (\<forall>k. has_key (sp_scopes p) k \<longrightarrow> is_digest k) \<and> (\<forall>k. totals_ok (totals_at (sp_scopes p) k)) \<and>
     archive_ok p \<and> containers_ok p \<and> balanced p"

lemma total_zero: "(\<And>k v. (k, v) \<in> set m \<Longrightarrow> f v = 0) \<Longrightarrow> total f m = 0"
  by (induction m) (simp, fastforce)

lemma absent_ref:
  assumes "container_ok c scs rs" and "\<not> has_key scs k" and "(h, r) \<in> set rs"
  shows "ref_count (sr_scope_refs r) k = 0"
  using assms by (intro ref_count_zero) (auto simp: container_ok_def)

lemma absent_expected:
  assumes "containers_ok p" and "archive_ok p" and "\<not> has_key (sp_scopes p) k"
  shows "expected_reserved p k = zero_amounts" and "expected_spent p k = zero_amounts"
proof -
  have "dget (sp_archived_spent p) k zero_amounts = zero_amounts"
    using assms(2,3) by (auto simp: archive_ok_def dget_def split: option.split dest!: map_of_SomeD)
  moreover have "total (spent_part k d) (sp_closed p) = 0" for d
    using assms(1,3) by (intro total_zero) (auto simp: spent_part_def containers_ok_def dest: absent_ref)
  ultimately show "expected_spent p k = zero_amounts"
    by (intro dims_eqI) (simp add: expected_spent_def)
  have "total (reserved_part k d) (sp_reservations p) = 0" "total (reserved_part k d) (sp_quarantined p) = 0" for d
    using assms(1,3) by (auto intro!: total_zero simp: reserved_part_def containers_ok_def dest: absent_ref)
  then show "expected_reserved p k = zero_amounts"
    by (intro dims_eqI) (simp add: expected_reserved_def)
qed

lemma scope_entry:
  assumes "wf_dict scs"
  shows "(\<forall>(k, t) \<in> set scs. P k t) \<longleftrightarrow> (\<forall>k. has_key scs k \<longrightarrow> P k (totals_at scs k))"
proof -
  have "(k, t) \<in> set scs \<longleftrightarrow> has_key scs k \<and> t = totals_at scs k" for k t
    using wf_dict_map_of [OF assms, of k t] by (auto simp: has_key_iff dget_def)
  then show ?thesis by (simp add: Ball_def split_paired_All)
qed

lemma totals_at_absent: "\<not> has_key scs k \<Longrightarrow> totals_at scs k = zero_totals"
  by (simp add: has_key_iff dget_def)

lemma validate_books_iff:
  assumes "wf_dict (sp_scopes p)"
  shows "validate_books p = Inr u \<longleftrightarrow> books p"
proof -
  let ?scs = "sp_scopes p"
  let ?bal = "\<lambda>k. tt_reserved (totals_at ?scs k) = expected_reserved p k \<and> tt_spent (totals_at ?scs k) = expected_spent p k"
  have "validate_books p = Inr u \<longleftrightarrow> (\<forall>(k, t) \<in> set ?scs. is_digest k \<and> totals_ok t) \<and> archive_ok p \<and> containers_ok p \<and>
      (\<forall>(k, t) \<in> set ?scs. tt_reserved t = expected_reserved p k \<and> tt_spent t = expected_spent p k)"
    by (auto simp: validate_books_def rbind_Inr_iff archive_ok_def containers_ok_def)
  also have "\<dots> \<longleftrightarrow> (\<forall>k. has_key ?scs k \<longrightarrow> is_digest k \<and> totals_ok (totals_at ?scs k)) \<and> archive_ok p \<and> containers_ok p \<and>
      (\<forall>k. has_key ?scs k \<longrightarrow> ?bal k)"
    by (simp only: scope_entry [OF assms])
  also have "\<dots> \<longleftrightarrow> (\<forall>k. has_key ?scs k \<longrightarrow> is_digest k) \<and> (\<forall>k. totals_ok (totals_at ?scs k)) \<and>
      archive_ok p \<and> containers_ok p \<and> (\<forall>k. ?bal k)"
    using absent_expected [of p] totals_at_absent [of ?scs] totals_ok_zero
    by (metis (no_types, opaque_lifting) zero_totals_def spend_totals.select_convs)
  also have "\<dots> \<longleftrightarrow> books p"
    by (simp add: books_def balanced_def dims_eq_iff spent_at_def reserved_at_def) blast
  finally show ?thesis .
qed

text \<open>What a validated record promises.\<close>

lemma record_facts:
  assumes "validate_record c h r = Inr ()"
  shows "is_digest h" "sr_reservation_hash r = h" "amounts_ok (sr_reserved r)"
    "safe_int (sr_max_input_tokens r)" "safe_int (sr_max_output_tokens r)"
    "safe_int (sr_input_rate r)" "safe_int (sr_output_rate r)" "sr_created_at r < sr_retention_until r"
    "\<And>s. is_digest (at_scope (sr_scope_refs r) s)"
  using assms by (simp_all add: validate_record_def rbind_Inr_iff list_all_iff)

definition common_ok :: "string \<Rightarrow> spend_record \<Rightarrow> bool" where
  "common_ok h r \<longleftrightarrow> is_digest h \<and> is_digest (sr_fingerprint r) \<and> sr_reservation_hash r = h \<and>
    is_digest (sr_quote_digest r) \<and> is_digest (sr_quote_id_hash r) \<and> is_currency (sr_currency r) \<and>
    amounts_ok (sr_reserved r) \<and> safe_int (sr_max_input_tokens r) \<and> safe_int (sr_max_output_tokens r) \<and>
    safe_int (sr_created_at r) \<and> safe_int (sr_retention_until r) \<and> sr_created_at r < sr_retention_until r \<and>
    (\<forall>s. is_digest (at_scope (sr_scope_refs r) s)) \<and> (\<forall>d s. safe_int (at_scope (at_dim (sr_ceilings r) d) s)) \<and>
    safe_int (sr_input_rate r) \<and> safe_int (sr_output_rate r)"

lemma validate_record_iff:
  "validate_record c h r = Inr u \<longleftrightarrow> common_ok h r \<and>
    (case c of Reservations \<Rightarrow> sr_operation r = None
     | QuarantinedReservations \<Rightarrow> sr_operation r = Some ''quarantine''
     | ClosedReservations \<Rightarrow> validate_closing r = Inr ())"
proof -
  have "(\<forall>s \<in> set scopes. P s) \<longleftrightarrow> (\<forall>s. P s)" for P by auto
  then show ?thesis
    by (cases c) (auto simp: validate_record_def common_ok_def rbind_Inr_iff list_all_iff all_dimensions)
qed

end
