(* ===== verification/Spend_Invariant.thy ===== *)
theory Spend_Invariant
  imports Spend_Accounting
begin

text \<open>
  The invariant of the spend ledger, and that every operation keeps it: the dictionaries have no
  key twice, the books balance, a reservation is in one container only, and an open reservation
  holds exactly the price of the tokens it allows.
\<close>

section \<open>The invariant\<close>

definition wf_payload :: "spend_payload \<Rightarrow> bool" where
  "wf_payload p \<longleftrightarrow> wf_dict (sp_scopes p) \<and> wf_dict (sp_archived_spent p) \<and>
    wf_dict (sp_reservations p) \<and> wf_dict (sp_closed p) \<and> wf_dict (sp_quarantined p)"

definition apart :: "spend_payload \<Rightarrow> bool" where
  "apart p \<longleftrightarrow> (\<forall>h. (map_of (sp_reservations p) h \<noteq> None \<longrightarrow>
      map_of (sp_quarantined p) h = None \<and> map_of (sp_closed p) h = None) \<and>
    (map_of (sp_quarantined p) h \<noteq> None \<longrightarrow> map_of (sp_closed p) h = None))"

definition priced_ok :: "spend_record \<Rightarrow> bool" where
  "priced_ok r \<longleftrightarrow> sr_reserved r =
    priced (sr_input_rate r) (sr_output_rate r) (sr_max_input_tokens r) (sr_max_output_tokens r)"

definition priced_all :: "spend_record dict \<Rightarrow> bool" where
  "priced_all rs \<longleftrightarrow> (\<forall>h r. map_of rs h = Some r \<longrightarrow> priced_ok r)"

definition sp_inv :: "spend_payload \<Rightarrow> bool" where
  "sp_inv p \<longleftrightarrow> wf_payload p \<and> books p \<and> apart p \<and> priced_all (sp_reservations p) \<and> priced_all (sp_quarantined p)"

lemma books_container:
  assumes "books p" and "map_of rs h = Some r"
  shows "rs = sp_reservations p \<Longrightarrow> validate_record Reservations h r = Inr ()"
    and "rs = sp_closed p \<Longrightarrow> validate_record ClosedReservations h r = Inr ()"
    and "rs = sp_quarantined p \<Longrightarrow> validate_record QuarantinedReservations h r = Inr ()"
    and "rs \<in> {sp_reservations p, sp_closed p, sp_quarantined p} \<Longrightarrow> has_key (sp_scopes p) (at_scope (sr_scope_refs r) s)"
  using assms(1) map_of_SomeD [OF assms(2)]
  by (auto simp: books_def containers_ok_def container_ok_def)

lemma books_at:
  assumes "books p"
  shows "reserved_at (sp_scopes p) k d = at_dim (expected_reserved p k) d"
    and "spent_at (sp_scopes p) k d = at_dim (expected_spent p k) d"
    and "safe_int (reserved_at (sp_scopes p) k d)" and "safe_int (spent_at (sp_scopes p) k d)"
  using assms unfolding books_def balanced_def totals_ok_at by blast+

lemma closed_settled_ok:
  assumes "validate_record ClosedReservations h r = Inr ()" and "sr_operation r = Some ''settle''"
  shows "amounts_ok (actual_amounts r)"
  using assms by (auto simp: validate_record_iff validate_closing_def rbind_Inr_iff validate_present_def
      actual_amounts_def split: option.splits)

lemma spent_part_nonneg: "validate_record ClosedReservations h r = Inr () \<Longrightarrow> 0 \<le> spent_part k d r"
  using closed_settled_ok [of h r] by (auto simp: spent_part_def amounts_ok_def safe_int_def)

lemma reserved_part_nonneg: "validate_record c h r = Inr () \<Longrightarrow> 0 \<le> reserved_part k d r"
  using record_facts(3) [of c h r] by (auto simp: reserved_part_def amounts_ok_def safe_int_def)

section \<open>Pruning\<close>

lemma archive_steps:
  "at_dim (dget (foldl (archive_scope r) m ss) k zero_amounts) d
    = at_dim (dget m k zero_amounts) d + count_in ss (sr_scope_refs r) k * at_dim (actual_amounts r) d"
  by (induction ss arbitrary: m) (simp_all add: archive_scope_def Let_def algebra_simps)

lemma archive_keys:
  "has_key (foldl (archive_scope r) m ss) k \<longleftrightarrow> k \<in> at_scope (sr_scope_refs r) ` set ss \<or> has_key m k"
  by (induction ss arbitrary: m) (auto simp: archive_scope_def Let_def)

lemma archive_wf: "wf_dict m \<Longrightarrow> wf_dict (foldl (archive_scope r) m ss)"
  by (induction ss arbitrary: m) (simp_all add: archive_scope_def Let_def)

lemma archive_record_at:
  "at_dim (dget (archive_record r m) k zero_amounts) d = at_dim (dget m k zero_amounts) d + spent_part k d r"
  by (simp add: archive_record_def archive_steps spent_part_def)

lemma archive_record_keys:
  "has_key (archive_record r m) k \<Longrightarrow> has_key m k \<or> (\<exists>s. k = at_scope (sr_scope_refs r) s)"
  by (auto simp: archive_record_def archive_keys split: if_splits)

lemma archive_record_wf: "wf_dict m \<Longrightarrow> wf_dict (archive_record r m)"
  by (simp add: archive_record_def archive_wf)

lemma archive_entry:
  assumes "wf_dict m"
  shows "(\<forall>(k, a) \<in> set m. P k a) \<longleftrightarrow> (\<forall>k. has_key m k \<longrightarrow> P k (dget m k zero_amounts))"
proof -
  have "(k, a) \<in> set m \<longleftrightarrow> has_key m k \<and> a = dget m k zero_amounts" for k a
    using wf_dict_map_of [OF assms, of k a] by (auto simp: has_key_iff dget_def)
  then show ?thesis by (simp add: Ball_def split_paired_All)
qed

lemma container_ok_mono:
  "container_ok c scs rs \<Longrightarrow> set rs' \<subseteq> set rs \<Longrightarrow> (\<And>k. has_key scs k \<Longrightarrow> has_key scs' k) \<Longrightarrow> container_ok c scs' rs'"
  unfolding container_ok_def by blast

lemma prune_closed_keeps:
  assumes inv: "sp_inv p" and mem: "map_of (sp_closed p) (fst e) = Some (snd e)"
  shows "sp_inv (prune_closed now p e)"
proof (cases "sr_retention_until (snd e) > now")
  case True
  then show ?thesis using inv by (simp add: prune_closed_def)
next
  case False
  define p' where "p' = prune_closed now p e"
  have p': "p' = p\<lparr>sp_archived_spent := archive_record (snd e) (sp_archived_spent p),
      sp_closed := AList.delete (fst e) (sp_closed p)\<rparr>"
    using False by (simp add: p'_def prune_closed_def)
  have wf: "wf_payload p" and b: "books p" using inv by (simp_all add: sp_inv_def)
  have wf': "wf_payload p'" using wf by (simp add: wf_payload_def p' archive_record_wf)
  have exp: "expected_reserved p' = expected_reserved p" "expected_spent p' = expected_spent p"
    using wf mem by (auto simp: fun_eq_iff p' expected_reserved_def expected_spent_def archive_record_at
      wf_payload_def total_delete intro!: dims_eqI)
  have cont: "containers_ok p'"
    using b by (auto simp: books_def containers_ok_def p' set_delete intro: container_ok_mono)
  have nonneg: "0 \<le> total (spent_part k d) (sp_closed p')" for k d
    using cont by (intro total_nonneg) (auto simp: containers_ok_def container_ok_def intro: spent_part_nonneg)
  have arch: "archive_ok p'"
    unfolding archive_ok_def archive_entry [OF conjunct1 [OF conjunct2 [OF wf' [unfolded wf_payload_def]]]]
  proof (intro allI impI conjI)
    fix k assume k: "has_key (sp_archived_spent p') k"
    have "has_key (sp_archived_spent p) k \<Longrightarrow> has_key (sp_scopes p) k"
      using b archive_entry [of "sp_archived_spent p" "\<lambda>k a. has_key (sp_scopes p) k \<and> amounts_ok a"] wf
      by (simp add: books_def archive_ok_def wf_payload_def)
    then show "has_key (sp_scopes p') k"
      using k archive_record_keys [of "snd e" "sp_archived_spent p" k] books_container(4) [OF b mem]
      by (auto simp: p')
    have old: "amounts_ok (dget (sp_archived_spent p) k zero_amounts)"
      using b archive_entry [of "sp_archived_spent p" "\<lambda>k a. has_key (sp_scopes p) k \<and> amounts_ok a"] wf
      by (cases "has_key (sp_archived_spent p) k")
        (simp_all add: books_def archive_ok_def wf_payload_def, simp add: has_key_iff dget_def)
    show "amounts_ok (dget (sp_archived_spent p') k zero_amounts)"
      unfolding amounts_ok_def
    proof
      fix d
      have "at_dim (dget (sp_archived_spent p') k zero_amounts) d = at_dim (dget (sp_archived_spent p) k zero_amounts) d
          + spent_part k d (snd e)" by (simp add: p' archive_record_at)
      moreover have "0 \<le> spent_part k d (snd e)"
        using spent_part_nonneg books_container(2) [OF b mem] by blast
      moreover have "at_dim (dget (sp_archived_spent p') k zero_amounts) d \<le> at_dim (expected_spent p' k) d"
        using nonneg by (simp add: expected_spent_def)
      moreover have "safe_int (at_dim (expected_spent p' k) d)"
        using books_at [OF b] by (metis exp(2))
      ultimately show "safe_int (at_dim (dget (sp_archived_spent p') k zero_amounts) d)"
        using old by (simp add: amounts_ok_def safe_int_def)
    qed
  qed
  have "books p'" using b arch cont by (simp add: books_def balanced_def exp) (simp add: p')
  moreover have "apart p'" using inv by (simp add: sp_inv_def apart_def p')
  ultimately show ?thesis using inv wf' by (simp add: sp_inv_def flip: p'_def) (simp add: p')
qed

section \<open>The steps of the ledger\<close>

text \<open>The totals of the three scopes of a record move by the same amounts, created on first use.\<close>

definition charged ::
  "amounts \<Rightarrow> amounts \<Rightarrow> string scoped \<Rightarrow> spend_totals dict \<Rightarrow> spend_totals dict \<Rightarrow> bool" where
  "charged x y refs scs scs' \<longleftrightarrow> moved x y (ref_count refs) scs scs' \<and>
    (\<forall>j. has_key scs' j \<longleftrightarrow> (\<exists>s. j = at_scope refs s) \<or> has_key scs j) \<and> wf_dict scs'"

definition in_range :: "spend_totals dict \<Rightarrow> bool" where
  "in_range scs \<longleftrightarrow> (\<forall>k. totals_ok (totals_at scs k))"

definition unused :: "spend_payload \<Rightarrow> string \<Rightarrow> bool" where
  "unused p h \<longleftrightarrow> map_of (sp_reservations p) h = None \<and> map_of (sp_quarantined p) h = None \<and>
    map_of (sp_closed p) h = None"

text \<open>A settlement of an active (\<open>reconciled = False\<close>) or quarantined reservation.\<close>

definition settled_payload :: "string \<Rightarrow> spend_record \<Rightarrow> bool \<Rightarrow> spend_totals dict \<Rightarrow> spend_payload \<Rightarrow> spend_payload" where
  "settled_payload h r' reconciled scs p =
    p\<lparr>sp_scopes := scs,
      sp_reservations := (if reconciled then sp_reservations p else AList.delete h (sp_reservations p)),
      sp_quarantined := (if reconciled then AList.delete h (sp_quarantined p) else sp_quarantined p),
      sp_closed := AList.update h r' (sp_closed p)\<rparr>"

text \<open>One step of the ledger at a time \<open>now\<close>, which only pruning looks at.\<close>

inductive spend_step :: "int \<Rightarrow> spend_payload \<Rightarrow> spend_payload \<Rightarrow> bool" for now where
  step_prune: "map_of (sp_closed p) h = Some r \<Longrightarrow> spend_step now p (prune_closed now p (h, r))"
| step_reserve: "unused p h \<Longrightarrow> charged zero_amounts (sr_reserved r) (sr_scope_refs r) (sp_scopes p) scs \<Longrightarrow>
    in_range scs \<Longrightarrow> validate_record Reservations h r = Inr () \<Longrightarrow> priced_ok r \<Longrightarrow>
    spend_step now p (p\<lparr>sp_scopes := scs, sp_reservations := AList.update h r (sp_reservations p)\<rparr>)"
| step_reject: "unused p h \<Longrightarrow> charged zero_amounts zero_amounts (sr_scope_refs r) (sp_scopes p) scs \<Longrightarrow>
    validate_record ClosedReservations h r = Inr () \<Longrightarrow> sr_operation r = Some ''reject'' \<Longrightarrow>
    spend_step now p (p\<lparr>sp_scopes := scs, sp_closed := AList.update h r (sp_closed p)\<rparr>)"
| step_release: "map_of (sp_reservations p) h = Some r \<Longrightarrow>
    charged zero_amounts (negate (sr_reserved r)) (sr_scope_refs r) (sp_scopes p) scs \<Longrightarrow>
    spend_step now p (p\<lparr>sp_scopes := scs, sp_reservations := AList.delete h (sp_reservations p),
      sp_closed := AList.update h (release_record r ''release'' reason clock) (sp_closed p)\<rparr>)"
| step_quarantine: "map_of (sp_reservations p) h = Some r \<Longrightarrow>
    spend_step now p (to_quarantine h (quarantine_record r reason clock) p)"
| step_settle: "map_of (if reconciled then sp_quarantined p else sp_reservations p) h = Some r \<Longrightarrow>
    charged actual (negate (sr_reserved r)) (sr_scope_refs r) (sp_scopes p) scs \<Longrightarrow> in_range scs \<Longrightarrow>
    amounts_ok actual \<Longrightarrow> (\<And>d. at_dim actual d \<le> at_dim (sr_reserved r) d) \<Longrightarrow>
    is_digest fingerprint \<Longrightarrow> is_digest proof_digest \<Longrightarrow>
    spend_step now p (settled_payload h (settle_record r actual fingerprint (Some proof_digest) clock reconciled)
      reconciled scs p)"

section \<open>Every step keeps the invariant\<close>

lemma container_ok_update:
  "container_ok c scs rs \<Longrightarrow> (\<And>k. has_key scs k \<Longrightarrow> has_key scs' k) \<Longrightarrow> validate_record c h r = Inr () \<Longrightarrow>
    (\<And>s. has_key scs' (at_scope (sr_scope_refs r) s)) \<Longrightarrow> container_ok c scs' (AList.update h r rs)"
  unfolding container_ok_def by (auto dest!: set_update_subset)

lemma container_ok_delete:
  "container_ok c scs rs \<Longrightarrow> (\<And>k. has_key scs k \<Longrightarrow> has_key scs' k) \<Longrightarrow> container_ok c scs' (AList.delete h rs)"
  by (rule container_ok_mono [where rs = rs and scs = scs]) (auto simp: set_delete)

lemma charged_keys:
  assumes "charged x y refs scs scs'"
  shows "has_key scs k \<Longrightarrow> has_key scs' k" and "has_key scs' (at_scope refs s)" and "wf_dict scs'"
  using assms by (auto simp: charged_def)

text \<open>The shape shared by all steps that move totals: the records change by what the totals change by.\<close>

lemma books_moved:
  assumes b: "books p" and c: "charged x y refs (sp_scopes p) (sp_scopes p')"
    and range: "in_range (sp_scopes p')"
    and digests: "\<And>s. is_digest (at_scope refs s)"
    and arch: "sp_archived_spent p' = sp_archived_spent p"
    and cont: "containers_ok p'"
    and res: "\<And>k d. at_dim (expected_reserved p' k) d = at_dim (expected_reserved p k) d + ref_count refs k * at_dim y d"
    and spent: "\<And>k d. at_dim (expected_spent p' k) d = at_dim (expected_spent p k) d + ref_count refs k * at_dim x d"
  shows "books p'"
proof -
  have "balanced p'"
    using books_at(1,2) [OF b] c by (simp add: balanced_def res spent charged_def moved_def)
  moreover have "has_key (sp_scopes p') k \<Longrightarrow> is_digest k" for k
    using b c digests by (auto simp: charged_def books_def)
  moreover have "archive_ok p'"
    using b charged_keys(1) [OF c] by (auto simp: books_def archive_ok_def arch)
  ultimately show ?thesis using range cont by (simp add: books_def in_range_def)
qed

lemma inv_facts:
  assumes "sp_inv p"
  shows "books p" "wf_payload p" "apart p" "priced_all (sp_reservations p)" "priced_all (sp_quarantined p)"
    "wf_dict (sp_scopes p)" "wf_dict (sp_archived_spent p)" "wf_dict (sp_reservations p)" "wf_dict (sp_closed p)"
    "wf_dict (sp_quarantined p)"
    "container_ok Reservations (sp_scopes p) (sp_reservations p)"
    "container_ok ClosedReservations (sp_scopes p) (sp_closed p)"
    "container_ok QuarantinedReservations (sp_scopes p) (sp_quarantined p)"
  using assms by (simp_all add: sp_inv_def wf_payload_def books_def containers_ok_def)

lemma priced_all_update: "priced_all rs \<Longrightarrow> priced_ok r \<Longrightarrow> priced_all (AList.update h r rs)"
  by (simp add: priced_all_def)

lemma priced_all_delete: "priced_all rs \<Longrightarrow> priced_all (AList.delete h rs)"
  by (simp add: priced_all_def)

lemmas keep_intros = container_ok_update container_ok_delete priced_all_update priced_all_delete

lemma spent_part_unsettled: "sr_operation r \<noteq> Some ''settle'' \<Longrightarrow> spent_part k d r = 0"
  by (simp add: spent_part_def)

lemma step_reserve_keeps:
  assumes inv: "sp_inv p" and fresh: "unused p h"
    and c: "charged zero_amounts (sr_reserved r) (sr_scope_refs r) (sp_scopes p) scs" and range: "in_range scs"
    and val: "validate_record Reservations h r = Inr ()" and "priced_ok r"
  shows "sp_inv (p\<lparr>sp_scopes := scs, sp_reservations := AList.update h r (sp_reservations p)\<rparr>)" (is "sp_inv ?p")
proof -
  note f = inv_facts [OF inv] and k = charged_keys [OF c]
  have new: "map_of (sp_reservations p) h = None" using fresh by (simp add: unused_def)
  have "containers_ok ?p"
    using f(11-13) val k by (auto simp: containers_ok_def intro: container_ok_update container_ok_mono)
  then have "books ?p"
    by (intro books_moved [OF f(1), where x = zero_amounts and y = "sr_reserved r" and refs = "sr_scope_refs r"])
      (use c range record_facts(9) [OF val] in
        \<open>simp_all add: expected_reserved_def expected_spent_def total_update_new [OF new] reserved_part_def\<close>)
  moreover have "wf_payload ?p" using f(2) k(3) by (simp add: wf_payload_def)
  moreover have "apart ?p" using f(3) fresh by (simp add: apart_def unused_def)
  ultimately show ?thesis using f(4,5) assms(6) by (simp add: sp_inv_def priced_all_update)
qed

lemma in_range_same:
  assumes "books p" and "charged zero_amounts zero_amounts refs (sp_scopes p) scs"
  shows "in_range scs"
  using books_at(3,4) [OF assms(1)] assms(2) by (simp add: in_range_def totals_ok_at charged_def moved_def)

lemma step_reject_keeps:
  assumes inv: "sp_inv p" and fresh: "unused p h"
    and c: "charged zero_amounts zero_amounts (sr_scope_refs r) (sp_scopes p) scs"
    and val: "validate_record ClosedReservations h r = Inr ()" and reject: "sr_operation r = Some ''reject''"
  shows "sp_inv (p\<lparr>sp_scopes := scs, sp_closed := AList.update h r (sp_closed p)\<rparr>)" (is "sp_inv ?p")
proof -
  note f = inv_facts [OF inv] and k = charged_keys [OF c]
  have new: "map_of (sp_closed p) h = None" using fresh by (simp add: unused_def)
  have "containers_ok ?p"
    using f(11-13) val k by (auto simp: containers_ok_def intro: container_ok_update container_ok_mono)
  then have "books ?p"
    by (intro books_moved [OF f(1), where x = zero_amounts and y = zero_amounts and refs = "sr_scope_refs r"])
      (use c in_range_same [OF f(1) c] record_facts(9) [OF val] in
        \<open>simp_all add: expected_reserved_def expected_spent_def total_update_new [OF new] spent_part_def reject\<close>)
  moreover have "wf_payload ?p" using f(2) k(3) by (simp add: wf_payload_def)
  moreover have "apart ?p" using f(3) fresh by (simp add: apart_def unused_def)
  ultimately show ?thesis using f(4,5) by (simp add: sp_inv_def)
qed

text \<open>An open reservation is part of what its scopes hold.\<close>

lemma reserved_covers:
  assumes inv: "sp_inv p"
    and mem: "map_of (sp_reservations p) h = Some r \<or> map_of (sp_quarantined p) h = Some r"
  shows "reserved_part k d r \<le> reserved_at (sp_scopes p) k d"
proof -
  note f = inv_facts [OF inv]
  have nn: "(h, r) \<in> set (sp_reservations p) \<Longrightarrow> 0 \<le> reserved_part k d r"
    "(h, r) \<in> set (sp_quarantined p) \<Longrightarrow> 0 \<le> reserved_part k d r" for h r
    using f(11,13) by (auto simp: container_ok_def intro: reserved_part_nonneg)
  have "0 \<le> total (reserved_part k d) (sp_reservations p)" "0 \<le> total (reserved_part k d) (sp_quarantined p)"
    using nn by (auto intro: total_nonneg)
  moreover have "reserved_part k d r \<le> total (reserved_part k d) (sp_reservations p) \<or>
      reserved_part k d r \<le> total (reserved_part k d) (sp_quarantined p)"
    using mem nn by (auto dest!: map_of_SomeD intro: total_ge_member)
  ultimately show ?thesis using books_at(1) [OF f(1)] by (auto simp: expected_reserved_def)
qed

lemma release_in_range:
  assumes inv: "sp_inv p" and mem: "map_of (sp_reservations p) h = Some r"
    and c: "charged zero_amounts (negate (sr_reserved r)) (sr_scope_refs r) (sp_scopes p) scs"
  shows "in_range scs"
proof -
  note f = inv_facts [OF inv]
  have "safe_int (spent_at scs k d) \<and> safe_int (reserved_at scs k d)" for k d
  proof -
    have "spent_at scs k d = spent_at (sp_scopes p) k d"
      "reserved_at scs k d = reserved_at (sp_scopes p) k d - reserved_part k d r"
      using c by (simp_all add: charged_def moved_def negate_def reserved_part_def)
    moreover have "0 \<le> reserved_part k d r" "reserved_part k d r \<le> reserved_at (sp_scopes p) k d"
      using reserved_covers [OF inv] mem reserved_part_nonneg books_container(1) [OF f(1) mem refl] by blast+
    ultimately show ?thesis using books_at(3,4) [OF f(1), of k d] unfolding safe_int_def by linarith
  qed
  then show ?thesis by (simp add: in_range_def totals_ok_at)
qed

lemma validate_closing_release:
  "amounts_ok (sr_reserved r) \<Longrightarrow> validate_closing (release_record r ''release'' reason clock) = Inr ()"
  by (simp add: validate_closing_def release_record_def validate_present_def rbind_Inr_iff)

lemma common_ok_update [simp]:
  "common_ok h (release_record r opn reason clock) = common_ok h r"
  "common_ok h (quarantine_record r reason clock) = common_ok h r"
  "common_ok h (settle_record r actual fingerprint proof_digest clock reconciled) = common_ok h r"
  by (simp_all add: common_ok_def release_record_def quarantine_record_def settle_record_def)

lemma record_fields [simp]:
  "sr_scope_refs (release_record r opn reason clock) = sr_scope_refs r"
  "sr_scope_refs (quarantine_record r reason clock) = sr_scope_refs r"
  "sr_scope_refs (settle_record r actual fingerprint proof_digest clock reconciled) = sr_scope_refs r"
  "sr_operation (release_record r opn reason clock) = Some opn"
  "sr_operation (quarantine_record r reason clock) = Some ''quarantine''"
  "sr_operation (settle_record r actual fingerprint proof_digest clock reconciled) = Some ''settle''"
  "sr_retention_until (release_record r opn reason clock) = sr_retention_until r"
  "sr_retention_until (quarantine_record r reason clock) = sr_retention_until r"
  "sr_retention_until (settle_record r actual fingerprint proof_digest clock reconciled) = sr_retention_until r"
  "reserved_part k d (quarantine_record r reason clock) = reserved_part k d r"
  "priced_ok (quarantine_record r reason clock) = priced_ok r"
  "actual_amounts (settle_record r actual fingerprint proof_digest clock reconciled) = actual"
  by (simp_all add: release_record_def quarantine_record_def settle_record_def reserved_part_def priced_ok_def
      actual_amounts_def)

lemma step_release_keeps:
  assumes inv: "sp_inv p" and mem: "map_of (sp_reservations p) h = Some r"
    and c: "charged zero_amounts (negate (sr_reserved r)) (sr_scope_refs r) (sp_scopes p) scs"
  shows "sp_inv (p\<lparr>sp_scopes := scs, sp_reservations := AList.delete h (sp_reservations p),
      sp_closed := AList.update h (release_record r ''release'' reason clock) (sp_closed p)\<rparr>)" (is "sp_inv ?p")
proof -
  note f = inv_facts [OF inv] and k = charged_keys [OF c]
  have val: "validate_record Reservations h r = Inr ()" by (rule books_container(1) [OF f(1) mem refl])
  then have "validate_record ClosedReservations h (release_record r ''release'' reason clock) = Inr ()"
    using validate_closing_release record_facts(3) [OF val] by (simp add: validate_record_iff)
  then have "containers_ok ?p"
    using f(11-13) k
    by (auto simp: containers_ok_def intro: container_ok_update container_ok_delete container_ok_mono)
  moreover have new: "map_of (sp_closed p) h = None" using f(3) mem by (auto simp: apart_def)
  ultimately have "books ?p"
    by (intro books_moved [OF f(1), where x = zero_amounts and y = "negate (sr_reserved r)" and refs = "sr_scope_refs r"])
      (use c release_in_range [OF inv mem c] record_facts(9) [OF val] in
        \<open>simp_all add: expected_reserved_def expected_spent_def total_update_new [OF new]
          total_delete [OF f(8) mem] spent_part_def reserved_part_def negate_def\<close>)
  moreover have "wf_payload ?p" using f(2) k(3) by (simp add: wf_payload_def)
  moreover have "apart ?p" using f(3) mem by (auto simp: apart_def)
  ultimately show ?thesis using f(4,5) by (simp add: sp_inv_def priced_all_delete)
qed

lemma step_quarantine_keeps:
  assumes inv: "sp_inv p" and mem: "map_of (sp_reservations p) h = Some r"
  shows "sp_inv (to_quarantine h (quarantine_record r reason clock) p)" (is "sp_inv ?p")
proof -
  note f = inv_facts [OF inv]
  have val: "validate_record Reservations h r = Inr ()" by (rule books_container(1) [OF f(1) mem refl])
  then have "validate_record QuarantinedReservations h (quarantine_record r reason clock) = Inr ()"
    by (simp add: validate_record_iff)
  then have cont: "containers_ok ?p"
    using f(11-13) books_container(4) [OF f(1) mem]
    by (auto simp: containers_ok_def to_quarantine_def intro: container_ok_update container_ok_delete)
  have new: "map_of (sp_quarantined p) h = None" using f(3) mem by (auto simp: apart_def)
  have "expected_reserved ?p = expected_reserved p" "expected_spent ?p = expected_spent p"
    by (simp_all add: fun_eq_iff to_quarantine_def expected_reserved_def expected_spent_def
        total_update_new [OF new] total_delete [OF f(8) mem])
  then have "books ?p"
    using f(1) cont by (simp add: books_def balanced_def archive_ok_def) (simp add: to_quarantine_def)
  moreover have "wf_payload ?p" using f(2) by (simp add: wf_payload_def to_quarantine_def)
  moreover have "apart ?p" using f(3) mem by (auto simp: apart_def to_quarantine_def)
  moreover have "priced_ok r" using f(4) mem by (simp add: priced_all_def)
  ultimately show ?thesis using f(4,5)
    by (simp add: sp_inv_def to_quarantine_def priced_all_delete priced_all_update)
qed

lemma validate_closing_settle:
  assumes "amounts_ok (sr_reserved r)" "amounts_ok actual" "\<And>d. at_dim actual d \<le> at_dim (sr_reserved r) d"
    and "is_digest fingerprint" "is_digest proof_digest"
  shows "validate_closing (settle_record r actual fingerprint (Some proof_digest) clock reconciled) = Inr ()"
proof -
  have "safe_int (at_dim (sr_reserved r) d - at_dim actual d)" for d
  proof -
    have "safe_int (at_dim (sr_reserved r) d)" "safe_int (at_dim actual d)"
      using assms(1,2) by (simp_all add: amounts_ok_def)
    then show ?thesis using assms(3) [of d] unfolding safe_int_def by linarith
  qed
  then have "amounts_ok (sub_amounts (sr_reserved r) actual)" by (simp add: amounts_ok_def)
  then show ?thesis
    using assms by (simp add: validate_closing_def settle_record_def validate_present_def validate_digest_def
        rbind_Inr_iff list_all_iff)
qed

lemma step_settle_keeps:
  assumes inv: "sp_inv p" and mem: "map_of (if reconciled then sp_quarantined p else sp_reservations p) h = Some r"
    and c: "charged actual (negate (sr_reserved r)) (sr_scope_refs r) (sp_scopes p) scs" and range: "in_range scs"
    and ok: "amounts_ok actual" "\<And>d. at_dim actual d \<le> at_dim (sr_reserved r) d"
      "is_digest fingerprint" "is_digest proof_digest"
  shows "sp_inv (settled_payload h (settle_record r actual fingerprint (Some proof_digest) clock reconciled)
      reconciled scs p)" (is "sp_inv ?p")
proof -
  note f = inv_facts [OF inv] and k = charged_keys [OF c]
  let ?r = "settle_record r actual fingerprint (Some proof_digest) clock reconciled"
  have com: "common_ok h r"
    using mem books_container(1,3) [OF f(1)] by (auto simp: validate_record_iff split: if_splits)
  then have "validate_record ClosedReservations h ?r = Inr ()"
    using validate_closing_settle [OF _ ok] by (simp add: validate_record_iff) (simp add: common_ok_def)
  then have "containers_ok ?p"
    using f(11-13) k
    by (auto simp: containers_ok_def settled_payload_def intro: container_ok_update container_ok_delete container_ok_mono)
  moreover have new: "map_of (sp_closed p) h = None" using f(3) mem by (auto simp: apart_def split: if_splits)
  ultimately have "books ?p"
    by (intro books_moved [OF f(1), where x = actual and y = "negate (sr_reserved r)" and refs = "sr_scope_refs r"])
      (use c range com mem in \<open>simp_all add: settled_payload_def expected_reserved_def expected_spent_def
          total_update_new [OF new] total_delete [OF f(8)] total_delete [OF f(10)] spent_part_def
          reserved_part_def negate_def common_ok_def split: if_splits\<close>)
  moreover have "wf_payload ?p" using f(2) k(3) by (simp add: wf_payload_def settled_payload_def)
  moreover have "apart ?p" using f(3) mem by (auto simp: apart_def settled_payload_def split: if_splits)
  ultimately show ?thesis using f(4,5) by (simp add: sp_inv_def settled_payload_def priced_all_delete)
qed

lemma spend_step_keeps: "spend_step now p p' \<Longrightarrow> sp_inv p \<Longrightarrow> sp_inv p'"
proof (induction rule: spend_step.induct)
  case (step_prune p h r)
  then show ?case by (intro prune_closed_keeps) simp_all
next
  case (step_settle reconciled p h r actual scs fingerprint proof_digest clock)
  then show ?case by (intro step_settle_keeps)
qed (simp_all only: step_reserve_keeps step_reject_keeps step_release_keeps step_quarantine_keeps)

end
