(* ===== verification/Spend_Operations.thy ===== *)
theory Spend_Operations
  imports Spend_Invariant
begin

text \<open>
  The operations of the spend ledger as sequences of steps: what a locked section writes is
  reached from what it loaded by steps of \<open>spend_step\<close>, an operation that raises writes nothing,
  and the contracts of a transactional and of a monotone ledger hold.
\<close>

section \<open>Sequences of steps\<close>

abbreviation spend_steps :: "int \<Rightarrow> spend_payload \<Rightarrow> spend_payload \<Rightarrow> bool" where
  "spend_steps now \<equiv> (spend_step now)\<^sup>*\<^sup>*"

lemma spend_steps_keep: "spend_steps now p p' \<Longrightarrow> sp_inv p \<Longrightarrow> sp_inv p'"
  by (induction rule: rtranclp_induct) (auto intro: spend_step_keeps)

lemma spend_step_header: "spend_step now p p' \<Longrightarrow> sp_version p' = sp_version p \<and> sp_lineage_id_hash p' = sp_lineage_id_hash p"
  by (induction rule: spend_step.induct)
    (simp_all add: prune_closed_def to_quarantine_def settled_payload_def)

lemma spend_steps_header: "spend_steps now p p' \<Longrightarrow> sp_version p' = sp_version p \<and> sp_lineage_id_hash p' = sp_lineage_id_hash p"
  by (induction rule: rtranclp_induct) (auto dest: spend_step_header)

section \<open>Pruning\<close>

lemma prune_foldl:
  assumes "distinct (keys es)" and "\<And>e. e \<in> set es \<Longrightarrow> map_of (sp_closed p) (fst e) = Some (snd e)"
    and "p' = foldl (prune_closed now) p es"
  shows "spend_steps now p p' \<and> sp_scopes p' = sp_scopes p \<and> sp_reservations p' = sp_reservations p \<and>
    sp_quarantined p' = sp_quarantined p \<and>
    (\<forall>h. map_of (sp_closed p') h = (if \<exists>r. (h, r) \<in> set es \<and> sr_retention_until r \<le> now then None else map_of (sp_closed p) h))"
  using assms
proof (induction es arbitrary: p)
  case (Cons e es)
  define q where "q = prune_closed now p e"
  have step: "spend_step now p q"
    using step_prune [of p "fst e" "snd e"] Cons.prems(2) [of e] by (simp add: q_def)
  have q: "sp_scopes q = sp_scopes p" "sp_reservations q = sp_reservations p" "sp_quarantined q = sp_quarantined p"
    "map_of (sp_closed q) h = (if h = fst e \<and> sr_retention_until (snd e) \<le> now then None else map_of (sp_closed p) h)" for h
    by (simp_all add: q_def prune_closed_def)
  have "map_of (sp_closed q) (fst e') = Some (snd e')" if "e' \<in> set es" for e'
  proof -
    have "fst e' \<in> set (keys es)" using that by simp
    then have "fst e' \<noteq> fst e" using Cons.prems(1) by (metis distinct.simps(2) list.map(2))
    then show ?thesis using Cons.prems(2) [of e'] that by (simp add: q)
  qed
  then have IH: "spend_steps now q p' \<and> sp_scopes p' = sp_scopes q \<and> sp_reservations p' = sp_reservations q \<and>
    sp_quarantined p' = sp_quarantined q \<and>
    (\<forall>h. map_of (sp_closed p') h = (if \<exists>r. (h, r) \<in> set es \<and> sr_retention_until r \<le> now then None else map_of (sp_closed q) h))"
    using Cons.prems(1,3) by (intro Cons.IH) (simp_all add: q_def)
  moreover have "(\<exists>r. (h, r) \<in> set (e # es) \<and> sr_retention_until r \<le> now) \<longleftrightarrow>
      (h = fst e \<and> sr_retention_until (snd e) \<le> now) \<or> (\<exists>r. (h, r) \<in> set es \<and> sr_retention_until r \<le> now)" for h
    by (cases e) auto
  ultimately have "map_of (sp_closed p') h = (if \<exists>r. (h, r) \<in> set (e # es) \<and> sr_retention_until r \<le> now
      then None else map_of (sp_closed p) h)" for h
    by (simp add: q(4)) blast
  moreover have "spend_steps now p p'" using step IH by (blast intro: converse_rtranclp_into_rtranclp)
  ultimately show ?case using IH q(1-3) by simp
qed simp

lemma prune_terminal:
  assumes "sp_inv p"
  shows "spend_steps now p (prune_terminal_records now p)"
    and "sp_scopes (prune_terminal_records now p) = sp_scopes p"
    and "sp_reservations (prune_terminal_records now p) = sp_reservations p"
    and "sp_quarantined (prune_terminal_records now p) = sp_quarantined p"
    and "map_of (sp_closed (prune_terminal_records now p)) h =
      (case map_of (sp_closed p) h of None \<Rightarrow> None | Some r \<Rightarrow> if sr_retention_until r \<le> now then None else Some r)"
proof -
  have wf: "wf_dict (sp_closed p)" by (rule inv_facts(9) [OF assms])
  note f = prune_foldl [OF _ _ refl, of "sp_closed p" p now]
  have g: "spend_steps now p (prune_terminal_records now p) \<and> sp_scopes (prune_terminal_records now p) = sp_scopes p \<and>
      sp_reservations (prune_terminal_records now p) = sp_reservations p \<and>
      sp_quarantined (prune_terminal_records now p) = sp_quarantined p \<and>
      (\<forall>h. map_of (sp_closed (prune_terminal_records now p)) h =
        (if \<exists>r. (h, r) \<in> set (sp_closed p) \<and> sr_retention_until r \<le> now then None else map_of (sp_closed p) h))"
    unfolding prune_terminal_records_def using wf by (intro f) (auto simp: wf_dict_def)
  then show "spend_steps now p (prune_terminal_records now p)"
    and "sp_scopes (prune_terminal_records now p) = sp_scopes p"
    and "sp_reservations (prune_terminal_records now p) = sp_reservations p"
    and "sp_quarantined (prune_terminal_records now p) = sp_quarantined p" by blast+
  show "map_of (sp_closed (prune_terminal_records now p)) h =
      (case map_of (sp_closed p) h of None \<Rightarrow> None | Some r \<Rightarrow> if sr_retention_until r \<le> now then None else Some r)"
    using g wf_dict_map_of [OF wf] by (auto split: option.split)
qed

section \<open>What the locked sections write\<close>

lemma charged_adjust:
  "adjust_scopes (add_totals x y) refs scs = Inr scs' \<Longrightarrow> wf_dict scs \<Longrightarrow> charged x y refs scs scs'"
  using adjust_scopes_Inr by (simp add: charged_def)

lemma charged_remaining:
  "spend_remaining ceilings refs scs = Inr (m, scs') \<Longrightarrow> wf_dict scs \<Longrightarrow> charged zero_amounts zero_amounts refs scs scs'"
  using spend_remaining_Inr by (simp add: charged_def moved_def spent_at_def reserved_at_def)

lemma charged_trans:
  "charged zero_amounts zero_amounts refs scs scs1 \<Longrightarrow> charged x y refs scs1 scs2 \<Longrightarrow> charged x y refs scs scs2"
  by (auto simp: charged_def moved_def)

text \<open>Validation of what is written gives the range and record conditions of a step.\<close>

definition validated :: "spend_payload \<Rightarrow> bool" where
  "validated p \<longleftrightarrow> validate_books p = Inr ()"

lemma validated_books: "validated p \<Longrightarrow> wf_dict (sp_scopes p) \<Longrightarrow> books p"
  by (simp add: validated_def validate_books_iff)

lemma validated_in_range: "validated p \<Longrightarrow> wf_dict (sp_scopes p) \<Longrightarrow> in_range (sp_scopes p)"
  using validated_books by (simp add: in_range_def books_def)

lemma reserve_new_steps:
  assumes inv: "sp_inv p" and fresh: "unused p (sr_reservation_hash r)" and priced: "priced_ok r"
    and op: "spend_reserve_new r now p = Inr (Some p', res)" and val: "validated p'"
  shows "spend_step now p p'"
proof -
  note f = inv_facts [OF inv]
  let ?h = "sr_reservation_hash r"
  obtain m scs where rem: "spend_remaining (sr_ceilings r) (sr_scope_refs r) (sp_scopes p) = Inr (m, scs)"
    using op by (auto simp: spend_reserve_new_def)
  note c = charged_remaining [OF rem f(6)]
  show ?thesis
  proof (cases "first_breach (sr_reserved r) m")
    case None
    then obtain scs' where adj: "adjust_scopes (add_totals zero_amounts (sr_reserved r)) (sr_scope_refs r) scs = Inr scs'"
      and p': "p' = p\<lparr>sp_scopes := scs', sp_reservations := AList.update ?h r (sp_reservations p)\<rparr>"
      using op rem by (auto simp: spend_reserve_new_def Let_def)
    have c': "charged zero_amounts (sr_reserved r) (sr_scope_refs r) (sp_scopes p) scs'"
      using charged_trans [OF c] charged_adjust [OF adj charged_keys(3) [OF c]] by blast
    have wf: "wf_dict (sp_scopes p')" using charged_keys(3) [OF c'] by (simp add: p')
    have "validate_record Reservations ?h r = Inr ()"
      by (rule books_container(1) [OF validated_books [OF val wf] _ refl]) (simp add: p')
    then show ?thesis
      using step_reserve [OF fresh c' _ _ priced] validated_in_range [OF val wf] by (simp add: p')
  next
    case (Some breach)
    define r' where "r' = reject_record r breach m now"
    have p': "p' = p\<lparr>sp_scopes := scs, sp_closed := AList.update ?h r' (sp_closed p)\<rparr>"
      using op rem Some by (auto simp: spend_reserve_new_def Let_def r'_def)
    have "validate_record ClosedReservations ?h r' = Inr ()"
      by (rule books_container(2) [OF validated_books [OF val] _ refl]) (use charged_keys(3) [OF c] in \<open>simp_all add: p'\<close>)
    then show ?thesis
      using step_reject [OF fresh, of r' scs] c by (simp add: p' r'_def reject_record_def)
  qed
qed

lemma reserve_locked_steps:
  assumes inv: "sp_inv p" and priced: "priced_ok r"
    and op: "spend_reserve_locked r now p = Inr (Some p', res)" and val: "validated p'"
  shows "spend_steps now p p'"
proof -
  let ?q = "prune_terminal_records now p"
  have q: "spend_steps now p ?q" by (rule prune_terminal(1) [OF inv])
  have "unused ?q (sr_reservation_hash r)" and "spend_reserve_new r now ?q = Inr (Some p', res)"
    using op by (auto simp: spend_reserve_locked_def spend_replay_def unused_def Let_def split: option.splits if_splits)
  then have "spend_step now ?q p'"
    using reserve_new_steps [OF spend_steps_keep [OF q inv] _ priced _ val] by blast
  with q show ?thesis by simp
qed

lemma close_locked_steps:
  assumes inv: "sp_inv p" and op: "close_locked h session_id ''release'' reason clock p = Inr (Some p', res)"
  shows "spend_steps now p p'"
proof -
  obtain r scs where mem: "map_of (sp_reservations p) h = Some r"
    and adj: "adjust_scopes (add_totals zero_amounts (negate (sr_reserved r))) (sr_scope_refs r) (sp_scopes p) = Inr scs"
    and p': "p' = p\<lparr>sp_scopes := scs, sp_reservations := AList.delete h (sp_reservations p),
      sp_closed := AList.update h (release_record r ''release'' reason clock) (sp_closed p)\<rparr>"
    using op by (auto simp: close_locked_def Let_def split: option.splits if_splits)
  have "spend_step now p p'"
    unfolding p' by (rule step_release [OF mem charged_adjust [OF adj inv_facts(6) [OF inv]]])
  then show ?thesis ..
qed

lemma quarantine_locked_steps:
  assumes "quarantine_locked h session_id reason clock p = Inr (Some p', res)"
  shows "spend_steps now p p'"
  using assms by (auto simp: quarantine_locked_def Let_def split: option.splits if_splits intro: step_quarantine)

lemma settle_found_steps:
  assumes inv: "sp_inv p" and mem: "map_of (if reconciled then sp_quarantined p else sp_reservations p) h = Some r"
    and op: "settle_found h r reconciled i j proof_digest fingerprint clock p = Inr (Some p', res)"
    and val: "validated p'"
  shows "spend_step now p p'"
proof -
  let ?actual = "priced (sr_input_rate r) (sr_output_rate r) i j"
  consider (refused) reason where "settle_refused h r reconciled reason clock p = Inr (Some p', res)"
    | (settled) d scs where "proof_digest = Some d" "list_all (\<lambda>d. at_dim ?actual d \<le> at_dim (sr_reserved r) d) dimensions"
      "adjust_scopes (add_totals ?actual (negate (sr_reserved r))) (sr_scope_refs r) (sp_scopes p) = Inr scs"
      "p' = settled_payload h (settle_record r ?actual fingerprint (Some d) clock reconciled) reconciled scs p"
    using op by (cases proof_digest)
      (auto simp: settle_found_def Let_def settled_payload_def list_all_iff list_ex_iff not_less split: if_splits)
  then show ?thesis
  proof cases
    case refused
    then have "\<not> reconciled" "p' = to_quarantine h (quarantine_record r reason clock) p"
      by (auto simp: settle_refused_def Let_def split: if_splits)
    then show ?thesis using mem by (simp add: step_quarantine)
  next
    case settled
    have c: "charged ?actual (negate (sr_reserved r)) (sr_scope_refs r) (sp_scopes p) scs"
      by (rule charged_adjust [OF settled(3) inv_facts(6) [OF inv]])
    have sc: "sp_scopes p' = scs" by (simp add: settled(4) settled_payload_def)
    then have wf: "wf_dict (sp_scopes p')" using charged_keys(3) [OF c] by simp
    have "validate_record ClosedReservations h (settle_record r ?actual fingerprint (Some d) clock reconciled) = Inr ()"
      by (rule books_container(2) [OF validated_books [OF val wf] _ refl]) (simp add: settled(4) settled_payload_def)
    then have "amounts_ok ?actual" "is_digest fingerprint" "is_digest d"
      by (auto simp: validate_record_iff validate_closing_def settle_record_def rbind_Inr_iff validate_present_def
        validate_digest_def)
    then show ?thesis
      unfolding settled(4) using mem c validated_in_range [OF val wf] settled(2) sc
      by (intro step_settle) (auto simp: list_all_iff)
  qed
qed

lemma settle_locked_steps:
  assumes inv: "sp_inv p" and op: "settle_locked h session_id i j proof_digest fingerprint clock p = Inr (Some p', res)"
    and val: "validated p'"
  shows "spend_steps now p p'"
proof -
  have closed: "map_of (sp_closed p) h = None"
    using op by (auto simp: settle_locked_def split: option.splits if_splits)
  have "spend_step now p p'"
  proof (cases "map_of (sp_reservations p) h")
    case None
    then obtain r where "map_of (sp_quarantined p) h = Some r"
      "settle_found h r True i j proof_digest fingerprint clock p = Inr (Some p', res)"
      using op closed by (auto simp: settle_locked_def split: option.splits)
    then show ?thesis by (intro settle_found_steps [OF inv, where reconciled = True] val) simp_all
  next
    case (Some r)
    then have "settle_found h r False i j proof_digest fingerprint clock p = Inr (Some p', res)"
      using op closed by (auto simp: settle_locked_def)
    with Some show ?thesis by (intro settle_found_steps [OF inv, where reconciled = False] val) simp_all
  qed
  then show ?thesis ..
qed

lemma stale_steps:
  assumes "foldM (stale_step session_ref cutoff now) (p, rs) es = Inr (p', rs')"
    and "distinct (keys es)" and "\<And>e. e \<in> set es \<Longrightarrow> map_of (sp_reservations p) (fst e) = Some (snd e)"
  shows "spend_steps t p p'"
  using assms
proof (induction es arbitrary: p rs)
  case (Cons e es)
  then obtain q qs where 1: "stale_step session_ref cutoff now (p, rs) e = Inr (q, qs)"
    and 2: "foldM (stale_step session_ref cutoff now) (q, qs) es = Inr (p', rs')" by auto
  have q: "q = p \<or> q = to_quarantine (fst e) (quarantine_record (snd e) ''spend_reservation_stale'' now) p"
    using 1 by (auto simp: stale_step_def Let_def split: if_splits)
  have "map_of (sp_reservations q) (fst e') = Some (snd e')" if "e' \<in> set es" for e'
  proof -
    have "fst e' \<in> set (keys es)" using that by simp
    then have "fst e' \<noteq> fst e" using Cons.prems(2) by (metis distinct.simps(2) list.map(2))
    then show ?thesis using q Cons.prems(3) [of e'] that by (auto simp: to_quarantine_def)
  qed
  then have "spend_steps t q p'" using Cons.IH [OF 2] Cons.prems(2) by simp
  moreover have "spend_steps t p q"
    using q Cons.prems(3) [of e] by (auto intro: step_quarantine)
  ultimately show ?case by simp
qed simp

lemma stale_locked_steps:
  assumes "sp_inv p" and "stale_locked session_ref cutoff now p = Inr (Some p', res)"
  shows "spend_steps t p p'"
proof -
  have wf: "wf_dict (sp_reservations p)" by (rule inv_facts(8) [OF assms(1)])
  obtain rs where "foldM (stale_step session_ref cutoff now) (p, []) (sp_reservations p) = Inr (p', rs)"
    using assms(2) by (auto simp: stale_locked_def split: if_splits)
  then show ?thesis by (rule stale_steps) (use wf in \<open>auto simp: wf_dict_def\<close>)
qed

section \<open>The directory of files\<close>

lemma has_key_sort_keys [simp]: "has_key (sort_keys m) k \<longleftrightarrow> has_key m k"
  by (simp add: has_key_def)

lemma dget_sort_keys [simp]: "wf_dict m \<Longrightarrow> dget (sort_keys m) k v = dget m k v"
  by (simp add: dget_def)

lemma sorted_expected:
  assumes "wf_payload p"
  shows "expected_reserved (spend_sorted p) = expected_reserved p" "expected_spent (spend_sorted p) = expected_spent p"
  using assms by (simp_all add: fun_eq_iff expected_reserved_def expected_spent_def spend_sorted_def wf_payload_def)

lemma sorted_inv: "sp_inv p \<Longrightarrow> sp_inv (spend_sorted p)"
proof -
  assume inv: "sp_inv p"
  note f = inv_facts [OF inv]
  have "wf_payload (spend_sorted p)" using f(2) by (simp add: wf_payload_def spend_sorted_def)
  moreover have "apart (spend_sorted p)" using f(3,8-10) by (simp add: apart_def spend_sorted_def)
  moreover have "books (spend_sorted p)"
    using f(1,6) by (simp add: books_def balanced_def sorted_expected [OF f(2)])
      (simp add: spend_sorted_def archive_ok_def containers_ok_def container_ok_def spent_at_def reserved_at_def)
  ultimately show ?thesis
    using f(4,5,8,10) by (simp add: sp_inv_def priced_all_def) (simp add: spend_sorted_def)
qed

definition dir_ok :: "spend_state \<Rightarrow> bool" where
  "dir_ok st \<longleftrightarrow> (\<forall>f p. st f = Stored p \<longrightarrow> sp_inv p \<and> sp_version p = SPEND_LEDGER_VERSION \<and>
     f = sp_lineage_id_hash p @ ''.json'')"

lemma fresh_inv: "sp_inv (spend_fresh l)"
  by (simp add: spend_fresh_def sp_inv_def wf_payload_def books_def balanced_def apart_def priced_all_def
      archive_ok_def containers_ok_def container_ok_def expected_reserved_def expected_spent_def
      has_key_def dget_def spent_at_def reserved_at_def zero_totals_def flip: zero_totals_def)
    (simp add: zero_totals_def)

lemma load_Inr:
  assumes "dir_ok st" and "spend_load st l = Inr p"
  shows "sp_inv p" and "sp_version p = SPEND_LEDGER_VERSION" and "sp_lineage_id_hash p = scope_hash Lineage l"
  using assms fresh_inv
  by (auto simp: dir_ok_def spend_load_def validate_payload_def spend_fresh_def rbind_Inr_iff split: ledger_file.splits)

text \<open>A file the ledger wrote loads again: validation on load never refuses it.\<close>

lemma load_Stored:
  assumes "dir_ok st" and "st (spend_path l) = Stored p"
  shows "spend_load st l = Inr p"
proof -
  have "sp_inv p" "sp_version p = SPEND_LEDGER_VERSION" "spend_path l = sp_lineage_id_hash p @ ''.json''"
    using assms by (simp_all add: dir_ok_def)
  then show ?thesis
    using assms(2) validate_books_iff [OF inv_facts(6)] inv_facts(1)
    by (simp add: spend_load_def validate_payload_def spend_path_def)
qed

definition evolves :: "int \<Rightarrow> spend_state \<Rightarrow> spend_state \<Rightarrow> bool" where
  "evolves now st st' \<longleftrightarrow> st' = st \<or> (\<exists>l p p'. spend_load st l = Inr p \<and> spend_steps now p p' \<and>
     st' = st(spend_path l := Stored (spend_sorted p')))"

lemma evolves_ok: "evolves now st st' \<Longrightarrow> dir_ok st \<Longrightarrow> dir_ok st'"
proof (unfold evolves_def, elim disjE exE conjE)
  fix l p p' assume ok: "dir_ok st" and "spend_load st l = Inr p" "spend_steps now p p'"
    and st': "st' = st(spend_path l := Stored (spend_sorted p'))"
  then have "sp_inv p'" "sp_version p' = SPEND_LEDGER_VERSION" "sp_lineage_id_hash p' = scope_hash Lineage l"
    using load_Inr [OF ok] spend_steps_keep spend_steps_header by (metis, metis, metis)
  then show "dir_ok st'"
    using ok sorted_inv [of p'] by (simp add: dir_ok_def st' spend_path_def) (simp add: spend_sorted_def)
qed simp

lemma persist_Inr:
  "spend_persist st l p = Inr st' \<Longrightarrow> validated p \<and> st' = st(spend_path l := Stored (spend_sorted p))"
  by (auto simp: spend_persist_def validate_payload_def validated_def)

lemma commit_cases:
  obtains "snd (spend_commit st l m) = st"
  | p' r where "m = Inr (Some p', r)" "validated p'"
      "spend_commit st l m = (r, st(spend_path l := Stored (spend_sorted p')))"
proof (cases m)
  case (Inr pr)
  obtain w r where pr: "pr = (w, r)" by fastforce
  show ?thesis
  proof (cases w)
    case (Some p')
    show ?thesis
    proof (cases "spend_persist st l p'")
      case (Inr st')
      then show ?thesis using that(2) persist_Inr \<open>m = Inr pr\<close> Some pr by (simp add: spend_commit_def)
    qed (use that(1) Inr Some pr in \<open>simp add: spend_commit_def\<close>)
  qed (use that(1) Inr pr in \<open>simp add: spend_commit_def\<close>)
qed (use that(1) in \<open>simp add: spend_commit_def\<close>)

lemma commit_evolves:
  assumes "\<And>p' r. m = Inr (Some p', r) \<Longrightarrow> validated p' \<Longrightarrow> \<exists>p. spend_load st l = Inr p \<and> spend_steps now p p'"
  shows "evolves now st (snd (spend_commit st l m))"
proof (rule commit_cases [of st l m])
  fix p' r assume m: "m = Inr (Some p', r)" "validated p'"
    and c: "spend_commit st l m = (r, st(spend_path l := Stored (spend_sorted p')))"
  from assms [OF m] c show ?thesis by (auto simp: evolves_def)
qed (simp add: evolves_def)

lemma commit_raise:
  assumes "\<And>p' r. m = Inr (Some p', r) \<Longrightarrow> validated p' \<Longrightarrow> \<exists>x. r = Inr x"
    and "fst (spend_commit st l m) = Inl e"
  shows "snd (spend_commit st l m) = st"
proof (rule commit_cases [of st l m])
  fix p' r assume m: "m = Inr (Some p', r)" "validated p'" and c: "spend_commit st l m = (r, st(spend_path l := Stored (spend_sorted p')))"
  from assms(1) [OF m] c assms(2) show ?thesis by auto
qed

section \<open>Every operation is a sequence of steps, or no change\<close>

lemma validated_totals: "validated p \<Longrightarrow> totals_ok (totals_at (sp_scopes p) k)"
  by (cases "map_of (sp_scopes p) k")
    (auto simp: validated_def validate_books_def rbind_Inr_iff dget_def dest!: map_of_SomeD)

lemma close_result_ok: "validated p \<Longrightarrow> \<exists>x. close_result r p idem rec = Inr x"
  using spend_remaining_ok [of "sp_scopes p" "sr_ceilings r" "sr_scope_refs r"] validated_totals
  by (auto simp: close_result_def remaining_from_record_def Let_def)

lemma result_from_record_ok: "validated p \<Longrightarrow> \<exists>x. result_from_record r acc reason p idem = Inr x"
  using spend_remaining_ok [of "sp_scopes p" "sr_ceilings r" "sr_scope_refs r"] validated_totals
  by (auto simp: result_from_record_def remaining_from_record_def)

lemma prepare_priced: "spend_prepare a = Inr (l, r) \<Longrightarrow> priced_ok r"
  by (auto simp: spend_prepare_def reserve_amounts_def non_negative_int_def Let_def priced_ok_def
      split: if_splits)

lemma reserve_evolves: "dir_ok st \<Longrightarrow> evolves (sa_now a) st (snd (spend_reserve a st))"
proof (cases "spend_prepare a")
  case (Inr lr)
  assume ok: "dir_ok st"
  obtain l r where lr: "lr = (l, r)" by fastforce
  have "evolves (sa_now a) st (snd (spend_commit st l (rbind (spend_load st l) (spend_reserve_locked r (sa_now a)))))"
    using reserve_locked_steps [OF load_Inr(1) [OF ok] prepare_priced] Inr lr
    by (intro commit_evolves) (auto elim!: rbind_InrE)
  then show ?thesis by (simp add: spend_reserve_def Inr lr)
qed (simp add: spend_reserve_def evolves_def)

lemma cancel_evolves: "dir_ok st \<Longrightarrow> evolves now st (snd (spend_cancel l s rid reason clock st))"
proof (cases "bounded_string (JStr reason) ''reason_code'' 256")
  case (Inr r)
  assume ok: "dir_ok st"
  then show ?thesis
    using close_locked_steps [OF load_Inr(1) [OF ok]]
    by (auto simp: spend_cancel_def Inr close_without_spend_def intro!: commit_evolves elim!: rbind_InrE)
qed (simp add: spend_cancel_def evolves_def)

lemma settle_evolves: "dir_ok st \<Longrightarrow> evolves now st (snd (spend_settle l s rid u clock st))"
  unfolding spend_settle_def
  by (intro commit_evolves) (auto elim!: rbind_InrE intro: settle_locked_steps [OF load_Inr(1)])

lemma quarantine_evolves: "evolves now st (snd (spend_quarantine l s rid reason clock st))"
  unfolding spend_quarantine_def
  by (intro commit_evolves) (auto elim!: rbind_InrE intro: quarantine_locked_steps)

lemma stale_evolves: "dir_ok st \<Longrightarrow> evolves t st (snd (spend_quarantine_stale l s age now st))"
  unfolding spend_quarantine_stale_def
  by (intro commit_evolves) (auto elim!: rbind_InrE intro: stale_locked_steps [OF load_Inr(1)])

lemma exec_evolves:
  "dir_ok st \<Longrightarrow> (\<And>a. op = SpReserve a \<Longrightarrow> sa_now a = now) \<Longrightarrow> evolves now st (snd (spend_exec op st))"
proof (cases op)
  case (SpReserve a)
  moreover assume "dir_ok st" and "\<And>a. op = SpReserve a \<Longrightarrow> sa_now a = now"
  ultimately show ?thesis using reserve_evolves [of st a] by simp
qed (simp_all add: cancel_evolves settle_evolves quarantine_evolves stale_evolves)

lemma spend_reserve_locked_result:
  "spend_reserve_locked r now p = Inr (Some p', res) \<Longrightarrow> validated p' \<Longrightarrow> \<exists>x. res = Inr x"
  by (auto simp: spend_reserve_locked_def spend_replay_def spend_reserve_new_def Let_def
      intro: result_from_record_ok split: option.splits if_splits)

lemma close_locked_result:
  "close_locked h s opn reason clock p = Inr (Some p', res) \<Longrightarrow> validated p' \<Longrightarrow> \<exists>x. res = Inr x"
  by (auto simp: close_locked_def Let_def intro: close_result_ok split: option.splits if_splits)

lemma quarantine_locked_result:
  "quarantine_locked h s reason clock p = Inr (Some p', res) \<Longrightarrow> validated p' \<Longrightarrow> \<exists>x. res = Inr x"
  by (auto simp: quarantine_locked_def Let_def intro: close_result_ok split: option.splits if_splits)

lemma settle_found_result:
  "settle_found h r rec i j proof_digest fingerprint clock p = Inr (Some p', res) \<Longrightarrow> validated p' \<Longrightarrow> \<exists>x. res = Inr x"
  by (auto simp: settle_found_def settle_refused_def Let_def intro: close_result_ok split: if_splits)

lemma settle_locked_result:
  "settle_locked h s i j proof_digest fingerprint clock p = Inr (Some p', res) \<Longrightarrow> validated p' \<Longrightarrow> \<exists>x. res = Inr x"
  by (auto simp: settle_locked_def intro: settle_found_result split: option.splits if_splits)

lemma stale_locked_result: "stale_locked ref cutoff now p = Inr (Some p', res) \<Longrightarrow> \<exists>x. res = Inr x"
  by (auto simp: stale_locked_def)

lemma map_result_Inl: "map_sum id f x = Inl e \<longleftrightarrow> x = Inl e"
  by (cases x) simp_all

lemma exec_raise: "fst (spend_exec op st) = Inl e \<Longrightarrow> snd (spend_exec op st) = st"
proof (cases op)
  case (SpReserve a)
  assume "fst (spend_exec op st) = Inl e"
  then have "fst (spend_reserve a st) = Inl e" by (simp add: SpReserve map_result_Inl)
  then have "snd (spend_reserve a st) = st"
    by (auto simp: spend_reserve_def elim!: rbind_InrE commit_raise [rotated] dest: spend_reserve_locked_result
        split: sum.splits prod.splits)
  then show ?thesis by (simp add: SpReserve)
next
  case (SpCancel l s rid reason clock)
  assume "fst (spend_exec op st) = Inl e"
  then have "fst (spend_cancel l s rid reason clock st) = Inl e" by (simp add: SpCancel map_result_Inl)
  then have "snd (spend_cancel l s rid reason clock st) = st"
    by (auto simp: spend_cancel_def close_without_spend_def elim!: rbind_InrE commit_raise [rotated]
        dest: close_locked_result split: sum.splits)
  then show ?thesis by (simp add: SpCancel)
next
  case (SpSettle l s rid u clock)
  assume "fst (spend_exec op st) = Inl e"
  then have "fst (spend_settle l s rid u clock st) = Inl e" by (simp add: SpSettle map_result_Inl)
  then have "snd (spend_settle l s rid u clock st) = st"
    by (auto simp: spend_settle_def elim!: rbind_InrE commit_raise [rotated] dest: settle_locked_result)
  then show ?thesis by (simp add: SpSettle)
next
  case (SpQuarantine l s rid reason clock)
  assume "fst (spend_exec op st) = Inl e"
  then have "fst (spend_quarantine l s rid reason clock st) = Inl e" by (simp add: SpQuarantine map_result_Inl)
  then have "snd (spend_quarantine l s rid reason clock st) = st"
    by (auto simp: spend_quarantine_def elim!: rbind_InrE commit_raise [rotated] dest: quarantine_locked_result)
  then show ?thesis by (simp add: SpQuarantine)
next
  case (SpQuarantineStale l s age now)
  assume "fst (spend_exec op st) = Inl e"
  then have "fst (spend_quarantine_stale l s age now st) = Inl e" by (simp add: SpQuarantineStale map_result_Inl)
  then have "snd (spend_quarantine_stale l s age now st) = st"
    by (auto simp: spend_quarantine_stale_def elim!: rbind_InrE commit_raise [rotated] dest: stale_locked_result)
  then show ?thesis by (simp add: SpQuarantineStale)
qed

section \<open>The contracts\<close>

definition spent_in_file :: "spend_state \<Rightarrow> string \<times> string \<times> dimension \<Rightarrow> int" where
  "spent_in_file st k =
    (case k of (f, ref, d) \<Rightarrow> case st f of Stored p \<Rightarrow> spent_at (sp_scopes p) ref d | _ \<Rightarrow> 0)"

lemma spend_step_spent: "spend_step now p p' \<Longrightarrow> spent_at (sp_scopes p) k d \<le> spent_at (sp_scopes p') k d"
proof (induction rule: spend_step.induct)
  case (step_settle reconciled p h r actual scs fingerprint proof_digest clock)
  then have "0 \<le> ref_count (sr_scope_refs r) k * at_dim actual d"
    by (simp add: amounts_ok_def safe_int_def)
  then show ?case using step_settle(2) by (simp add: settled_payload_def charged_def moved_def)
qed (simp_all add: prune_closed_def to_quarantine_def charged_def moved_def)

lemma spend_steps_spent: "spend_steps now p p' \<Longrightarrow> spent_at (sp_scopes p) k d \<le> spent_at (sp_scopes p') k d"
  by (induction rule: rtranclp_induct) (auto dest: spend_step_spent [of _ _ _ k d])

lemma sorted_spent: "sp_inv p \<Longrightarrow> spent_at (sp_scopes (spend_sorted p)) k d = spent_at (sp_scopes p) k d"
  using inv_facts(6) by (simp add: spent_at_def spend_sorted_def)

lemma spent_nonneg: "sp_inv p \<Longrightarrow> 0 \<le> spent_at (sp_scopes p) k d"
  using books_at(4) [OF inv_facts(1), of p k d] by (simp add: safe_int_def)

lemma evolves_spent:
  assumes "evolves now st st'" and ok: "dir_ok st"
  shows "spent_in_file st k \<le> spent_in_file st' k"
proof (cases "st' = st")
  case False
  then obtain l p p' where load: "spend_load st l = Inr p" and steps: "spend_steps now p p'"
    and st': "st' = st(spend_path l := Stored (spend_sorted p'))"
    using assms(1) by (auto simp: evolves_def)
  obtain f ref d where k: "k = (f, ref, d)" by (cases k) auto
  have inv: "sp_inv p" "sp_inv p'" using load_Inr(1) [OF ok load] spend_steps_keep [OF steps] by blast+
  have "spent_in_file st (spend_path l, ref, d) \<le> spent_at (sp_scopes p) ref d"
    using load load_Stored [OF ok, of l] spent_nonneg [OF inv(1)]
    by (auto simp: spent_in_file_def split: ledger_file.split)
  also have "\<dots> \<le> spent_at (sp_scopes p') ref d" by (rule spend_steps_spent [OF steps])
  finally show ?thesis
    using sorted_spent [OF inv(2)] by (simp add: k st' spent_in_file_def)
qed simp

lemma op_time: "\<exists>now. \<forall>a. op = SpReserve a \<longrightarrow> sa_now a = now"
  by (cases op) auto

interpretation spend_tx: transactional_ledger spend_exec "\<lambda>_. True" dir_ok empty_directory
proof unfold_locales
  show "dir_ok empty_directory" by (simp add: dir_ok_def empty_directory_def)
  show "dir_ok (snd (spend_exec op st))" if "dir_ok st" for st op
    using that exec_evolves op_time evolves_ok by metis
  show "snd (spend_exec op st) = st" if "fst (spend_exec op st) = Inl e" for op st e
    using that by (rule exec_raise)
qed

interpretation spend_mono: monotone_ledger spend_exec "\<lambda>_. True" dir_ok empty_directory spent_in_file
proof unfold_locales
  show "spent_in_file st k \<le> spent_in_file (snd (spend_exec op st)) k" if "dir_ok st" for st op k
    using that exec_evolves op_time evolves_spent by metis
qed

end
