(* ===== verification/Spend_Properties.thy ===== *)
theory Spend_Properties
  imports Spend_Operations
begin

text \<open>
  What the spend ledger promises: ceilings, balanced books, settlement and refund to the micro,
  final spending, one acceptance per request, quarantined amounts that stay held, and prices that
  never round down.
\<close>

section \<open>Prices\<close>

lemma ceil_div_bounds:
  assumes "0 < m"
  shows "x \<le> ceil_div x m * m" and "ceil_div x m * m < x + m"
proof -
  have "(x + m - 1) mod m < m" "0 \<le> (x + m - 1) mod m" using assms by simp_all
  moreover have "ceil_div x m * m = (x + m - 1) - (x + m - 1) mod m"
    by (simp add: ceil_div_def minus_mod_eq_div_mult)
  ultimately show "x \<le> ceil_div x m * m" and "ceil_div x m * m < x + m" by linarith+
qed

lemma ceil_div_mono: "0 < m \<Longrightarrow> x \<le> y \<Longrightarrow> ceil_div x m \<le> ceil_div y m"
  by (simp add: ceil_div_def zdiv_mono1)

lemma ceil_div_nonneg: "0 < m \<Longrightarrow> 0 \<le> x \<Longrightarrow> 0 \<le> ceil_div x m"
  by (simp add: ceil_div_def pos_imp_zdiv_nonneg_iff)

lemma priced_mono:
  assumes "0 \<le> ir" "0 \<le> jr" "i \<le> i'" "j \<le> j'"
  shows "at_dim (priced ir jr i j) d \<le> at_dim (priced ir jr i' j') d"
  using assms by (cases d) (auto simp: priced_def intro!: add_mono ceil_div_mono mult_right_mono)

lemma priced_nonneg:
  "0 \<le> ir \<Longrightarrow> 0 \<le> jr \<Longrightarrow> 0 \<le> i \<Longrightarrow> 0 \<le> j \<Longrightarrow> 0 \<le> at_dim (priced ir jr i j) d"
  by (cases d) (simp_all add: priced_def ceil_div_nonneg)

lemma non_negative_int_iff [simp]: "non_negative_int (JInt n) field = Inr m \<longleftrightarrow> m = n \<and> safe_int n"
  by (auto simp: non_negative_int_def safe_int_def)

lemma reserve_amounts_Inr:
  assumes "reserve_amounts q i j = Inr a"
  shows "a = priced (q_input_rate q) (q_output_rate q) i j" and "safe_int i" and "safe_int j"
    and "at_tokens a \<le> MAX_SAFE_INTEGER" and "at_currency_micros a \<le> MAX_SAFE_INTEGER"
  using assms by (auto simp: reserve_amounts_def Let_def split: if_splits)

section \<open>Digests\<close>

lemma is_digest_hexlify [simp]: "is_digest (hexlify (sha256 b))"
  using hexlify_lower by (auto simp: is_digest_def list_all_iff)

lemma is_digest_scope_hash [simp]: "is_digest (scope_hash s v)" "is_digest (opaque_hash tag v)"
  by (simp_all add: scope_hash_def opaque_hash_def sha256_hex_def)

lemma canonical_digest_ok: "json_safe v \<Longrightarrow> \<exists>f. canonical_digest v = Inr f \<and> is_digest f"
  using canonical_json_bytes_total by (fastforce simp: canonical_digest_def)

lemma settlement_digest:
  assumes "safe_int i" "safe_int j"
  shows "\<exists>f. canonical_digest (settlement_payload h i j proof_digest) = Inr f \<and> is_digest f"
  using assms by (intro canonical_digest_ok)
    (simp add: settlement_payload_def safe_int_def MAX_SAFE_INTEGER_def INT_MAX_def INT_MIN_def split: option.split)

section \<open>Writing a payload that keeps the invariant\<close>

lemma persist_ok:
  assumes "sp_inv p" "sp_version p = SPEND_LEDGER_VERSION" "sp_lineage_id_hash p = scope_hash Lineage l"
  shows "spend_persist st l p = Inr (st(spend_path l := Stored (spend_sorted p)))" and "validated p"
  using assms validate_books_iff [OF inv_facts(6) [OF assms(1)]] inv_facts(1) [OF assms(1)]
  by (simp_all add: spend_persist_def validate_payload_def validated_def)

lemma commit_ok:
  assumes "sp_inv p" "sp_version p = SPEND_LEDGER_VERSION" "sp_lineage_id_hash p = scope_hash Lineage l"
  shows "spend_commit st l (Inr (Some p, r)) = (r, st(spend_path l := Stored (spend_sorted p)))"
  using persist_ok [OF assms] by (simp add: spend_commit_def)

lemma sorted_at:
  assumes "sp_inv p"
  shows "spent_at (sp_scopes (spend_sorted p)) = spent_at (sp_scopes p)"
    and "reserved_at (sp_scopes (spend_sorted p)) = reserved_at (sp_scopes p)"
    and "map_of (sp_closed (spend_sorted p)) = map_of (sp_closed p)"
    and "map_of (sp_quarantined (spend_sorted p)) = map_of (sp_quarantined p)"
    and "map_of (sp_reservations (spend_sorted p)) = map_of (sp_reservations p)"
  using inv_facts(6,8-10) [OF assms]
  by (simp_all add: fun_eq_iff spent_at_def reserved_at_def spend_sorted_def)

section \<open>Settling\<close>

lemma record_common:
  assumes "sp_inv p" and "map_of (sp_reservations p) h = Some r \<or> map_of (sp_quarantined p) h = Some r"
  shows "common_ok h r" and "priced_ok r" and "map_of (sp_closed p) h = None"
  using assms(2) books_container(1,3) [OF inv_facts(1) [OF assms(1)]] inv_facts(3-5) [OF assms(1)]
  by (auto simp: validate_record_iff priced_all_def apart_def)

lemma negated_ends:
  assumes inv: "sp_inv p" and mem: "map_of (sp_reservations p) h = Some r \<or> map_of (sp_quarantined p) h = Some r"
    and pos: "\<And>d. 0 \<le> at_dim x d"
    and room: "\<And>s d. spent_at (sp_scopes p) (at_scope (sr_scope_refs r) s) d
      + ref_count (sr_scope_refs r) (at_scope (sr_scope_refs r) s) * at_dim x d \<le> MAX_SAFE_INTEGER"
  shows "ends_ok x (negate (sr_reserved r)) (ref_count (sr_scope_refs r)) (sp_scopes p) k"
  unfolding ends_ok_def
proof
  fix d
  let ?n = "ref_count (sr_scope_refs r) k"
  note b = books_at(3,4) [OF inv_facts(1) [OF inv], of k d]
  have "spent_at (sp_scopes p) k d + ?n * at_dim x d \<le> MAX_SAFE_INTEGER"
  proof (cases "\<exists>s. k = at_scope (sr_scope_refs r) s")
    case False
    then have "?n = 0" by (intro ref_count_zero) auto
    then show ?thesis using b(2) by (simp add: safe_int_def)
  qed (use room in auto)
  moreover have "0 \<le> ?n * at_dim x d" using pos by simp
  moreover have "?n * at_dim (sr_reserved r) d \<le> reserved_at (sp_scopes p) k d"
    using reserved_covers [OF inv mem] by (simp add: reserved_part_def)
  moreover have "0 \<le> ?n * at_dim (sr_reserved r) d"
    using record_common(1) [OF inv mem] by (simp add: common_ok_def amounts_ok_def safe_int_def)
  ultimately show "safe_int (spent_at (sp_scopes p) k d) \<and> safe_int (reserved_at (sp_scopes p) k d) \<and>
      safe_int (spent_at (sp_scopes p) k d + ?n * at_dim x d) \<and>
      safe_int (reserved_at (sp_scopes p) k d + ?n * at_dim (negate (sr_reserved r)) d)"
    using b by (simp add: safe_int_def negate_def)
qed

text \<open>A usage the reservation of a record covers, with proof, and room to book it.\<close>

definition covered_usage :: "spend_payload \<Rightarrow> spend_record \<Rightarrow> spend_usage \<Rightarrow> bool" where
  "covered_usage p r u \<longleftrightarrow>
    0 \<le> us_input_tokens u \<and> us_input_tokens u \<le> sr_max_input_tokens r \<and>
    0 \<le> us_output_tokens u \<and> us_output_tokens u \<le> sr_max_output_tokens r \<and>
    (\<exists>d. us_proof_digest u = Some d \<and> is_digest d) \<and>
    (\<forall>s d. spent_at (sp_scopes p) (at_scope (sr_scope_refs r) s) d
      + ref_count (sr_scope_refs r) (at_scope (sr_scope_refs r) s)
        * at_dim (priced (sr_input_rate r) (sr_output_rate r) (us_input_tokens u) (us_output_tokens u)) d
      \<le> MAX_SAFE_INTEGER)"

lemma covered_actual:
  assumes inv: "sp_inv p" and mem: "map_of (sp_reservations p) h = Some r \<or> map_of (sp_quarantined p) h = Some r"
    and u: "covered_usage p r u"
    and a: "a = priced (sr_input_rate r) (sr_output_rate r) (us_input_tokens u) (us_output_tokens u)"
  shows "\<And>d. 0 \<le> at_dim a d" "\<And>d. at_dim a d \<le> at_dim (sr_reserved r) d" "amounts_ok a"
    "safe_int (us_input_tokens u)" "safe_int (us_output_tokens u)"
proof -
  note c = record_common [OF inv mem, unfolded common_ok_def priced_ok_def]
  show nn: "0 \<le> at_dim a d" for d
    using c(1) u by (simp add: a priced_nonneg safe_int_def covered_usage_def)
  show le: "at_dim a d \<le> at_dim (sr_reserved r) d" for d
    unfolding a c(2) using c(1) u by (intro priced_mono) (simp_all add: safe_int_def covered_usage_def)
  have "safe_int (at_dim a d)" for d
  proof -
    have "safe_int (at_dim (sr_reserved r) d)" using c(1) by (simp add: amounts_ok_def)
    then show ?thesis using nn [of d] le [of d] unfolding safe_int_def by linarith
  qed
  then show "amounts_ok a" by (simp add: amounts_ok_def)
  show "safe_int (us_input_tokens u)" "safe_int (us_output_tokens u)"
    using c(1) u by (auto simp: safe_int_def covered_usage_def)
qed

lemma settle_found_ok:
  assumes inv: "sp_inv p" and mem: "map_of (if reconciled then sp_quarantined p else sp_reservations p) h = Some r"
    and u: "covered_usage p r u" and f: "is_digest fingerprint"
    and a: "a = priced (sr_input_rate r) (sr_output_rate r) (us_input_tokens u) (us_output_tokens u)"
  obtains p' where "settle_found h r reconciled (us_input_tokens u) (us_output_tokens u) (us_proof_digest u)
      fingerprint clock p = Inr (Some p', close_result
        (settle_record r a fingerprint (us_proof_digest u) clock reconciled) p' False (Some reconciled))"
    and "sp_inv p'" and "sp_version p' = sp_version p" and "sp_lineage_id_hash p' = sp_lineage_id_hash p"
    and "moved a (negate (sr_reserved r)) (ref_count (sr_scope_refs r)) (sp_scopes p) (sp_scopes p')"
    and "map_of (sp_closed p') h = Some (settle_record r a fingerprint (us_proof_digest u) clock reconciled)"
proof -
  have mem': "map_of (sp_reservations p) h = Some r \<or> map_of (sp_quarantined p) h = Some r"
    using mem by (auto split: if_splits)
  note c = covered_actual [OF inv mem' u a]
  obtain d where d: "us_proof_digest u = Some d" "is_digest d" using u by (auto simp: covered_usage_def)
  have "ends_ok a (negate (sr_reserved r)) (ref_count (sr_scope_refs r)) (sp_scopes p) k" for k
    using u by (intro negated_ends [OF inv mem' c(1)]) (simp add: covered_usage_def a)
  then obtain scs where adj: "adjust_scopes (add_totals a (negate (sr_reserved r))) (sr_scope_refs r) (sp_scopes p) = Inr scs"
    using adjust_scopes_ok by blast
  let ?p = "settled_payload h (settle_record r a fingerprint (Some d) clock reconciled) reconciled scs p"
  have ch: "charged a (negate (sr_reserved r)) (sr_scope_refs r) (sp_scopes p) scs"
    by (rule charged_adjust [OF adj inv_facts(6) [OF inv]])
  have ends: "ends_ok a (negate (sr_reserved r)) (ref_count (sr_scope_refs r)) (sp_scopes p) k" for k
    using u by (intro negated_ends [OF inv mem' c(1)]) (simp add: covered_usage_def a)
  then have range: "in_range scs"
    using ch by (simp add: in_range_def totals_ok_at charged_def moved_def ends_ok_def)
  have "\<not> list_ex (\<lambda>d. at_dim (sr_reserved r) d < at_dim a d) dimensions"
    using c(2) by (simp add: list_ex_iff not_less)
  then have "settle_found h r reconciled (us_input_tokens u) (us_output_tokens u) (us_proof_digest u) fingerprint clock p
      = Inr (Some ?p, close_result (settle_record r a fingerprint (us_proof_digest u) clock reconciled) ?p False (Some reconciled))"
    using u d adj by (simp add: settle_found_def Let_def covered_usage_def settled_payload_def flip: a)
  moreover have "sp_inv ?p"
    by (rule step_settle_keeps [OF inv mem ch range c(3) c(2) f d(2)])
  ultimately show ?thesis
    using that [of ?p] ch d by (simp add: settled_payload_def charged_def)
qed

lemma settle_ok:
  assumes ok: "dir_ok st" and load: "spend_load st l = Inr p" and h: "spend_reservation_hash rid = Inr h"
    and mem: "map_of (sp_reservations p) h = Some r \<or> map_of (sp_quarantined p) h = Some r"
    and sid: "at_session (sr_scope_refs r) = scope_hash Session sid" and u: "covered_usage p r u"
    and a: "a = priced (sr_input_rate r) (sr_output_rate r) (us_input_tokens u) (us_output_tokens u)"
  shows "\<exists>res st' p'. spend_settle l sid rid u clock st = (Inr res, st') \<and> st' (spend_path l) = Stored p' \<and>
    scr_operation res = ''settle'' \<and> scr_actual res = a \<and> scr_refunded res = sub_amounts (sr_reserved r) a \<and>
    moved a (negate (sr_reserved r)) (ref_count (sr_scope_refs r)) (sp_scopes p) (sp_scopes p') \<and>
    map_of (sp_closed p') h \<noteq> None"
proof -
  note p = load_Inr [OF ok load]
  note c = covered_actual [OF p(1) mem u a]
  obtain f where f: "canonical_digest (settlement_payload h (us_input_tokens u) (us_output_tokens u) (us_proof_digest u)) = Inr f"
    and df: "is_digest f" using settlement_digest [OF c(4,5)] by blast
  define reconciled where "reconciled = (map_of (sp_reservations p) h = None)"
  have mem': "map_of (if reconciled then sp_quarantined p else sp_reservations p) h = Some r"
    using mem inv_facts(3) [OF p(1)] by (auto simp: reconciled_def apart_def)
  obtain p' where found: "settle_found h r reconciled (us_input_tokens u) (us_output_tokens u) (us_proof_digest u)
      f clock p = Inr (Some p', close_result (settle_record r a f (us_proof_digest u) clock reconciled) p' False (Some reconciled))"
    and p': "sp_inv p'" "sp_version p' = sp_version p" "sp_lineage_id_hash p' = sp_lineage_id_hash p"
    and mv: "moved a (negate (sr_reserved r)) (ref_count (sr_scope_refs r)) (sp_scopes p) (sp_scopes p')"
    and cl: "map_of (sp_closed p') h = Some (settle_record r a f (us_proof_digest u) clock reconciled)"
    by (rule settle_found_ok [OF p(1) mem' u df a]) blast
  have header: "sp_version p' = SPEND_LEDGER_VERSION" "sp_lineage_id_hash p' = scope_hash Lineage l"
    using p' p by simp_all
  note commit = commit_ok [OF p'(1) header] and val = persist_ok(2) [OF p'(1) header]
  have "settle_locked h sid (us_input_tokens u) (us_output_tokens u) (us_proof_digest u) f clock p
      = settle_found h r reconciled (us_input_tokens u) (us_output_tokens u) (us_proof_digest u) f clock p"
    using mem' record_common(3) [OF p(1) mem] sid
    by (cases "map_of (sp_reservations p) h") (simp_all add: settle_locked_def require_session_scope_def reconciled_def)
  then have run: "spend_settle l sid rid u clock st =
      (close_result (settle_record r a f (us_proof_digest u) clock reconciled) p' False (Some reconciled),
       st(spend_path l := Stored (spend_sorted p')))"
    using c(4,5) h f load found commit by (simp add: spend_settle_def non_negative_int_def safe_int_def)
  obtain res where res: "close_result (settle_record r a f (us_proof_digest u) clock reconciled) p' False (Some reconciled) = Inr res"
    using close_result_ok [OF val] by blast
  then have "scr_operation res = ''settle''" "scr_actual res = a" "scr_refunded res = sub_amounts (sr_reserved r) a"
    by (auto simp: close_result_def Let_def or_default_def actual_amounts_def settle_record_def)
  then show ?thesis
    using run res mv cl sorted_at [OF p'(1)] by (intro exI [of _ res]) (simp add: moved_def)
qed

section \<open>Cancelling\<close>

lemma cancel_ok:
  assumes ok: "dir_ok st" and load: "spend_load st l = Inr p" and h: "spend_reservation_hash rid = Inr h"
    and mem: "map_of (sp_reservations p) h = Some r"
    and sid: "at_session (sr_scope_refs r) = scope_hash Session sid"
    and reason: "bounded_string (JStr reason) ''reason_code'' 256 = Inr reason'"
  shows "\<exists>res st' p'. spend_cancel l sid rid reason clock st = (Inr res, st') \<and> st' (spend_path l) = Stored p' \<and>
    scr_operation res = ''release'' \<and> scr_actual res = zero_amounts \<and> scr_refunded res = sr_reserved r \<and>
    moved zero_amounts (negate (sr_reserved r)) (ref_count (sr_scope_refs r)) (sp_scopes p) (sp_scopes p') \<and>
    map_of (sp_reservations p') h = None"
proof -
  note p = load_Inr [OF ok load]
  have "ends_ok zero_amounts (negate (sr_reserved r)) (ref_count (sr_scope_refs r)) (sp_scopes p) k" for k
    using mem books_at(4) [OF inv_facts(1) [OF p(1)]] by (intro negated_ends [OF p(1)]) (auto simp: safe_int_def)
  then obtain scs where adj: "adjust_scopes (add_totals zero_amounts (negate (sr_reserved r))) (sr_scope_refs r) (sp_scopes p) = Inr scs"
    using adjust_scopes_ok by blast
  note ch = charged_adjust [OF adj inv_facts(6) [OF p(1)]]
  let ?r = "release_record r ''release'' reason' clock"
  let ?p = "p\<lparr>sp_scopes := scs, sp_reservations := AList.delete h (sp_reservations p),
      sp_closed := AList.update h ?r (sp_closed p)\<rparr>"
  have inv: "sp_inv ?p" by (rule step_release_keeps [OF p(1) mem ch])
  have header: "sp_version ?p = SPEND_LEDGER_VERSION" "sp_lineage_id_hash ?p = scope_hash Lineage l" using p by simp_all
  have "close_locked h sid ''release'' reason' clock p = Inr (Some ?p, close_result ?r ?p False None)"
    using mem record_common(3) [OF p(1) disjI1 [OF mem]] sid adj by (simp add: close_locked_def require_session_scope_def Let_def)
  then have run: "spend_cancel l sid rid reason clock st =
      (close_result ?r ?p False None, st(spend_path l := Stored (spend_sorted ?p)))"
    using reason h load commit_ok [OF inv header] by (simp add: spend_cancel_def close_without_spend_def)
  obtain res where res: "close_result ?r ?p False None = Inr res"
    using close_result_ok [OF persist_ok(2) [OF inv header]] by blast
  then have "scr_operation res = ''release''" "scr_actual res = zero_amounts" "scr_refunded res = sr_reserved r"
    by (auto simp: close_result_def Let_def or_default_def release_record_def)
  then show ?thesis
    using run res ch sorted_at [OF inv] by (intro exI [of _ res]) (simp add: charged_def moved_def)
qed

section \<open>Reserving\<close>

lemma first_breach_None:
  "first_breach a m = None \<longleftrightarrow> (\<forall>s d. at_dim a d \<le> at_dim (at_scope m s) d)"
  by (auto simp: first_breach_def find_None_iff not_less)

lemma result_accepted: "result_from_record r acc reason p idem = Inr x \<Longrightarrow> srr_accepted x = acc"
  by (auto simp: result_from_record_def)

lemma replay_refused: "spend_replay r prior reason p = Inr (w, Inr x) \<Longrightarrow> \<not> srr_accepted x"
  by (auto simp: spend_replay_def dest: result_accepted)

lemma reserve_new_accepted:
  assumes "spend_reserve_new r now p = Inr (w, Inr x)" and "srr_accepted x"
  obtains m scs scs' where "spend_remaining (sr_ceilings r) (sr_scope_refs r) (sp_scopes p) = Inr (m, scs)"
    and "first_breach (sr_reserved r) m = None"
    and "adjust_scopes (add_totals zero_amounts (sr_reserved r)) (sr_scope_refs r) scs = Inr scs'"
    and "w = Some (p\<lparr>sp_scopes := scs', sp_reservations := AList.update (sr_reservation_hash r) r (sp_reservations p)\<rparr>)"
proof -
  obtain m scs where rem: "spend_remaining (sr_ceilings r) (sr_scope_refs r) (sp_scopes p) = Inr (m, scs)"
    using assms(1) by (auto simp: spend_reserve_new_def)
  have none: "first_breach (sr_reserved r) m = None"
    using assms rem by (auto simp: spend_reserve_new_def Let_def split: option.splits dest!: result_accepted)
  then show ?thesis
    using that [OF rem none] assms(1) rem by (auto simp: spend_reserve_new_def Let_def)
qed

lemma reserve_locked_accepted:
  assumes "spend_reserve_locked r now p = Inr (w, Inr x)" and "srr_accepted x"
  shows "unused (prune_terminal_records now p) (sr_reservation_hash r)"
    and "spend_reserve_new r now (prune_terminal_records now p) = Inr (w, Inr x)"
  using assms replay_refused
  by (auto simp: spend_reserve_locked_def unused_def Let_def split: option.splits if_splits)

lemma commit_Inr:
  assumes "spend_commit st l m = (Inr x, st')"
  obtains "m = Inr (None, Inr x)" and "st' = st"
  | p' where "m = Inr (Some p', Inr x)" and "validated p'" and "st' = st(spend_path l := Stored (spend_sorted p'))"
proof (cases m)
  case (Inr pr)
  then obtain w r where m: "m = Inr (w, r)" by (cases pr) simp
  show ?thesis
  proof (cases w)
    case None
    then show ?thesis using that(1) assms m by (simp add: spend_commit_def)
  next
    case (Some p')
    then show ?thesis
      using that(2) assms m persist_Inr by (auto simp: spend_commit_def split: sum.splits)
  qed
qed (use assms in \<open>simp add: spend_commit_def\<close>)

lemma reserve_accepted_steps:
  assumes run: "spend_reserve a st = (Inr res, st')" and acc: "srr_accepted res" and ok: "dir_ok st"
  obtains l r p p' where "spend_prepare a = Inr (l, r)" and "spend_load st l = Inr p" and "sp_inv p"
    and "unused (prune_terminal_records (sa_now a) p) (sr_reservation_hash r)"
    and "\<And>s d. at_dim (sr_reserved r) d \<le>
      at_dim (room (sr_ceilings r) s (totals_at (sp_scopes p) (at_scope (sr_scope_refs r) s))) d"
    and "charged zero_amounts (sr_reserved r) (sr_scope_refs r) (sp_scopes p) (sp_scopes p')"
    and "map_of (sp_reservations p') (sr_reservation_hash r) = Some r" and "sp_inv p'"
    and "st' = st(spend_path l := Stored (spend_sorted p'))"
proof -
  obtain l r where prep: "spend_prepare a = Inr (l, r)"
    using run by (cases "spend_prepare a") (auto simp: spend_reserve_def)
  have com: "spend_commit st l (rbind (spend_load st l) (spend_reserve_locked r (sa_now a))) = (Inr res, st')"
    using run prep by (simp add: spend_reserve_def)
  then obtain p where load: "spend_load st l = Inr p"
    by (cases "spend_load st l") (auto simp: spend_commit_def)
  have inv: "sp_inv p" by (rule load_Inr(1) [OF ok load])
  let ?q = "prune_terminal_records (sa_now a) p"
  have new: "unused ?q (sr_reservation_hash r)" "spend_reserve_new r (sa_now a) ?q = Inr (w, Inr res)"
    if "spend_reserve_locked r (sa_now a) p = Inr (w, Inr res)" for w
    using reserve_locked_accepted [OF that acc] by blast+
  show ?thesis
  proof (rule commit_Inr [OF com])
    assume "rbind (spend_load st l) (spend_reserve_locked r (sa_now a)) = Inr (None, Inr res)"
    then show ?thesis using new(2) load by (auto elim: reserve_new_accepted [OF _ acc])
  next
    fix p' assume lock: "rbind (spend_load st l) (spend_reserve_locked r (sa_now a)) = Inr (Some p', Inr res)"
      and val: "validated p'" and st': "st' = st(spend_path l := Stored (spend_sorted p'))"
    then have lock': "spend_reserve_locked r (sa_now a) p = Inr (Some p', Inr res)" by (simp add: load)
    obtain m scs scs' where rem: "spend_remaining (sr_ceilings r) (sr_scope_refs r) (sp_scopes ?q) = Inr (m, scs)"
      and br: "first_breach (sr_reserved r) m = None"
      and adj: "adjust_scopes (add_totals zero_amounts (sr_reserved r)) (sr_scope_refs r) scs = Inr scs'"
      and p': "p' = ?q\<lparr>sp_scopes := scs', sp_reservations := AList.update (sr_reservation_hash r) r (sp_reservations ?q)\<rparr>"
      by (rule reserve_new_accepted [OF new(2) [OF lock'] acc]) blast
    note rem' = rem [unfolded prune_terminal(2) [OF inv]]
    have c: "charged zero_amounts zero_amounts (sr_scope_refs r) (sp_scopes p) scs"
      by (rule charged_remaining [OF rem' inv_facts(6) [OF inv]])
    have "charged zero_amounts (sr_reserved r) (sr_scope_refs r) (sp_scopes p) (sp_scopes p')"
      using charged_trans [OF c charged_adjust [OF adj charged_keys(3) [OF c]]] by (simp add: p')
    moreover have "at_dim (sr_reserved r) d \<le>
        at_dim (room (sr_ceilings r) s (totals_at (sp_scopes p) (at_scope (sr_scope_refs r) s))) d" for s d
      using br spend_remaining_Inr(1) [OF rem'] by (simp add: first_breach_None)
    moreover have "sp_inv p'"
      using spend_steps_keep [OF reserve_locked_steps [OF inv prepare_priced [OF prep] lock' val] inv] .
    moreover have "map_of (sp_reservations p') (sr_reservation_hash r) = Some r" by (simp add: p')
    ultimately show ?thesis by (intro that [OF prep load inv new(1) [OF lock'] _ _ _ _ st'])
  qed
qed

text \<open>What the constructor of a quote checks, and what a prepared record therefore is.\<close>

definition quote_ok :: "spend_quote \<Rightarrow> bool" where
  "quote_ok q \<longleftrightarrow> safe_int (q_input_rate q) \<and> safe_int (q_output_rate q) \<and> safe_int (q_valid_from q) \<and>
    safe_int (q_valid_until q) \<and> q_valid_from q < q_valid_until q \<and> is_currency (q_currency q)"

lemma non_negative_int_Inr: "non_negative_int v field = Inr n \<Longrightarrow> safe_int n"
  by (cases v) (auto simp: non_negative_int_def safe_int_def split: if_splits)

lemma currency_Inr: "currency v field = Inr c \<Longrightarrow> is_currency c"
  by (auto simp: currency_def split: if_splits)

lemma make_spend_quote_ok:
  assumes "make_spend_quote qid tool mdl cur ir jr vf vu = Inr q"
  shows "quote_ok q"
  using assms by (auto simp: make_spend_quote_def quote_ok_def split: if_splits
      dest!: non_negative_int_Inr currency_Inr)

lemma normalize_scopes_Inr: "normalize_scopes field v = Inr c \<Longrightarrow> safe_int (at_scope c s)"
  by (cases v; cases s) (auto simp: normalize_scopes_def split: if_splits dest: non_negative_int_Inr)

lemma normalize_ceilings_safe: "Spend_Policy.normalize_ceilings v = Inr c \<Longrightarrow> safe_int (at_scope (at_dim c d) s)"
  by (cases v; cases d) (auto simp: Spend_Policy.normalize_ceilings_def dest: normalize_scopes_Inr)

lemma normalize_spend_Inr:
  assumes "normalize_spend_budget raw l req = Inr pol"
  shows "safe_int (at_scope (at_dim (spp_ceilings pol) d) s)" and "is_currency (spp_currency pol)"
  using assms by (cases raw; auto simp: normalize_spend_budget_def dest: normalize_ceilings_safe currency_Inr)+

lemma canonical_digest_Inr: "canonical_digest v = Inr f \<Longrightarrow> is_digest f"
  by (auto simp: canonical_digest_def split: sum.splits)

lemma spend_reservation_hash_Inr: "spend_reservation_hash rid = Inr h \<Longrightarrow> is_digest h"
  by (auto simp: spend_reservation_hash_def)

lemma prepare_record:
  assumes "spend_prepare a = Inr (l, r)" and q: "quote_ok (sa_quote a)"
  shows "validate_record Reservations (sr_reservation_hash r) r = Inr ()"
proof -
  obtain pol retention reserved h qd f where
    pol: "normalize_spend_budget (sa_policy a) None True = Inr pol" "q_currency (sa_quote a) = spp_currency pol"
    and time: "q_valid_from (sa_quote a) \<le> sa_now a" "sa_now a < q_valid_until (sa_quote a)"
      "safe_int retention" "sa_now a < retention"
    and am: "reserve_amounts (sa_quote a) (rq_max_input_tokens (sa_request a)) (rq_max_output_tokens (sa_request a)) = Inr reserved"
    and h: "spend_reservation_hash (rq_request_id (sa_request a)) = Inr h"
    and qd: "quote_digest (sa_quote a) = Inr qd"
    and f: "canonical_digest (fingerprint_payload a pol (or_default (spp_lineage_id pol) []) qd h) = Inr f"
    and r: "sr_fingerprint r = f" "sr_reservation_hash r = h" "sr_quote_digest r = qd"
      "sr_quote_id_hash r = opaque_hash ''quote'' (rq_quote_id (sa_request a))" "sr_currency r = spp_currency pol"
      "sr_reserved r = reserved" "sr_scope_refs r = sa_scope_refs a (or_default (spp_lineage_id pol) [])"
      "sr_ceilings r = spp_ceilings pol" "sr_max_input_tokens r = rq_max_input_tokens (sa_request a)"
      "sr_max_output_tokens r = rq_max_output_tokens (sa_request a)" "sr_input_rate r = q_input_rate (sa_quote a)"
      "sr_output_rate r = q_output_rate (sa_quote a)" "sr_created_at r = sa_now a" "sr_retention_until r = retention"
      "sr_operation r = None"
    using assms(1) by (auto simp: spend_prepare_def Let_def)
  note ra = reserve_amounts_Inr [OF am]
  have "0 \<le> at_dim reserved d" for d
    unfolding ra(1) using ra(2,3) q by (intro priced_nonneg) (simp_all add: safe_int_def quote_ok_def)
  then have "amounts_ok reserved"
    using ra(4,5) unfolding amounts_ok_def safe_int_def by (metis at_dim.simps dimension.exhaust)
  moreover have "safe_int (sa_now a)" using time q by (simp add: safe_int_def quote_ok_def)
  moreover have "is_digest (at_scope (sa_scope_refs a l') s)" for l' s
    by (cases s) (simp_all add: sa_scope_refs_def)
  ultimately show ?thesis
    using normalize_spend_Inr [OF pol(1)] ra(2,3) time(3,4) q spend_reservation_hash_Inr [OF h]
      canonical_digest_Inr [OF f] canonical_digest_Inr [OF qd [unfolded quote_digest_def]]
    by (simp add: validate_record_iff common_ok_def r quote_ok_def)
qed

lemma reserve_ends:
  assumes inv: "sp_inv p" and am: "amounts_ok (sr_reserved r)"
    and ceil: "\<And>d s. safe_int (at_scope (at_dim (sr_ceilings r) d) s)"
    and room: "\<And>s d. spent_at (sp_scopes p) (at_scope (sr_scope_refs r) s) d
        + reserved_at (sp_scopes p) (at_scope (sr_scope_refs r) s) d
        + ref_count (sr_scope_refs r) (at_scope (sr_scope_refs r) s) * at_dim (sr_reserved r) d
      \<le> at_scope (at_dim (sr_ceilings r) d) s"
  shows "ends_ok zero_amounts (sr_reserved r) (ref_count (sr_scope_refs r)) (sp_scopes p) k"
  unfolding ends_ok_def
proof
  fix d
  let ?n = "ref_count (sr_scope_refs r) k"
  note b = books_at(3,4) [OF inv_facts(1) [OF inv], of k d]
  have "0 \<le> at_dim (sr_reserved r) d" using am by (simp add: amounts_ok_def safe_int_def)
  then have "0 \<le> ?n * at_dim (sr_reserved r) d" by simp
  moreover have "reserved_at (sp_scopes p) k d + ?n * at_dim (sr_reserved r) d \<le> MAX_SAFE_INTEGER"
  proof (cases "\<exists>s. k = at_scope (sr_scope_refs r) s")
    case True
    then obtain s where k: "k = at_scope (sr_scope_refs r) s" by blast
    from b room [of s d, folded k] ceil [of d s] show ?thesis unfolding safe_int_def by linarith
  next
    case False
    then have "?n = 0" by (intro ref_count_zero) auto
    then show ?thesis using b(1) by (simp add: safe_int_def)
  qed
  ultimately show "safe_int (spent_at (sp_scopes p) k d) \<and> safe_int (reserved_at (sp_scopes p) k d) \<and>
      safe_int (spent_at (sp_scopes p) k d + ?n * at_dim zero_amounts d) \<and>
      safe_int (reserved_at (sp_scopes p) k d + ?n * at_dim (sr_reserved r) d)"
    using b by (simp add: safe_int_def)
qed

end
