(* ===== verification/Spend_Histories.thy ===== *)
theory Spend_Histories
  imports Spend_Properties
begin

text \<open>
  Histories of the spend ledger: a request that fits is granted, an identifier stays in use while its
  record is retained, and a quarantined reservation stays held until it is settled.
\<close>

section \<open>Granting a reservation\<close>

lemma ref_count_mult_ge: "0 \<le> x \<Longrightarrow> x \<le> ref_count refs (at_scope refs s) * x" for x :: int
  using mult_right_mono [OF ref_count_pos [of refs s], of x] by simp

lemma grants_new:
  assumes inv: "sp_inv p" and fresh: "unused p (sr_reservation_hash r)"
    and val: "validate_record Reservations (sr_reservation_hash r) r = Inr ()" and priced: "priced_ok r"
    and room: "\<And>s d. spent_at (sp_scopes p) (at_scope (sr_scope_refs r) s) d
        + reserved_at (sp_scopes p) (at_scope (sr_scope_refs r) s) d
        + ref_count (sr_scope_refs r) (at_scope (sr_scope_refs r) s) * at_dim (sr_reserved r) d
      \<le> at_scope (at_dim (sr_ceilings r) d) s"
  obtains p' where "spend_reserve_new r now p = Inr (Some p', result_from_record r True ''spend_reserved'' p' False)"
    and "sp_inv p'" and "sp_version p' = sp_version p" and "sp_lineage_id_hash p' = sp_lineage_id_hash p"
proof -
  have com: "common_ok (sr_reservation_hash r) r" using val by (simp add: validate_record_iff)
  then have am: "amounts_ok (sr_reserved r)" and ceil: "\<And>d s. safe_int (at_scope (at_dim (sr_ceilings r) d) s)"
    by (simp_all add: common_ok_def)
  obtain m scs where rem: "spend_remaining (sr_ceilings r) (sr_scope_refs r) (sp_scopes p) = Inr (m, scs)"
    using spend_remaining_ok inv_facts(1) [OF inv] by (metis books_def)
  note c = charged_remaining [OF rem inv_facts(6) [OF inv]]
  have "at_dim (sr_reserved r) d \<le> at_dim (at_scope m s) d" for s d
  proof -
    have "0 \<le> at_dim (sr_reserved r) d" using am by (simp add: amounts_ok_def safe_int_def)
    then have "at_dim (sr_reserved r) d \<le> at_scope (at_dim (sr_ceilings r) d) s
        - spent_at (sp_scopes p) (at_scope (sr_scope_refs r) s) d - reserved_at (sp_scopes p) (at_scope (sr_scope_refs r) s) d"
      using room [of s d] ref_count_mult_ge [of "at_dim (sr_reserved r) d" "sr_scope_refs r" s] by linarith
    then show ?thesis
      by (simp add: spend_remaining_Inr(1) [OF rem] room_def spent_at_def reserved_at_def)
  qed
  then have br: "first_breach (sr_reserved r) m = None" by (simp add: first_breach_None)
  have same: "spent_at scs k d = spent_at (sp_scopes p) k d" "reserved_at scs k d = reserved_at (sp_scopes p) k d" for k d
    using c by (simp_all add: charged_def moved_def)
  have ends: "ends_ok zero_amounts (sr_reserved r) (ref_count (sr_scope_refs r)) scs k" for k
    using reserve_ends [OF inv am ceil room, of k] by (simp add: ends_ok_def same)
  then obtain scs' where adj: "adjust_scopes (add_totals zero_amounts (sr_reserved r)) (sr_scope_refs r) scs = Inr scs'"
    using adjust_scopes_ok by blast
  have c': "charged zero_amounts (sr_reserved r) (sr_scope_refs r) (sp_scopes p) scs'"
    using charged_trans [OF c charged_adjust [OF adj charged_keys(3) [OF c]]] .
  have "in_range scs'"
    using ends c' by (simp add: in_range_def totals_ok_at charged_def moved_def ends_ok_def same)
  note inv' = step_reserve_keeps [OF inv fresh c' this val priced]
  show ?thesis by (rule that [OF _ inv']) (use rem br adj in \<open>simp_all add: spend_reserve_new_def Let_def\<close>)
qed

lemma reserve_grants_spend:
  assumes ok: "dir_ok st" and prep: "spend_prepare a = Inr (l, r)" and q: "quote_ok (sa_quote a)"
    and load: "spend_load st l = Inr p"
    and fresh: "unused (prune_terminal_records (sa_now a) p) (sr_reservation_hash r)"
    and cap: "length (sp_reservations (prune_terminal_records (sa_now a) p))
      + length (sp_closed (prune_terminal_records (sa_now a) p))
      + length (sp_quarantined (prune_terminal_records (sa_now a) p)) < MAX_LEDGER_RECORDS"
    and room: "\<And>s d. spent_at (sp_scopes p) (at_scope (sr_scope_refs r) s) d
        + reserved_at (sp_scopes p) (at_scope (sr_scope_refs r) s) d
        + ref_count (sr_scope_refs r) (at_scope (sr_scope_refs r) s) * at_dim (sr_reserved r) d
      \<le> at_scope (at_dim (sr_ceilings r) d) s"
  shows "\<exists>res st'. spend_reserve a st = (Inr res, st') \<and> srr_accepted res"
proof -
  let ?q = "prune_terminal_records (sa_now a) p"
  note p = load_Inr [OF ok load] and pr = prune_terminal [OF load_Inr(1) [OF ok load], of "sa_now a"]
  have inv: "sp_inv ?q" by (rule spend_steps_keep [OF pr(1) p(1)])
  obtain p' where new: "spend_reserve_new r (sa_now a) ?q = Inr (Some p', result_from_record r True ''spend_reserved'' p' False)"
    and p': "sp_inv p'" "sp_version p' = sp_version ?q" "sp_lineage_id_hash p' = sp_lineage_id_hash ?q"
    by (rule grants_new [OF inv fresh prepare_record [OF prep q] prepare_priced [OF prep]])
      (use room in \<open>simp_all add: pr(2)\<close>)
  have header: "sp_version p' = SPEND_LEDGER_VERSION" "sp_lineage_id_hash p' = scope_hash Lineage l"
    using p' p spend_steps_header [OF pr(1)] by simp_all
  have "spend_reserve_locked r (sa_now a) p = Inr (Some p', result_from_record r True ''spend_reserved'' p' False)"
    using fresh cap new by (simp add: spend_reserve_locked_def unused_def Let_def)
  moreover obtain res where "result_from_record r True ''spend_reserved'' p' False = Inr res"
    using result_from_record_ok [OF persist_ok(2) [OF p'(1) header]] by blast
  ultimately show ?thesis
    using prep load commit_ok [OF p'(1) header] result_accepted by (fastforce simp: spend_reserve_def)
qed

section \<open>A request identifier stays known\<close>

definition keeps_id :: "int \<Rightarrow> string \<Rightarrow> spend_payload \<Rightarrow> bool" where
  "keeps_id t h p \<longleftrightarrow> (\<exists>r. t \<le> sr_retention_until r \<and>
    (map_of (sp_reservations p) h = Some r \<or> map_of (sp_quarantined p) h = Some r \<or> map_of (sp_closed p) h = Some r))"

lemma spend_step_keeps_id:
  assumes "spend_step now p p'" and "sp_inv p" and "now < t" and "keeps_id t h p"
  shows "keeps_id t h p'"
  using assms
proof (induction rule: spend_step.induct)
  case (step_prune p h' r)
  then show ?case by (cases "h' = h") (auto simp: keeps_id_def prune_closed_def)
next
  case (step_reserve p h' r scs)
  then show ?case by (cases "h' = h") (auto simp: keeps_id_def unused_def)
next
  case (step_reject p h' r scs)
  then show ?case by (cases "h' = h") (auto simp: keeps_id_def unused_def)
next
  case (step_release p h' r scs reason clock)
  then show ?case using inv_facts(3) [OF step_release.prems(1)] by (cases "h' = h") (auto simp: keeps_id_def apart_def)
next
  case (step_quarantine p h' r reason clock)
  then show ?case using inv_facts(3) [OF step_quarantine.prems(1)]
    by (cases "h' = h") (auto simp: keeps_id_def to_quarantine_def apart_def)
next
  case (step_settle reconciled p h' r actual scs fingerprint proof_digest clock)
  then show ?case using inv_facts(3) [OF step_settle.prems(1)]
    by (cases "h' = h"; cases reconciled) (auto simp: keeps_id_def settled_payload_def apart_def)
qed

lemma spend_steps_keep_id:
  assumes "spend_steps now p p'" and "sp_inv p" and "now < t" and "keeps_id t h p"
  shows "keeps_id t h p'"
  using assms(1)
proof (induction rule: rtranclp_induct)
  case (step y z)
  then show ?case using spend_step_keeps_id [OF step.hyps(2)] spend_steps_keep [OF step.hyps(1)] assms(2,3) by blast
qed (rule assms(4))

definition state_keeps_id :: "int \<Rightarrow> string \<Rightarrow> string \<Rightarrow> spend_state \<Rightarrow> bool" where
  "state_keeps_id t l h st \<longleftrightarrow> (\<exists>p. st (spend_path l) = Stored p \<and> keeps_id t h p)"

lemma keeps_id_sorted: "sp_inv p \<Longrightarrow> keeps_id t h (spend_sorted p) \<longleftrightarrow> keeps_id t h p"
  by (simp add: keeps_id_def sorted_at)

lemma evolves_keeps_id:
  assumes "evolves now st st'" and ok: "dir_ok st" and "now < t" and keeps: "state_keeps_id t l h st"
  shows "state_keeps_id t l h st'"
proof (cases "st' (spend_path l) = st (spend_path l)")
  case True
  then show ?thesis using keeps by (simp add: state_keeps_id_def)
next
  case False
  then obtain l' p p' where load: "spend_load st l' = Inr p" and steps: "spend_steps now p p'"
    and st': "st' = st(spend_path l' := Stored (spend_sorted p'))"
    using assms(1) by (auto simp: evolves_def)
  have same: "spend_path l' = spend_path l" using False st' by (auto split: if_splits)
  then have "keeps_id t h p"
    using keeps load load_Stored [OF ok, of l'] by (auto simp: state_keeps_id_def)
  then have "keeps_id t h p'" using spend_steps_keep_id [OF steps load_Inr(1) [OF ok load] assms(3)] by blast
  then show ?thesis
    using keeps_id_sorted [OF spend_steps_keep [OF steps load_Inr(1) [OF ok load]]] same
    by (simp add: state_keeps_id_def st')
qed

definition spend_before :: "int \<Rightarrow> spend_op \<Rightarrow> bool" where
  "spend_before t op = (case op of SpReserve a \<Rightarrow> sa_now a < t | _ \<Rightarrow> True)"

lemma run_keeps_id:
  assumes "dir_ok st" and "list_all (spend_before t) ops" and "state_keeps_id t l h st"
  shows "state_keeps_id t l h (run spend_exec ops st) \<and> dir_ok (run spend_exec ops st)"
  using assms
proof (induction ops arbitrary: st)
  case (Cons op ops)
  obtain now where now: "now < t" "\<And>a. op = SpReserve a \<Longrightarrow> sa_now a = now"
  proof (cases "\<exists>a. op = SpReserve a")
    case True
    then show ?thesis using Cons.prems(2) that by (auto simp: spend_before_def)
  qed (use that [of "t - 1"] in auto)
  have ev: "evolves now st (snd (spend_exec op st))" by (rule exec_evolves [OF Cons.prems(1) now(2)])
  then show ?case
    using Cons.IH [OF evolves_ok [OF ev Cons.prems(1)]] evolves_keeps_id [OF ev Cons.prems(1) now(1)] Cons.prems by simp
qed simp

lemma prepare_hash:
  "spend_prepare a = Inr (l, r) \<Longrightarrow> spend_reservation_hash (rq_request_id (sa_request a)) = Inr (sr_reservation_hash r)"
  by (auto simp: spend_prepare_def Let_def)

section \<open>A quarantined reservation stays held\<close>

definition holds_quarantined :: "string \<Rightarrow> string \<Rightarrow> spend_record \<Rightarrow> spend_state \<Rightarrow> bool" where
  "holds_quarantined l h r st \<longleftrightarrow> (\<exists>p. st (spend_path l) = Stored p \<and> map_of (sp_quarantined p) h = Some r)"

lemma reserve_locked_held:
  assumes "sp_inv p" and "spend_reserve_locked r' now p = Inr (Some p', res)" and "map_of (sp_quarantined p) h = Some r"
  shows "map_of (sp_quarantined p') h = Some r"
  using assms(2,3) prune_terminal(4) [OF assms(1), of now]
  by (auto simp: spend_reserve_locked_def spend_reserve_new_def spend_replay_def Let_def split: option.splits if_splits)

lemma close_locked_held: "close_locked h s opn reason clock p = Inr (Some p', res) \<Longrightarrow> sp_quarantined p' = sp_quarantined p"
  by (auto simp: close_locked_def Let_def split: option.splits if_splits)

lemma quarantine_locked_held:
  "quarantine_locked h' s reason clock p = Inr (Some p', res) \<Longrightarrow> map_of (sp_quarantined p) h = Some r \<Longrightarrow>
    map_of (sp_quarantined p') h = Some r"
  by (auto simp: quarantine_locked_def to_quarantine_def Let_def split: option.splits if_splits)

lemma stale_held:
  assumes "foldM (stale_step ref cutoff now) (p, rs) es = Inr (p', rs')" and "h \<notin> set (keys es)"
  shows "map_of (sp_quarantined p') h = map_of (sp_quarantined p) h"
  using assms
proof (induction es arbitrary: p rs)
  case (Cons e es)
  then obtain q qs where 1: "stale_step ref cutoff now (p, rs) e = Inr (q, qs)"
    and 2: "foldM (stale_step ref cutoff now) (q, qs) es = Inr (p', rs')" by auto
  have "map_of (sp_quarantined q) h = map_of (sp_quarantined p) h"
    using 1 Cons.prems(2) by (auto simp: stale_step_def to_quarantine_def Let_def split: if_splits)
  then show ?case using Cons.IH [OF 2] Cons.prems(2) by simp
qed simp

lemma stale_locked_held:
  assumes "sp_inv p" and "stale_locked ref cutoff now p = Inr (Some p', res)" and "map_of (sp_quarantined p) h = Some r"
  shows "map_of (sp_quarantined p') h = Some r"
proof -
  obtain rs where "foldM (stale_step ref cutoff now) (p, []) (sp_reservations p) = Inr (p', rs)"
    using assms(2) by (auto simp: stale_locked_def split: if_splits)
  moreover have "map_of (sp_reservations p) h = None" using inv_facts(3) [OF assms(1)] assms(3) by (force simp: apart_def)
  then have "h \<notin> set (keys (sp_reservations p))" by (simp add: map_of_eq_None_iff)
  ultimately show ?thesis using stale_held assms(3) by metis
qed

lemma settle_found_held:
  "settle_found h' r' rec i j proof_digest fingerprint clock p = Inr (Some p', res) \<Longrightarrow> h' \<noteq> h \<Longrightarrow>
    map_of (sp_quarantined p') h = map_of (sp_quarantined p) h"
  by (auto simp: settle_found_def settle_refused_def to_quarantine_def Let_def split: if_splits)

lemma settle_locked_held:
  "settle_locked h' s i j proof_digest fingerprint clock p = Inr (Some p', res) \<Longrightarrow> h' \<noteq> h \<Longrightarrow>
    map_of (sp_quarantined p') h = map_of (sp_quarantined p) h"
  by (auto simp: settle_locked_def dest: settle_found_held split: option.splits if_splits)

lemma commit_held:
  assumes ok: "dir_ok st" and ok': "dir_ok (snd (spend_commit st l' m))"
    and m: "\<And>p' x. m = Inr (Some p', x) \<Longrightarrow> \<exists>p. spend_load st l' = Inr p \<and>
      (map_of (sp_quarantined p) h = Some r \<longrightarrow> map_of (sp_quarantined p') h = Some r)"
    and held: "holds_quarantined l h r st"
  shows "holds_quarantined l h r (snd (spend_commit st l' m))"
proof (rule commit_cases [of st l' m])
  fix p' x assume eq: "m = Inr (Some p', x)" and c: "spend_commit st l' m = (x, st(spend_path l' := Stored (spend_sorted p')))"
  obtain p where load: "spend_load st l' = Inr p"
    and keep: "map_of (sp_quarantined p) h = Some r \<Longrightarrow> map_of (sp_quarantined p') h = Some r" using m [OF eq] by blast
  have "sp_inv (spend_sorted p')" using ok' unfolding c dir_ok_def by (metis fun_upd_same snd_conv)
  then have wf: "wf_dict (sp_quarantined p')" using inv_facts(10) by (fastforce simp: spend_sorted_def)
  show ?thesis
  proof (cases "spend_path l = spend_path l'")
    case True
    then have "map_of (sp_quarantined p) h = Some r"
      using held load load_Stored [OF ok, of l'] by (auto simp: holds_quarantined_def)
    then show ?thesis using True keep wf by (simp add: c holds_quarantined_def spend_sorted_def)
  qed (use held in \<open>simp add: c holds_quarantined_def\<close>)
qed (use held in simp)

definition not_settling :: "string \<Rightarrow> spend_op \<Rightarrow> bool" where
  "not_settling h op = (case op of SpSettle _ _ rid _ _ \<Rightarrow> spend_reservation_hash rid \<noteq> Inr h | _ \<Rightarrow> True)"

lemma exec_held:
  assumes ok: "dir_ok st" and op: "not_settling h op" and held: "holds_quarantined l h r st"
  shows "holds_quarantined l h r (snd (spend_exec op st))"
proof -
  have ok': "dir_ok (snd (spend_exec op st))" using spend_tx.inv_exec ok by blast
  show ?thesis
  proof (cases op)
    case (SpReserve a)
    show ?thesis
    proof (cases "spend_prepare a")
      case (Inr lr)
      then show ?thesis
        using ok' held
        by (cases lr) (auto simp: SpReserve spend_reserve_def intro!: commit_held [OF ok] elim!: rbind_InrE
            intro: reserve_locked_held [OF load_Inr(1) [OF ok]])
    qed (use held in \<open>simp add: SpReserve spend_reserve_def\<close>)
  next
    case (SpCancel l' s rid reason clock)
    then show ?thesis
      using ok' held close_locked_held
      by (cases "bounded_string (JStr reason) ''reason_code'' 256")
        (auto simp: spend_cancel_def close_without_spend_def intro!: commit_held [OF ok] elim!: rbind_InrE)
  next
    case (SpSettle l' s rid u clock)
    then show ?thesis
      using ok' held op settle_locked_held
      by (auto simp: spend_settle_def not_settling_def intro!: commit_held [OF ok] elim!: rbind_InrE)
  next
    case (SpQuarantine l' s rid reason clock)
    then show ?thesis
      using ok' held quarantine_locked_held
      by (auto simp: spend_quarantine_def intro!: commit_held [OF ok] elim!: rbind_InrE)
  next
    case (SpQuarantineStale l' s age now)
    then show ?thesis
      using ok' held
      by (auto simp: spend_quarantine_stale_def intro!: commit_held [OF ok] elim!: rbind_InrE
          intro: stale_locked_held [OF load_Inr(1) [OF ok]])
  qed
qed

lemma run_held:
  "dir_ok st \<Longrightarrow> list_all (not_settling h) ops \<Longrightarrow> holds_quarantined l h r st \<Longrightarrow>
    holds_quarantined l h r (run spend_exec ops st)"
  by (induction ops arbitrary: st) (simp_all add: exec_held spend_tx.inv_exec)

lemma quarantine_ok:
  assumes ok: "dir_ok st" and load: "spend_load st l = Inr p" and h: "spend_reservation_hash rid = Inr h"
    and mem: "map_of (sp_reservations p) h = Some r"
    and sid: "at_session (sr_scope_refs r) = scope_hash Session sid"
    and reason: "bounded_string (JStr reason) ''reason_code'' 256 = Inr reason'"
  shows "\<exists>res st' p'. spend_quarantine l sid rid reason clock st = (Inr res, st') \<and> st' (spend_path l) = Stored p' \<and>
    map_of (sp_quarantined p') h = Some (quarantine_record r reason' clock) \<and> dir_ok st'"
proof -
  note p = load_Inr [OF ok load]
  let ?r = "quarantine_record r reason' clock"
  let ?p = "to_quarantine h ?r p"
  have inv: "sp_inv ?p" by (rule step_quarantine_keeps [OF p(1) mem])
  have header: "sp_version ?p = SPEND_LEDGER_VERSION" "sp_lineage_id_hash ?p = scope_hash Lineage l"
    using p by (simp_all add: to_quarantine_def)
  have "map_of (sp_quarantined p) h = None" "map_of (sp_closed p) h = None"
    using inv_facts(3) [OF p(1)] mem by (auto simp: apart_def)
  then have "quarantine_locked h sid reason' clock p = Inr (Some ?p, close_result ?r ?p False None)"
    using mem sid by (simp add: quarantine_locked_def require_session_scope_def Let_def)
  then have run: "spend_quarantine l sid rid reason clock st =
      (close_result ?r ?p False None, st(spend_path l := Stored (spend_sorted ?p)))"
    using reason h load commit_ok [OF inv header] by (simp add: spend_quarantine_def)
  obtain res where res: "close_result ?r ?p False None = Inr res"
    using close_result_ok [OF persist_ok(2) [OF inv header]] by blast
  have "snd (spend_exec (SpQuarantine l sid rid reason clock) st) = snd (spend_quarantine l sid rid reason clock st)"
    by simp
  then have "dir_ok (snd (spend_quarantine l sid rid reason clock st))" using spend_tx.inv_exec [OF ok] by metis
  then show ?thesis
    using run res sorted_at(4) [OF inv] by (simp add: to_quarantine_def)
qed

end
