(* ===== verification/Spend_Demo.thy ===== *)
theory Spend_Demo
  imports Spend_Histories
begin

text \<open>
  A concrete history of the spend ledger, used to apply its guarantees: a policy in US dollars with a
  ceiling of 1000 in every scope, a quote of two and three micros per token, and a call of at most ten
  input and five output tokens. Digests stay symbolic: only their shape matters.
\<close>

definition spend_demo_scopes :: jv where
  "spend_demo_scopes = JObj [(''session'', JInt 1000), (''agent'', JInt 1000), (''lineage'', JInt 1000)]"

definition spend_demo_policy :: jv where
  "spend_demo_policy = JObj
    [(''version'', JInt 1), (''currency'', JStr ''USD''), (''metered_tools'', JArr [JStr ''llm'']),
     (''ceilings'', JObj [(''tokens'', spend_demo_scopes), (''currency_micros'', spend_demo_scopes)]),
     (''lineage_id'', JStr ''root'')]"

definition spend_demo_quote :: spend_quote where
  "spend_demo_quote = \<lparr>q_quote_id = ''q1'', q_tool_name = ''llm'', q_model = ''m1'', q_currency = ''USD'',
    q_input_rate = 2000000, q_output_rate = 3000000, q_valid_from = 0, q_valid_until = 100\<rparr>"

definition spend_demo :: spend_reserve_args where
  "spend_demo = \<lparr>sa_policy = spend_demo_policy, sa_session_id = ''s1'', sa_agent_id = ''a1'',
    sa_request = \<lparr>rq_request_id = ''req-1'', rq_quote_id = ''q1'', rq_model = ''m1'',
      rq_max_input_tokens = 10, rq_max_output_tokens = 5\<rparr>,
    sa_quote = spend_demo_quote, sa_now = 10, sa_retention_until = None\<rparr>"

definition spend_demo_amounts :: amounts where
  "spend_demo_amounts = \<lparr>at_tokens = 15, at_currency_micros = 35\<rparr>"

definition spend_demo_ceilings :: "int scoped dims" where
  "spend_demo_ceilings = dims_of (\<lambda>_. \<lparr>at_session = 1000, at_agent = 1000, at_lineage = 1000\<rparr>)"

definition spend_demo_hash :: string where
  "spend_demo_hash = opaque_hash ''spend-reservation'' ''req-1''"

lemma spend_demo_checks:
  "normalize_spend_budget spend_demo_policy None True = Inr \<lparr>spp_currency = ''USD'', spp_metered_tools = [''llm''],
    spp_ceilings = spend_demo_ceilings, spp_lineage_id = Some ''root''\<rparr>"
  "reserve_amounts spend_demo_quote 10 5 = Inr spend_demo_amounts"
  "bounded_string (JStr ''req-1'') ''request_id'' 512 = Inr ''req-1''"
  "bounded_string (JStr ''late'') ''reason_code'' 256 = Inr ''late''"
  by code_simp+

lemma spend_demo_quote_ok: "quote_ok spend_demo_quote"
proof -
  have "is_currency ''USD''" by code_simp
  then show ?thesis by (simp add: quote_ok_def spend_demo_quote_def safe_int_def MAX_SAFE_INTEGER_def)
qed

lemma spend_demo_hash_of: "spend_reservation_hash ''req-1'' = Inr spend_demo_hash"
  by (simp add: spend_reservation_hash_def spend_demo_checks(3) spend_demo_hash_def)

lemma spend_demo_prepare:
  obtains r where "spend_prepare spend_demo = Inr (''root'', r)" and "sr_reserved r = spend_demo_amounts"
    and "sr_ceilings r = spend_demo_ceilings" and "sr_reservation_hash r = spend_demo_hash"
    and "sr_scope_refs r = sa_scope_refs spend_demo ''root''" and "sr_retention_until r = 100"
    and "sr_max_input_tokens r = 10" and "sr_max_output_tokens r = 5"
    and "sr_input_rate r = 2000000" and "sr_output_rate r = 3000000"
proof -
  obtain qd where qd: "quote_digest spend_demo_quote = Inr qd"
    using canonical_digest_ok [of "canonical_payload spend_demo_quote"]
    by (auto simp: quote_digest_def canonical_payload_def spend_demo_quote_def SPEND_QUOTE_VERSION_def INT_MAX_def INT_MIN_def)
  let ?pol = "\<lparr>spp_currency = ''USD'', spp_metered_tools = [''llm''], spp_ceilings = spend_demo_ceilings,
    spp_lineage_id = Some ''root''\<rparr>"
  have "json_safe (fingerprint_payload spend_demo ?pol ''root'' qd spend_demo_hash)"
    by (simp add: fingerprint_payload_def refs_json_def spend_policy_json_def ceilings_json_def scoped_json_def scopes_def
        dimensions_def spend_demo_ceilings_def spend_demo_def SPEND_LEDGER_VERSION_def SPEND_BUDGET_VERSION_def
        INT_MAX_def INT_MIN_def)
  then obtain f where f: "canonical_digest (fingerprint_payload spend_demo ?pol ''root'' qd spend_demo_hash) = Inr f"
    using canonical_digest_ok by blast
  have "\<exists>r. spend_prepare spend_demo = Inr (''root'', r) \<and> sr_reserved r = spend_demo_amounts \<and>
      sr_ceilings r = spend_demo_ceilings \<and> sr_reservation_hash r = spend_demo_hash \<and>
      sr_scope_refs r = sa_scope_refs spend_demo ''root'' \<and> sr_retention_until r = 100 \<and>
      sr_max_input_tokens r = 10 \<and> sr_max_output_tokens r = 5 \<and> sr_input_rate r = 2000000 \<and> sr_output_rate r = 3000000"
    using f qd spend_demo_checks(1,2) spend_demo_hash_of
    by (simp add: spend_prepare_def or_default_def) (simp add: spend_demo_def Let_def or_default_def,
      simp add: spend_demo_quote_def non_negative_int_def MAX_SAFE_INTEGER_def)
  then show ?thesis using that by blast
qed

lemma ref_count_le: "ref_count refs k \<le> 3"
  using length_filter_le [of "\<lambda>s. at_scope refs s = k" scopes] by (simp add: ref_count_def scopes_def)

lemma spend_demo_fits: "ref_count refs k * at_dim spend_demo_amounts d \<le> 105"
proof -
  have "0 \<le> at_dim spend_demo_amounts d" "at_dim spend_demo_amounts d \<le> 35"
    by (cases d; simp add: spend_demo_amounts_def)+
  then show ?thesis using mult_mono [OF ref_count_le, of "at_dim spend_demo_amounts d" 35 refs k] by simp
qed

lemma spend_fresh_at: "spent_at (sp_scopes (spend_fresh l)) k d = 0" "reserved_at (sp_scopes (spend_fresh l)) k d = 0"
  by (simp_all add: spent_at_def reserved_at_def spend_fresh_def dget_def zero_totals_def)

lemma spend_demo_load: "spend_load empty_directory l = Inr (spend_fresh l)"
  by (simp add: spend_load_def empty_directory_def)

lemma dir_ok_empty: "dir_ok empty_directory"
  by (simp add: dir_ok_def empty_directory_def)

lemma spend_demo_ceiling: "at_scope (at_dim spend_demo_ceilings d) s = 1000"
  by (cases s) (simp_all add: spend_demo_ceilings_def)

lemma spend_demo_premises:
  assumes "spend_prepare spend_demo = Inr (''root'', r)" and "sr_reserved r = spend_demo_amounts" and "sr_ceilings r = spend_demo_ceilings"
  shows "quote_ok (sa_quote spend_demo)" and "sa_now spend_demo = 10"
    and "unused (prune_terminal_records now (spend_fresh ''root'')) h"
    and "prune_terminal_records now (spend_fresh ''root'') = spend_fresh ''root''"
    and "spent_at (sp_scopes (spend_fresh ''root'')) (at_scope (sr_scope_refs r) s) d
        + reserved_at (sp_scopes (spend_fresh ''root'')) (at_scope (sr_scope_refs r) s) d
        + ref_count (sr_scope_refs r) (at_scope (sr_scope_refs r) s) * at_dim (sr_reserved r) d
      \<le> at_scope (at_dim (sr_ceilings r) d) s"
proof -
  show "quote_ok (sa_quote spend_demo)" "sa_now spend_demo = 10" by (simp_all add: spend_demo_def spend_demo_quote_ok)
  show *: "prune_terminal_records now (spend_fresh ''root'') = spend_fresh ''root''"
    by (simp add: prune_terminal_records_def spend_fresh_def)
  show "unused (prune_terminal_records now (spend_fresh ''root'')) h"
    unfolding * by (simp add: unused_def spend_fresh_def)
qed (use spend_demo_fits [of "sr_scope_refs r" "at_scope (sr_scope_refs r) s" d] in
    \<open>simp add: spend_fresh_at spend_demo_ceiling assms\<close>)

lemma spend_demo_accepted: "\<exists>res st. spend_reserve spend_demo empty_directory = (Inr res, st) \<and> srr_accepted res"
proof (rule spend_demo_prepare)
  fix r assume r: "spend_prepare spend_demo = Inr (''root'', r)" "sr_reserved r = spend_demo_amounts" "sr_ceilings r = spend_demo_ceilings"
  show ?thesis
    by (rule reserve_grants_spend [OF dir_ok_empty r(1) spend_demo_premises(1) [OF r] spend_demo_load
          spend_demo_premises(3) [OF r]])
      (simp_all add: spend_demo_premises [OF r], simp add: spend_fresh_def MAX_LEDGER_RECORDS_def)
qed

text \<open>The ledger after the call is reserved.\<close>

lemma spend_demo_reserved:
  obtains r res st p where "spend_prepare spend_demo = Inr (''root'', r)" and "spend_reserve spend_demo empty_directory = (Inr res, st)"
    and "srr_accepted res" and "dir_ok st" and "st (spend_path ''root'') = Stored p" and "spend_load st ''root'' = Inr p"
    and "map_of (sp_reservations p) spend_demo_hash = Some r" and "\<And>k d. spent_at (sp_scopes p) k d = 0"
    and "sr_reserved r = spend_demo_amounts" and "at_session (sr_scope_refs r) = scope_hash Session ''s1''"
    and "sr_retention_until r = 100" and "sr_ceilings r = spend_demo_ceilings"
    and "covered_usage p r \<lparr>us_input_tokens = 10, us_output_tokens = 1, us_proof_digest = Some (sha256_hex ''proof'')\<rparr>"
proof (rule spend_demo_prepare)
  fix r assume r: "spend_prepare spend_demo = Inr (''root'', r)" "sr_reserved r = spend_demo_amounts" "sr_ceilings r = spend_demo_ceilings"
    "sr_reservation_hash r = spend_demo_hash" "sr_scope_refs r = sa_scope_refs spend_demo ''root''" "sr_retention_until r = 100"
    "sr_max_input_tokens r = 10" "sr_max_output_tokens r = 5" "sr_input_rate r = 2000000" "sr_output_rate r = 3000000"
  obtain res st where run: "spend_reserve spend_demo empty_directory = (Inr res, st)" "srr_accepted res"
    using spend_demo_accepted by blast
  have ok: "dir_ok st" using evolves_ok [OF reserve_evolves [OF dir_ok_empty] dir_ok_empty] run(1) by (metis snd_conv)
  show ?thesis
  proof (rule reserve_accepted_steps [OF run dir_ok_empty])
    fix l r' p p' assume p: "spend_prepare spend_demo = Inr (l, r')" "spend_load empty_directory l = Inr p"
      "charged zero_amounts (sr_reserved r') (sr_scope_refs r') (sp_scopes p) (sp_scopes p')"
      "map_of (sp_reservations p') (sr_reservation_hash r') = Some r'" "sp_inv p'"
      "st = empty_directory(spend_path l := Stored (spend_sorted p'))"
    have eq: "l = ''root''" "r' = r" "p = spend_fresh ''root''" using p(1,2) r(1) by (simp_all add: spend_demo_load)
    have st: "st (spend_path ''root'') = Stored (spend_sorted p')" by (simp add: p(6) eq)
    have zero: "spent_at (sp_scopes (spend_sorted p')) k d = 0" for k d
      using p(3) by (simp add: sorted_at [OF p(5)] charged_def moved_def eq spend_fresh_at)
    have "at_dim (priced 2000000 3000000 10 1) d \<le> at_dim spend_demo_amounts d" for d
      by (cases d) (simp_all add: priced_def ceil_div_def spend_demo_amounts_def)
    then have "ref_count (sr_scope_refs r) k * at_dim (priced 2000000 3000000 10 1) d
        \<le> ref_count (sr_scope_refs r) k * at_dim spend_demo_amounts d" for k d
      by (intro mult_left_mono) simp_all
    also have "ref_count (sr_scope_refs r) k * at_dim spend_demo_amounts d \<le> 9007199254740991" for k d
      using spend_demo_fits [of "sr_scope_refs r" k d] by simp
    finally have small: "ref_count (sr_scope_refs r) k * at_dim (priced 2000000 3000000 10 1) d \<le> 9007199254740991" for k d .
    have cov: "covered_usage (spend_sorted p') r
        \<lparr>us_input_tokens = 10, us_output_tokens = 1, us_proof_digest = Some (sha256_hex ''proof'')\<rparr>"
      by (simp add: covered_usage_def r zero MAX_SAFE_INTEGER_def sha256_hex_def small [unfolded r])
    show ?thesis
      by (rule that [OF r(1) run ok st load_Stored [OF ok st] _ zero r(2) _ r(6,3) cov])
        (use p(4) in \<open>simp_all add: eq r sorted_at [OF p(5)]\<close>, simp add: sa_scope_refs_def spend_demo_def)
  qed
qed

end
