(* ===== verification/Spend_Claims.thy ===== *)
theory Spend_Claims
  imports Spend_Policy
begin

text \<open>
  Normalizing a normalized spend claim: the dictionary of a normalized claim normalizes to the same
  policy, with the lineage in the claim or with the same lineage given by the issuer.
\<close>

lemma bounded_string_again: "bounded_string v field n = Inr s \<Longrightarrow> bounded_string (JStr s) field n = Inr s"
  by (cases v) (auto simp: bounded_string_def split: if_splits)

lemma currency_again: "currency v field = Inr c \<Longrightarrow> currency (JStr c) field = Inr c"
  by (auto simp: currency_def split: if_splits dest: bounded_string_again)

lemma non_negative_int_again: "non_negative_int v field = Inr n \<Longrightarrow> non_negative_int (JInt n) field' = Inr n"
  by (cases v) (auto simp: non_negative_int_def split: if_splits)

lemma mapM_again:
  "mapM f vs = Inr xs \<Longrightarrow> (\<And>v x. f v = Inr x \<Longrightarrow> f (g x) = Inr x) \<Longrightarrow> set ys \<subseteq> set xs \<Longrightarrow> mapM f (map g ys) = Inr ys"
proof (induction ys)
  case (Cons y ys)
  then obtain v where "f v = Inr y" by (auto simp: mapM_Inr_iff in_set_conv_nth list_all2_conv_all_nth)
  then show ?case using Cons by auto
qed simp

lemma normalize_tools_again: "normalize_tools v = Inr tools \<Longrightarrow> normalize_tools (JArr (map JStr tools)) = Inr tools"
proof (cases v)
  case (JArr items)
  assume "normalize_tools v = Inr tools"
  then obtain names where n: "mapM (\<lambda>item. bounded_string item ''spend_budget.metered_tools[]'' 256) items = Inr names"
    and t: "tools = sort (remdups names)" "length tools = length items" "items \<noteq> []" "length items \<le> MAX_METERED_TOOLS"
    using JArr by (auto simp: normalize_tools_def Let_def split: if_splits)
  have "mapM (\<lambda>item. bounded_string item ''spend_budget.metered_tools[]'' 256) (map JStr tools) = Inr tools"
    by (rule mapM_again [OF n bounded_string_again]) (simp_all add: t(1))
  moreover have "distinct tools" "sorted tools" "tools \<noteq> []"
    by (simp_all add: t(1)) (use t(1-3) in force)
  ultimately show ?thesis using t(2,4) by (simp add: normalize_tools_def Let_def sorted_sort_id distinct_remdups_id)
qed (auto simp: normalize_tools_def)

lemma normalize_scopes_again:
  assumes "normalize_scopes field v = Inr c"
  shows "normalize_scopes field' (scoped_json c) = Inr c"
proof (cases v)
  case (JObj d)
  then obtain s a l where "non_negative_int (jget d ''session'') (field @ ''.session'') = Inr s"
    "non_negative_int (jget d ''agent'') (field @ ''.agent'') = Inr a"
    "non_negative_int (jget d ''lineage'') (field @ ''.lineage'') = Inr l"
    and c: "c = \<lparr>at_session = s, at_agent = a, at_lineage = l\<rparr>"
    using assms by (auto simp: normalize_scopes_def split: if_splits)
  note again = this(1-3) [THEN non_negative_int_again]
  show ?thesis
    by (simp add: normalize_scopes_def scoped_json_def scopes_def scope_keys_exact_def jget_def dget_def c again)
qed (use assms in \<open>auto simp: normalize_scopes_def\<close>)

lemma normalize_ceilings_again:
  assumes "Spend_Policy.normalize_ceilings v = Inr c"
  shows "Spend_Policy.normalize_ceilings (ceilings_json c) = Inr c"
proof (cases v)
  case (JObj d)
  then obtain t m where "normalize_scopes ''spend_budget.ceilings.tokens'' (jget d ''tokens'') = Inr t"
    "normalize_scopes ''spend_budget.ceilings.currency_micros'' (jget d ''currency_micros'') = Inr m"
    and c: "c = \<lparr>at_tokens = t, at_currency_micros = m\<rparr>"
    using assms by (auto simp: Spend_Policy.normalize_ceilings_def)
  note again = this(1,2) [THEN normalize_scopes_again]
  show ?thesis
    by (simp add: Spend_Policy.normalize_ceilings_def ceilings_json_def dimensions_def jget_def dget_def
        reject_unknown_fields_def c again)
qed (use assms in \<open>auto simp: Spend_Policy.normalize_ceilings_def\<close>)

lemma normalize_lineage_again:
  assumes "normalize_lineage v given req = Inr l" and "req' \<Longrightarrow> l \<noteq> None"
  shows "normalize_lineage (case l of None \<Rightarrow> JNull | Some i \<Rightarrow> JStr i) None req' = Inr l"
    and "l = Some i \<Longrightarrow> normalize_lineage (JStr i) (Some i) req' = Inr (Some i)"
  using assms by (auto simp: normalize_lineage_def Let_def split: if_splits option.splits dest: bounded_string_again)

definition lineage_json :: "string option \<Rightarrow> jv" where
  "lineage_json l = (case l of None \<Rightarrow> JNull | Some i \<Rightarrow> JStr i)"

lemma normalize_policy_json:
  assumes "normalize_spend_budget raw given req = Inr pol"
    and "normalize_lineage (lineage_json (spp_lineage_id pol)) given' req' = Inr (spp_lineage_id pol)"
  shows "normalize_spend_budget (spend_policy_json pol) given' req' = Inr pol"
proof -
  obtain d where d: "raw = JObj d" using assms(1) by (cases raw) (auto simp: normalize_spend_budget_def)
  obtain cur tools c l where pol: "pol = \<lparr>spp_currency = cur, spp_metered_tools = tools, spp_ceilings = c, spp_lineage_id = l\<rparr>"
    and parts: "currency (jget d ''currency'') ''spend_budget.currency'' = Inr cur"
      "normalize_tools (jget d ''metered_tools'') = Inr tools" "Spend_Policy.normalize_ceilings (jget d ''ceilings'') = Inr c"
    using assms(1) by (auto simp: normalize_spend_budget_def d)
  note again = currency_again [OF parts(1)] normalize_tools_again [OF parts(2)] normalize_ceilings_again [OF parts(3)]
  show ?thesis
    using again assms(2)
    by (cases l) (simp_all add: normalize_spend_budget_def spend_policy_json_def lineage_json_def pol jget_def dget_def
        reject_unknown_fields_def non_negative_int_def SPEND_BUDGET_VERSION_def MAX_SAFE_INTEGER_def)
qed

lemma normalize_spend_lineage:
  assumes "normalize_spend_budget raw given req = Inr pol" and "req' \<Longrightarrow> spp_lineage_id pol \<noteq> None"
  shows "normalize_spend_budget (spend_policy_json pol) None req' = Inr pol"
    and "spp_lineage_id pol = Some i \<Longrightarrow> normalize_spend_budget (spend_policy_json pol) (Some i) req' = Inr pol"
proof -
  obtain v where v: "normalize_lineage v given req = Inr (spp_lineage_id pol)"
    using assms(1) by (cases raw) (auto simp: normalize_spend_budget_def)
  note again = normalize_lineage_again [OF v, of req', OF assms(2)]
  show "normalize_spend_budget (spend_policy_json pol) None req' = Inr pol"
    by (rule normalize_policy_json [OF assms(1)]) (use again(1) in \<open>simp add: lineage_json_def\<close>)
  show "normalize_spend_budget (spend_policy_json pol) (Some i) req' = Inr pol" if "spp_lineage_id pol = Some i"
    by (rule normalize_policy_json [OF assms(1)]) (use again(2) [OF _ that] that in \<open>simp add: lineage_json_def\<close>)
qed

lemma normalize_spend_required:
  "normalize_spend_budget raw given True = Inr pol \<Longrightarrow> \<exists>i. spp_lineage_id pol = Some i"
  by (cases raw) (auto simp: normalize_spend_budget_def normalize_lineage_def Let_def split: if_splits)

end
