(* ===== verification/Spend_Guarantees.thy ===== *)
theory Spend_Guarantees
  imports Spend_Demo Spend_Claims
begin

text \<open>The guarantees of the spend ledger (src/python/vibap/spend_budget.py): ceilings, balanced books,
  exact settlement, final spending, single acceptance, and the pricing of a call.\<close>

section \<open>The guarantees\<close>

text \<open>C3: An accepted spend reservation respects the ceilings of its policy: in every scope and
  dimension in which it asks for anything, what is spent and reserved afterwards is at most the
  ceiling. (The last term counts a scope account that hashing would give to two scopes of one call;
  it is zero otherwise.)\<close>

theorem spend_reserve_within_ceiling:
  assumes "dir_ok st" and "spend_reserve a st = (Inr res, st')" and "srr_accepted res"
  shows "\<exists>l r p'. spend_prepare a = Inr (l, r) \<and> st' (spend_path l) = Stored p' \<and>
    (\<forall>s d. let ref = at_scope (sr_scope_refs r) s; amount = at_dim (sr_reserved r) d in
      0 < amount \<longrightarrow> spent_at (sp_scopes p') ref d + reserved_at (sp_scopes p') ref d
        \<le> at_scope (at_dim (sr_ceilings r) d) s + (ref_count (sr_scope_refs r) ref - 1) * amount)"
proof (rule reserve_accepted_steps [OF assms(2,3,1)])
  fix l r p p' assume prep: "spend_prepare a = Inr (l, r)"
    and room: "\<And>s d. at_dim (sr_reserved r) d \<le>
      at_dim (room (sr_ceilings r) s (totals_at (sp_scopes p) (at_scope (sr_scope_refs r) s))) d"
    and ch: "charged zero_amounts (sr_reserved r) (sr_scope_refs r) (sp_scopes p) (sp_scopes p')"
    and inv: "sp_inv p'" and st': "st' = st(spend_path l := Stored (spend_sorted p'))"
  have "spent_at (sp_scopes p') ref d + reserved_at (sp_scopes p') ref d
      \<le> at_scope (at_dim (sr_ceilings r) d) s + (ref_count (sr_scope_refs r) ref - 1) * at_dim (sr_reserved r) d"
    if "0 < at_dim (sr_reserved r) d" and "ref = at_scope (sr_scope_refs r) s" for s d ref
    using room [of d s] that ch
    by (simp add: room_def charged_def moved_def spent_at_def reserved_at_def algebra_simps)
  then show ?thesis
    using prep st' by (intro exI [of _ l] exI [of _ r] exI [of _ "spend_sorted p'"]) (simp add: sorted_at [OF inv] Let_def)
qed

theorem spend_reserve_within_ceiling_witness:
  "\<exists>res st (r :: spend_record) p. spend_reserve spend_demo empty_directory = (Inr res, st) \<and> srr_accepted res \<and>
    st (spend_path ''root'') = Stored p \<and> sr_reserved r = spend_demo_amounts \<and>
    reserved_at (sp_scopes p) (at_session (sr_scope_refs r)) Tokens
      \<le> 1000 + (ref_count (sr_scope_refs r) (at_session (sr_scope_refs r)) - 1) * 15"
proof (rule spend_demo_reserved)
  fix r res st p assume d: "spend_prepare spend_demo = Inr (''root'', r)" "spend_reserve spend_demo empty_directory = (Inr res, st)"
    "srr_accepted res" "st (spend_path ''root'') = Stored p" "\<And>k d. spent_at (sp_scopes p) k d = 0"
    "sr_reserved r = spend_demo_amounts" "sr_ceilings r = spend_demo_ceilings"
  have pos: "0 < at_dim (sr_reserved r) Tokens" by (simp add: d spend_demo_amounts_def)
  have "reserved_at (sp_scopes p) (at_scope (sr_scope_refs r) Session) Tokens
      \<le> 1000 + (ref_count (sr_scope_refs r) (at_scope (sr_scope_refs r) Session) - 1) * at_dim (sr_reserved r) Tokens"
    using spend_reserve_within_ceiling [OF dir_ok_empty d(2,3)] d(1,4)
    by (auto simp: Let_def d(5,7) spend_demo_ceiling simp del: at_dim.simps dest!: spec [of _ Session] spec [of _ Tokens] mp [OF _ pos])
  then show ?thesis
    using d(2-4,6) by (intro exI [of _ res] exI [of _ st] exI [of _ r] exI [of _ p]) (simp add: spend_demo_amounts_def)
qed

text \<open>C7: The books of every ledger file balance after any operations: the file loads (the validation
  on load accepts it), the reserved amount of every account is the sum of the active and quarantined
  reservations that use it, the spent amount is the sum of the archive and the retained settlements,
  and no reservation is in two containers.\<close>

theorem spend_books_balance:
  assumes "run spend_exec ops empty_directory (spend_path l) = Stored p"
  shows "spend_load (run spend_exec ops empty_directory) l = Inr p \<and>
    (\<forall>k d. reserved_at (sp_scopes p) k d =
        total (reserved_part k d) (sp_reservations p) + total (reserved_part k d) (sp_quarantined p) \<and>
      spent_at (sp_scopes p) k d =
        at_dim (dget (sp_archived_spent p) k zero_amounts) d + total (spent_part k d) (sp_closed p)) \<and>
    set (keys (sp_reservations p)) \<inter> set (keys (sp_quarantined p)) = {} \<and>
    (set (keys (sp_reservations p)) \<union> set (keys (sp_quarantined p))) \<inter> set (keys (sp_closed p)) = {}"
proof -
  have ok: "dir_ok (run spend_exec ops empty_directory)"
    by (rule spend_tx.inv_reachable) (simp add: list_all_iff)
  note load = load_Stored [OF ok assms]
  note inv = load_Inr(1) [OF ok load]
  have k: "h \<in> set (keys m) \<longleftrightarrow> map_of m h \<noteq> None" for h and m :: "spend_record dict"
    by (simp add: map_of_eq_None_iff)
  have "apart p" by (rule inv_facts(3) [OF inv])
  then have "set (keys (sp_reservations p)) \<inter> set (keys (sp_quarantined p)) = {} \<and>
      (set (keys (sp_reservations p)) \<union> set (keys (sp_quarantined p))) \<inter> set (keys (sp_closed p)) = {}"
    by (auto simp: disjoint_iff k apart_def simp del: set_map)
  then show ?thesis
    using load books_at(1,2) [OF inv_facts(1) [OF inv]] by (simp add: expected_reserved_def expected_spent_def)
qed

theorem spend_books_balance_witness:
  "\<exists>p. run spend_exec [SpReserve spend_demo] empty_directory (spend_path ''root'') = Stored p \<and>
    reserved_at (sp_scopes p) (scope_hash Session ''s1'') Tokens =
      total (reserved_part (scope_hash Session ''s1'') Tokens) (sp_reservations p)
      + total (reserved_part (scope_hash Session ''s1'') Tokens) (sp_quarantined p)"
proof (rule spend_demo_reserved)
  fix res st p assume "spend_reserve spend_demo empty_directory = (Inr res, st)" "st (spend_path ''root'') = Stored p"
  then have "run spend_exec [SpReserve spend_demo] empty_directory (spend_path ''root'') = Stored p" by simp
  then show ?thesis using spend_books_balance [of "[SpReserve spend_demo]" "''root''" p] by blast
qed

text \<open>C25: Settling charges exactly the actual usage: for an open reservation of the session and a proven
  usage within its token limits, settling succeeds, reports the price of the usage and the rest as
  refunded, and moves every account by exactly these amounts. In particular the second overrun check of
  the code, on amounts, never fires.\<close>

theorem spend_settle_charges_exactly:
  assumes "dir_ok st" and "spend_load st l = Inr p" and "spend_reservation_hash rid = Inr h"
    and "map_of (sp_reservations p) h = Some r \<or> map_of (sp_quarantined p) h = Some r"
    and "at_session (sr_scope_refs r) = scope_hash Session sid" and "covered_usage p r u"
  defines "a \<equiv> priced (sr_input_rate r) (sr_output_rate r) (us_input_tokens u) (us_output_tokens u)"
  shows "\<exists>res st' p'. spend_settle l sid rid u clock st = (Inr res, st') \<and> st' (spend_path l) = Stored p' \<and>
    scr_operation res = ''settle'' \<and> scr_actual res = a \<and> scr_refunded res = sub_amounts (sr_reserved r) a \<and>
    (\<forall>k d. spent_at (sp_scopes p') k d = spent_at (sp_scopes p) k d + ref_count (sr_scope_refs r) k * at_dim a d \<and>
      reserved_at (sp_scopes p') k d =
        reserved_at (sp_scopes p) k d - ref_count (sr_scope_refs r) k * at_dim (sr_reserved r) d)"
proof -
  obtain res st' p' where "spend_settle l sid rid u clock st = (Inr res, st')" "st' (spend_path l) = Stored p'"
    "scr_operation res = ''settle''" "scr_actual res = a" "scr_refunded res = sub_amounts (sr_reserved r) a"
    "moved a (negate (sr_reserved r)) (ref_count (sr_scope_refs r)) (sp_scopes p) (sp_scopes p')"
    using settle_ok [OF assms(1-6), of a clock] by (auto simp: a_def)
  then show ?thesis by (intro exI [of _ res] exI [of _ st'] exI [of _ p']) (simp add: moved_def negate_def)
qed

theorem spend_settle_charges_exactly_witness:
  "\<exists>st res st' p' (r :: spend_record). spend_settle ''root'' ''s1'' ''req-1''
      \<lparr>us_input_tokens = 10, us_output_tokens = 1, us_proof_digest = Some (sha256_hex ''proof'')\<rparr> 20 st = (Inr res, st') \<and>
    st' (spend_path ''root'') = Stored p' \<and> scr_actual res = \<lparr>at_tokens = 11, at_currency_micros = 23\<rparr> \<and>
    spent_at (sp_scopes p') (scope_hash Session ''s1'') Tokens = ref_count (sr_scope_refs r) (scope_hash Session ''s1'') * 11"
proof (rule spend_demo_reserved)
  let ?u = "\<lparr>us_input_tokens = 10, us_output_tokens = 1, us_proof_digest = Some (sha256_hex ''proof'')\<rparr>"
  fix r st p assume d: "spend_prepare spend_demo = Inr (''root'', r)" "dir_ok st" "spend_load st ''root'' = Inr p"
    "map_of (sp_reservations p) spend_demo_hash = Some r" "\<And>k d. spent_at (sp_scopes p) k d = 0"
    "at_session (sr_scope_refs r) = scope_hash Session ''s1''" "covered_usage p r ?u"
  have "sr_input_rate r = 2000000" "sr_output_rate r = 3000000" by (rule spend_demo_prepare; use d(1) in simp)+
  then have "priced (sr_input_rate r) (sr_output_rate r) (us_input_tokens ?u) (us_output_tokens ?u) =
      \<lparr>at_tokens = 11, at_currency_micros = 23\<rparr>" by (simp add: priced_def ceil_div_def)
  then obtain res st' p' where "spend_settle ''root'' ''s1'' ''req-1'' ?u 20 st = (Inr res, st')"
      "st' (spend_path ''root'') = Stored p'" "scr_actual res = \<lparr>at_tokens = 11, at_currency_micros = 23\<rparr>"
      "\<forall>k d. spent_at (sp_scopes p') k d = ref_count (sr_scope_refs r) k * at_dim \<lparr>at_tokens = 11, at_currency_micros = 23\<rparr> d"
    using spend_settle_charges_exactly [OF d(2,3) spend_demo_hash_of disjI1 [OF d(4)] d(6,7), of 20] by (simp add: d(5)) blast
  then show ?thesis
    by - (rule exI [of _ st], rule exI [of _ res], rule exI [of _ st'], rule exI [of _ p'], rule exI [of _ r], simp)
qed

text \<open>Cancelling an active reservation of the session succeeds and gives everything back: nothing is
  spent, the whole reserved amount is refunded and leaves its accounts, and the reservation is no
  longer active.\<close>

theorem spend_cancel_refunds_all:
  assumes "dir_ok st" and "spend_load st l = Inr p" and "spend_reservation_hash rid = Inr h"
    and "map_of (sp_reservations p) h = Some r"
    and "at_session (sr_scope_refs r) = scope_hash Session sid"
    and "bounded_string (JStr reason) ''reason_code'' 256 = Inr reason'"
  shows "\<exists>res st' p'. spend_cancel l sid rid reason clock st = (Inr res, st') \<and> st' (spend_path l) = Stored p' \<and>
    scr_actual res = zero_amounts \<and> scr_refunded res = sr_reserved r \<and> map_of (sp_reservations p') h = None \<and>
    (\<forall>k d. spent_at (sp_scopes p') k d = spent_at (sp_scopes p) k d \<and>
      reserved_at (sp_scopes p') k d =
        reserved_at (sp_scopes p) k d - ref_count (sr_scope_refs r) k * at_dim (sr_reserved r) d)"
proof -
  obtain res st' p' where "spend_cancel l sid rid reason clock st = (Inr res, st')" "st' (spend_path l) = Stored p'"
    "scr_actual res = zero_amounts" "scr_refunded res = sr_reserved r" "map_of (sp_reservations p') h = None"
    "moved zero_amounts (negate (sr_reserved r)) (ref_count (sr_scope_refs r)) (sp_scopes p) (sp_scopes p')"
    using cancel_ok [OF assms, of clock] by auto
  then show ?thesis by (intro exI [of _ res] exI [of _ st'] exI [of _ p']) (simp add: moved_def negate_def)
qed

theorem spend_cancel_refunds_all_witness:
  "\<exists>st res st'. spend_cancel ''root'' ''s1'' ''req-1'' ''late'' 20 st = (Inr res, st') \<and>
    scr_refunded res = spend_demo_amounts"
proof (rule spend_demo_reserved)
  fix r st p assume d: "dir_ok st" "spend_load st ''root'' = Inr p" "map_of (sp_reservations p) spend_demo_hash = Some r"
    "at_session (sr_scope_refs r) = scope_hash Session ''s1''" "sr_reserved r = spend_demo_amounts"
  then show ?thesis
    using spend_cancel_refunds_all [OF d(1,2) spend_demo_hash_of d(3,4) spend_demo_checks(4), of 20] by auto
qed

text \<open>What a scope has spent never falls, whatever operations follow.\<close>

theorem spend_spending_is_final:
  "spent_in_file (run spend_exec xs empty_directory) k \<le> spent_in_file (run spend_exec (xs @ ys) empty_directory) k"
  by (rule spend_mono.measure_history) (simp add: list_all_iff)

text \<open>C27: An operation of the spend ledger that raises leaves every ledger file as it was.\<close>

theorem spend_raise_changes_nothing:
  assumes "fst (spend_exec op st) = Inl e"
  shows "snd (spend_exec op st) = st"
  using assms by (rule spend_tx.raise_unchanged)

theorem spend_raise_changes_nothing_witness:
  "snd (spend_exec (SpQuarantineStale ''root'' ''s1'' (- 1) 20) empty_directory) = empty_directory"
  by (rule spend_raise_changes_nothing
      [where e = "spend_policy_invalid ''older_than_s must be between 0 and MAX_SAFE_INTEGER''"])
    (simp add: spend_quarantine_stale_def spend_commit_def non_negative_int_def)

text \<open>C9: A request is accepted once: after an accepted reservation, whatever operations run while the
  clock is before its retention time (by default the end of the quote), a reservation under the same
  lineage and request identifier is not accepted again.\<close>

theorem spend_request_accepted_once:
  assumes "dir_ok st" and "spend_prepare a = Inr (l, r)" and "spend_reserve a st = (Inr res, st')" and "srr_accepted res"
    and "list_all (spend_before (sr_retention_until r)) ops"
    and "spend_prepare b = Inr (l, r')" and "rq_request_id (sa_request b) = rq_request_id (sa_request a)"
    and "sa_now b < sr_retention_until r"
  shows "\<nexists>res' st''. spend_reserve b (run spend_exec ops st') = (Inr res', st'') \<and> srr_accepted res'"
proof (intro notI, elim exE conjE)
  fix res' st'' assume again: "spend_reserve b (run spend_exec ops st') = (Inr res', st'')" and acc: "srr_accepted res'"
  let ?h = "sr_reservation_hash r" and ?st = "run spend_exec ops st'"
  have h: "sr_reservation_hash r' = ?h" using prepare_hash [OF assms(2)] prepare_hash [OF assms(6)] assms(7) by simp
  obtain p' where "map_of (sp_reservations p') ?h = Some r" "sp_inv p'" "st' = st(spend_path l := Stored (spend_sorted p'))"
    by (rule reserve_accepted_steps [OF assms(3,4,1)]) (use assms(2) in auto)
  then have "state_keeps_id (sr_retention_until r) l ?h st'"
    by (simp add: state_keeps_id_def keeps_id_sorted) (auto simp: keeps_id_def)
  moreover have "dir_ok st'" using evolves_ok [OF reserve_evolves [OF assms(1)] assms(1)] assms(3) by (metis snd_conv)
  ultimately have keeps: "state_keeps_id (sr_retention_until r) l ?h ?st" and ok: "dir_ok ?st"
    using run_keeps_id [OF _ assms(5)] by blast+
  obtain p where load: "spend_load ?st l = Inr p" and inv: "sp_inv p"
    and fresh: "unused (prune_terminal_records (sa_now b) p) ?h"
    by (rule reserve_accepted_steps [OF again acc ok]) (use assms(6) h in auto)
  then have "keeps_id (sr_retention_until r) ?h p"
    using keeps load_Stored [OF ok, of l] by (auto simp: state_keeps_id_def)
  then show False
    using fresh assms(8) prune_terminal(3-5) [OF inv, of "sa_now b"] by (auto simp: keeps_id_def unused_def split: option.splits)
qed

theorem spend_request_accepted_once_witness:
  "\<exists>res st. spend_reserve spend_demo empty_directory = (Inr res, st) \<and> srr_accepted res \<and>
    \<not> (\<exists>res' st'. spend_reserve spend_demo st = (Inr res', st') \<and> srr_accepted res')"
proof (rule spend_demo_reserved)
  fix r res st p assume d: "spend_prepare spend_demo = Inr (''root'', r)" "spend_reserve spend_demo empty_directory = (Inr res, st)"
    "srr_accepted res" "sr_retention_until r = 100"
  have "\<nexists>res' st'. spend_reserve spend_demo (run spend_exec [] st) = (Inr res', st') \<and> srr_accepted res'"
    by (rule spend_request_accepted_once [OF dir_ok_empty d(1-3) _ d(1)])
      (use d(4) in \<open>simp_all add: spend_demo_def\<close>)
  then show ?thesis using d(2,3) by auto
qed

text \<open>A quarantined reservation stays held: whatever operations run, other than settling that very
  request, its record stays in quarantine unchanged and its amounts stay reserved.\<close>

theorem spend_quarantined_stays_held:
  assumes "dir_ok st" and "st (spend_path l) = Stored p" and "map_of (sp_quarantined p) h = Some r"
    and "list_all (not_settling h) ops"
  shows "\<exists>p'. run spend_exec ops st (spend_path l) = Stored p' \<and> map_of (sp_quarantined p') h = Some r \<and>
    (\<forall>k d. reserved_part k d r \<le> reserved_at (sp_scopes p') k d)"
proof -
  have "holds_quarantined l h r (run spend_exec ops st)"
    using run_held [OF assms(1,4)] assms(2,3) by (simp add: holds_quarantined_def)
  then obtain p' where p': "run spend_exec ops st (spend_path l) = Stored p'" "map_of (sp_quarantined p') h = Some r"
    by (auto simp: holds_quarantined_def)
  have "dir_ok (run spend_exec ops st)" by (rule spend_tx.inv_run [OF assms(1)]) (simp add: list_all_iff)
  then have "sp_inv p'" using p'(1) by (simp add: dir_ok_def)
  then show ?thesis using p' reserved_covers by blast
qed

theorem spend_quarantined_stays_held_witness:
  "\<exists>st p'. run spend_exec [SpCancel ''root'' ''s1'' ''req-1'' ''late'' 30, SpReserve spend_demo] st (spend_path ''root'') = Stored p' \<and>
    map_of (sp_quarantined p') spend_demo_hash \<noteq> None"
proof (rule spend_demo_reserved)
  fix r st p assume d: "dir_ok st" "spend_load st ''root'' = Inr p" "map_of (sp_reservations p) spend_demo_hash = Some r"
    "at_session (sr_scope_refs r) = scope_hash Session ''s1''"
  obtain res st' p' where q: "spend_quarantine ''root'' ''s1'' ''req-1'' ''late'' 20 st = (Inr res, st')"
    "st' (spend_path ''root'') = Stored p'" "map_of (sp_quarantined p') spend_demo_hash = Some (quarantine_record r ''late'' 20)" "dir_ok st'"
    using quarantine_ok [OF d(1,2) spend_demo_hash_of d(3,4) spend_demo_checks(4), of 20] by blast
  then show ?thesis
    using spend_quarantined_stays_held [OF q(4,2,3), of "[SpCancel ''root'' ''s1'' ''req-1'' ''late'' 30, SpReserve spend_demo]"]
    by (auto simp: not_settling_def simp del: run.simps spend_exec.simps)
qed

text \<open>A spend reservation that fits is granted: for a prepared request whose identifier the ledger does
  not know, with capacity for a record and room under every ceiling, reserving is accepted.\<close>

theorem spend_reserve_grants:
  assumes "dir_ok st" and "spend_prepare a = Inr (l, r)" and "quote_ok (sa_quote a)" and "spend_load st l = Inr p"
    and "unused (prune_terminal_records (sa_now a) p) (sr_reservation_hash r)"
    and "length (sp_reservations (prune_terminal_records (sa_now a) p))
      + length (sp_closed (prune_terminal_records (sa_now a) p))
      + length (sp_quarantined (prune_terminal_records (sa_now a) p)) < MAX_LEDGER_RECORDS"
    and "\<And>s d. spent_at (sp_scopes p) (at_scope (sr_scope_refs r) s) d
        + reserved_at (sp_scopes p) (at_scope (sr_scope_refs r) s) d
        + ref_count (sr_scope_refs r) (at_scope (sr_scope_refs r) s) * at_dim (sr_reserved r) d
      \<le> at_scope (at_dim (sr_ceilings r) d) s"
  shows "\<exists>res st'. spend_reserve a st = (Inr res, st') \<and> srr_accepted res"
  by (rule reserve_grants_spend [OF assms])

theorem spend_reserve_grants_witness:
  "\<exists>res st'. spend_reserve spend_demo empty_directory = (Inr res, st') \<and> srr_accepted res"
proof (rule spend_demo_prepare)
  fix r assume r: "spend_prepare spend_demo = Inr (''root'', r)" "sr_reserved r = spend_demo_amounts" "sr_ceilings r = spend_demo_ceilings"
  show ?thesis
    by (rule spend_reserve_grants [OF dir_ok_empty r(1) spend_demo_premises(1) [OF r] spend_demo_load
          spend_demo_premises(3) [OF r]])
      (simp_all add: spend_demo_premises [OF r], simp add: spend_fresh_def MAX_LEDGER_RECORDS_def)
qed

text \<open>C32: Prices never round down and never overflow: the money reserved for a number of tokens covers
  their exact cost, by less than two micros more, and both amounts stay in the safe integer range.\<close>

theorem spend_prices_round_up:
  assumes "reserve_amounts q i j = Inr a" and "quote_ok q"
  shows "i * q_input_rate q + j * q_output_rate q \<le> at_currency_micros a * 1000000 \<and>
    at_currency_micros a * 1000000 < i * q_input_rate q + j * q_output_rate q + 2 * 1000000 \<and>
    at_tokens a = i + j \<and> amounts_ok a"
proof (intro conjI)
  note ra = reserve_amounts_Inr [OF assms(1)]
  have a: "at_currency_micros a * 1000000 = ceil_div (i * q_input_rate q) 1000000 * 1000000
      + ceil_div (j * q_output_rate q) 1000000 * 1000000" by (simp add: ra(1) priced_def algebra_simps)
  show "i * q_input_rate q + j * q_output_rate q \<le> at_currency_micros a * 1000000"
    and "at_currency_micros a * 1000000 < i * q_input_rate q + j * q_output_rate q + 2 * 1000000"
    using ceil_div_bounds [of 1000000 "i * q_input_rate q"] ceil_div_bounds [of 1000000 "j * q_output_rate q"]
    unfolding a by linarith+
  show "at_tokens a = i + j" by (simp add: ra(1) priced_def)
  have "0 \<le> at_dim a d" for d
    unfolding ra(1) using ra(2,3) assms(2) by (intro priced_nonneg) (simp_all add: safe_int_def quote_ok_def)
  then show "amounts_ok a"
    using ra(4,5) unfolding amounts_ok_def safe_int_def by (metis at_dim.simps dimension.exhaust)
qed

theorem spend_prices_round_up_witness:
  "\<exists>a. reserve_amounts spend_demo_quote 10 5 = Inr a \<and> 10 * 2000000 + 5 * 3000000 \<le> at_currency_micros a * 1000000"
  using spend_prices_round_up [OF spend_demo_checks(2) spend_demo_quote_ok] spend_demo_checks(2)
  by (auto simp: spend_demo_quote_def)

text \<open>A normalized spend claim normalizes to itself: what an issuer signs is read back unchanged, with
  or without the requirement of a lineage where one is set.\<close>

theorem spend_normalize_idempotent:
  assumes "normalize_spend_budget raw None req = Inr pol"
  shows "normalize_spend_budget (spend_policy_json pol) None req = Inr pol"
proof (rule normalize_spend_lineage(1) [OF assms])
  assume req
  then show "spp_lineage_id pol \<noteq> None" using assms normalize_spend_required by fastforce
qed

theorem spend_normalize_idempotent_witness:
  "\<exists>pol. normalize_spend_budget spend_demo_policy None True = Inr pol \<and>
    normalize_spend_budget (spend_policy_json pol) None True = Inr pol"
  using spend_normalize_idempotent [OF spend_demo_checks(1)] spend_demo_checks(1) by blast

end
