(* ===== verification/Merkle.thy ===== *)
theory Merkle
  imports Sha256 "HOL-Library.While_Combinator"
begin

text \<open>
  The Merkle tree of the transparency log (\<open>transparency.py\<close>): the root of a list of leaves, the
  inclusion proof of a leaf, and the check of such a proof by a client that knows only the leaf, its
  position, the size of the tree and the root. Bytes are machine bytes and hashing is the SHA-256
  function itself. The \<open>while\<close> loops of the root and of the proof are \<^const>\<open>while_option\<close>, so that
  \<^term>\<open>None\<close> is a loop that does not end.
\<close>

datatype transparency_error =
    TransparencyError string
  | AnchorVerificationError string

definition hash_leaf :: "byte list \<Rightarrow> byte list" where
  "hash_leaf body = sha256 (0 # body)"

definition hash_children :: "byte list \<Rightarrow> byte list \<Rightarrow> byte list" where
  "hash_children left right = sha256 (1 # left @ right)"

section \<open>Root and proof\<close>

text \<open>The body of the loops: hash the pairs of a level, an unpaired last node is kept.\<close>

fun next_level :: "byte list list \<Rightarrow> byte list list" where
  "next_level (x # y # rest) = hash_children x y # next_level rest"
| "next_level level = level"

definition merkle_root :: "byte list list \<Rightarrow> byte list option" where
  "merkle_root leaves =
    (if leaves = [] then Some (sha256 [])
     else map_option hd (while_option (\<lambda>level. 1 < length level) next_level (map hash_leaf leaves)))"

record proof_state =
  ps_level :: "byte list list"
  ps_index :: nat
  ps_proof :: "byte list list"

definition proof_step :: "proof_state \<Rightarrow> proof_state" where
  "proof_step s =
    (let level = ps_level s; i = ps_index s in
     \<lparr>ps_level = next_level level, ps_index = i div 2,
      ps_proof =
        (if i mod 2 = 1 then ps_proof s @ [level ! (i - 1)]
         else if i + 1 < length level then ps_proof s @ [level ! (i + 1)]
         else ps_proof s)\<rparr>)"

definition merkle_proof :: "byte list list \<Rightarrow> int \<Rightarrow> (transparency_error + byte list list) option" where
  "merkle_proof leaves index =
    (if index < 0 \<or> index \<ge> int (length leaves)
     then Some (Inl (TransparencyError ''Merkle proof index is outside the tree''))
     else map_option (Inr \<circ> ps_proof)
       (while_option (\<lambda>s. 1 < length (ps_level s)) proof_step
         \<lparr>ps_level = map hash_leaf leaves, ps_index = nat index, ps_proof = []\<rparr>))"

section \<open>Checking a proof\<close>

text \<open>\<open>bytes.fromhex\<close>: pairs of hexadecimal digits of either case, white space before a pair.\<close>

definition hex_value :: "char \<Rightarrow> nat option" where
  "hex_value c =
    (let n = code_point c in
     if 48 \<le> n \<and> n \<le> 57 then Some (n - 48)
     else if 97 \<le> n \<and> n \<le> 102 then Some (n - 87)
     else if 65 \<le> n \<and> n \<le> 70 then Some (n - 55)
     else None)"

definition is_ascii_space :: "char \<Rightarrow> bool" where
  "is_ascii_space c \<longleftrightarrow> code_point c = 32 \<or> 9 \<le> code_point c \<and> code_point c \<le> 13"

fun fromhex :: "string \<Rightarrow> byte list option" where
  "fromhex [] = Some []"
| "fromhex (c # rest) =
    (if is_ascii_space c then fromhex rest
     else case rest of
       [] \<Rightarrow> None
     | d # rest' \<Rightarrow>
         (case hex_value c of
            None \<Rightarrow> None
          | Some x \<Rightarrow>
              (case hex_value d of
                 None \<Rightarrow> None
               | Some y \<Rightarrow> map_option ((#) (word_of_nat (16 * x + y))) (fromhex rest'))))"

definition read_sibling :: "string \<Rightarrow> transparency_error + byte list" where
  "read_sibling h =
    (case fromhex h of
       None \<Rightarrow> Inl (AnchorVerificationError ''inclusion proof contains a non-hex hash'')
     | Some sibling \<Rightarrow>
         if length sibling \<noteq> 32
         then Inl (AnchorVerificationError ''inclusion proof hash has the wrong length'')
         else Inr sibling)"

text \<open>The loop of the check: the node reached and the hashes that are left.\<close>

function verify_path ::
  "nat \<Rightarrow> nat \<Rightarrow> byte list \<Rightarrow> string list \<Rightarrow> transparency_error + byte list \<times> string list" where
  "verify_path width index current hashes =
    (if width \<le> 1 then Inr (current, hashes)
     else
       let needs_left = (index mod 2 = 1);
           needs_right = (\<not> needs_left \<and> index + 1 < width)
       in if needs_left \<or> needs_right then
            (case hashes of
               [] \<Rightarrow> Inl (AnchorVerificationError ''inclusion proof is missing a sibling hash'')
             | h # rest \<Rightarrow>
                 rbind (read_sibling h) (\<lambda>sibling.
                 verify_path ((width + 1) div 2) (index div 2)
                   (if needs_left then hash_children sibling current else hash_children current sibling) rest))
          else verify_path ((width + 1) div 2) (index div 2) current hashes)"
  by pat_completeness auto
termination by (relation "measure fst") auto

definition verify_inclusion_proof ::
  "byte list \<Rightarrow> int \<Rightarrow> int \<Rightarrow> string list \<Rightarrow> string \<Rightarrow> transparency_error + unit" where
  "verify_inclusion_proof body log_index tree_size hashes_hex root_hash_hex =
    (if tree_size \<le> 0 \<or> log_index < 0 \<or> log_index \<ge> tree_size
     then Inl (AnchorVerificationError ''inclusion proof index/tree size is invalid'')
     else case fromhex root_hash_hex of
       None \<Rightarrow> Inl (AnchorVerificationError ''inclusion proof root hash is not hex'')
     | Some expected_root \<Rightarrow>
         if length expected_root \<noteq> 32
         then Inl (AnchorVerificationError ''inclusion proof root hash has the wrong length'')
         else
           rbind (verify_path (nat tree_size) (nat log_index) (hash_leaf body) hashes_hex) (\<lambda>(current, left).
           if left \<noteq> [] then Inl (AnchorVerificationError ''inclusion proof contains extra sibling hashes'')
           else if current \<noteq> expected_root
           then Inl (AnchorVerificationError ''inclusion proof does not reach the signed root hash'')
           else Inr ()))"

section \<open>Appending to the local log\<close>

text \<open>What \<open>LocalSignedLogBackend.submit\<close> does to the entries of the log, and the inclusion proof it
  puts into the bundle; the signed checkpoint over the root and the size is not part of the model.\<close>

record inclusion_evidence =
  ie_body :: "byte list"
  ie_log_index :: nat
  ie_hashes :: "string list"
  ie_root_hash :: string
  ie_tree_size :: nat

definition log_submit ::
  "byte list \<Rightarrow> byte list list \<Rightarrow> (transparency_error + byte list list \<times> inclusion_evidence) option" where
  "log_submit body entries =
    (let log_index = length entries; entries' = entries @ [body] in
     case merkle_root entries' of
       None \<Rightarrow> None
     | Some root_hash \<Rightarrow>
         (case merkle_proof entries' (int log_index) of
            None \<Rightarrow> None
          | Some (Inl e) \<Rightarrow> Some (Inl e)
          | Some (Inr path) \<Rightarrow>
              Some (Inr (entries', \<lparr>ie_body = body, ie_log_index = log_index, ie_hashes = map hexlify path,
                ie_root_hash = hexlify root_hash, ie_tree_size = length entries'\<rparr>))))"

section \<open>Levels\<close>

lemma length_hash [simp]: "length (hash_leaf body) = 32" "length (hash_children l r) = 32"
  by (simp_all add: hash_leaf_def hash_children_def)

lemma length_next_level [simp]: "length (next_level level) = (length level + 1) div 2"
  by (induction level rule: next_level.induct) auto

lemma next_level_shorter: "1 < length level \<Longrightarrow> length (next_level level) < length level"
  by auto

lemma next_level_nonempty [simp]: "next_level level = [] \<longleftrightarrow> level = []"
  by (cases level rule: next_level.cases) auto

lemma next_level_nth:
  "j < length (next_level level) \<Longrightarrow> next_level level ! j =
    (if 2 * j + 1 < length level then hash_children (level ! (2 * j)) (level ! (2 * j + 1)) else level ! (2 * j))"
proof (induction level arbitrary: j rule: next_level.induct)
  case (1 x y rest)
  then show ?case by (cases j) auto
qed (auto simp: less_Suc_eq)

lemma next_level_hashes: "\<forall>h \<in> set level. length h = 32 \<Longrightarrow> \<forall>h \<in> set (next_level level). length h = 32"
  by (induction level rule: next_level.induct) auto

text \<open>The root of a level by recursion, and the loop that computes it.\<close>

function root_of :: "byte list list \<Rightarrow> byte list" where
  "root_of level = (if 1 < length level then root_of (next_level level) else hd level)"
  by pat_completeness auto
termination by (relation "measure length") (auto simp: next_level_shorter)

declare root_of.simps [simp del] verify_path.simps [simp del]

lemma root_of_next: "level \<noteq> [] \<Longrightarrow> root_of (next_level level) = root_of level"
  by (cases level rule: next_level.cases) (auto simp: root_of.simps [of "_ # _ # _"])

lemma root_of_single [simp]: "root_of [h] = h"
  by (simp add: root_of.simps)

lemma root_loop:
  "level \<noteq> [] \<Longrightarrow> while_option (\<lambda>level. 1 < length level) next_level level = Some [root_of level]"
proof (induction level rule: length_induct)
  case (1 level)
  show ?case
  proof (cases "1 < length level")
    case True
    then show ?thesis
      using 1 next_level_shorter [OF True] by (simp add: while_option_unfold [of _ _ level] root_of_next)
  next
    case False
    then obtain h where "level = [h]" using 1 by (cases level) auto
    then show ?thesis by (simp add: while_option_unfold)
  qed
qed

lemma merkle_root_eq: "leaves \<noteq> [] \<Longrightarrow> merkle_root leaves = Some (root_of (map hash_leaf leaves))"
  using root_loop [of "map hash_leaf leaves"] by (simp add: merkle_root_def)

lemma root_of_length: "level \<noteq> [] \<Longrightarrow> \<forall>h \<in> set level. length h = 32 \<Longrightarrow> length (root_of level) = 32"
proof (induction level rule: root_of.induct)
  case (1 level)
  then show ?case
    using next_level_hashes by (cases "1 < length level") (auto simp: root_of.simps [of level])
qed

section \<open>Honest proofs\<close>

text \<open>The siblings on the way up, by recursion.\<close>

definition siblings :: "byte list list \<Rightarrow> nat \<Rightarrow> byte list list" where
  "siblings level i =
    (if i mod 2 = 1 then [level ! (i - 1)] else if i + 1 < length level then [level ! (i + 1)] else [])"

function path_of :: "byte list list \<Rightarrow> nat \<Rightarrow> byte list list" where
  "path_of level i = (if 1 < length level then siblings level i @ path_of (next_level level) (i div 2) else [])"
  by pat_completeness auto
termination by (relation "measure (length \<circ> fst)") (auto simp: next_level_shorter)

declare path_of.simps [simp del]

lemma proof_loop:
  assumes "i < length level"
  shows "while_option (\<lambda>s. 1 < length (ps_level s)) proof_step \<lparr>ps_level = level, ps_index = i, ps_proof = acc\<rparr> =
    Some \<lparr>ps_level = [root_of level], ps_index = 0, ps_proof = acc @ path_of level i\<rparr>"
  using assms
proof (induction level i arbitrary: acc rule: path_of.induct)
  case (1 level i)
  show ?case
  proof (cases "1 < length level")
    case True
    then have "i div 2 < length (next_level level)" "level \<noteq> []" using "1.prems" by auto
    then show ?thesis
      using "1.IH" [OF True] True
      by (simp add: while_option_unfold [of _ _ "\<lparr>ps_level = level, ps_index = i, ps_proof = acc\<rparr>"]
          path_of.simps [of level] proof_step_def siblings_def root_of_next Let_def)
  next
    case False
    then obtain h where "level = [h]" using "1.prems" by (cases level) auto
    then show ?thesis using "1.prems" by (simp add: while_option_unfold path_of.simps)
  qed
qed

lemma merkle_proof_eq: "i < length leaves \<Longrightarrow> merkle_proof leaves (int i) = Some (Inr (path_of (map hash_leaf leaves) i))"
  using proof_loop [of i "map hash_leaf leaves" "[]"] by (simp add: merkle_proof_def)

lemma hex_value_digit: "n < 16 \<Longrightarrow> hex_value (hex_digit n) = Some n"
  by (simp add: hex_value_def hex_digit_def)

lemma hex_digit_not_space: "n < 16 \<Longrightarrow> \<not> is_ascii_space (hex_digit n)"
  by (simp add: is_ascii_space_def hex_digit_def)

lemma fromhex_hexlify [simp]: "fromhex (hexlify bs) = Some bs"
proof (induction bs)
  case (Cons b bs)
  have "unat b < 256" using unsigned_less [of b] by simp
  moreover have "word_of_nat (16 * (unat b div 16) + unat b mod 16) = b" by simp
  moreover have "hexlify (b # bs) = hex_digit (unat b div 16) # hex_digit (unat b mod 16) # hexlify bs"
    by (simp add: hexlify_def)
  ultimately show ?case using Cons by (simp add: hex_digit_not_space hex_value_digit)
qed (simp add: hexlify_def)

lemma half_pair: "i mod 2 = 1 \<Longrightarrow> 2 * (i div 2) = i - 1 \<and> 2 * (i div 2) + 1 = (i :: nat)"
  by presburger

lemma half_even: "\<not> i mod 2 = 1 \<Longrightarrow> 2 * (i div 2) = (i :: nat)"
  by presburger

text \<open>The parent of a node is hashed from the node and its sibling, in their order.\<close>

lemma parent_node:
  assumes "i < length level" and "1 < length level"
  shows "next_level level ! (i div 2) =
    (case siblings level i of
       [] \<Rightarrow> level ! i
     | s # _ \<Rightarrow> if i mod 2 = 1 then hash_children s (level ! i) else hash_children (level ! i) s)"
proof (cases "i mod 2 = 1")
  case True
  then have "2 * (i div 2) = i - 1" "Suc (2 * (i div 2)) = i" using half_pair by auto
  then show ?thesis using assms True next_level_nth [of "i div 2" level] by (simp add: siblings_def)
next
  case False
  then have "2 * (i div 2) = i" using half_even by simp
  then show ?thesis using assms False next_level_nth [of "i div 2" level] by (simp add: siblings_def)
qed

lemma verify_path_of:
  assumes "i < length level" and "\<forall>h \<in> set level. length h = 32"
  shows "verify_path (length level) i (level ! i) (map hexlify (path_of level i) @ rest) = Inr (root_of level, rest)"
  using assms
proof (induction level i rule: path_of.induct)
  case (1 level i)
  show ?case
  proof (cases "1 < length level")
    case True
    note IH = "1.IH" [OF True _ next_level_hashes [OF "1.prems"(2)]]
    have "i div 2 < length (next_level level)" "level \<noteq> []" using "1.prems" True by auto
    moreover have "\<forall>s \<in> set (siblings level i). read_sibling (hexlify s) = Inr s"
      using "1.prems" by (auto simp: siblings_def read_sibling_def)
    ultimately show ?thesis
      using IH parent_node [OF "1.prems"(1) True] True "1.prems"(1)
      by (auto simp: verify_path.simps [of "length level"] path_of.simps [of level] root_of_next siblings_def Let_def
          split: if_splits)
  next
    case False
    then obtain h where "level = [h]" using "1.prems" by (cases level) auto
    then show ?thesis using "1.prems" by (simp add: verify_path.simps path_of.simps)
  qed
qed

lemma leaf_level: "\<forall>h \<in> set (map hash_leaf leaves). length h = 32"
  by simp

section \<open>Forged proofs\<close>

text \<open>
  A proof that the check accepts for another body gives two different inputs with the same hash. They
  are computed here from the tree and the proof: the lowest place on the way up where the tree and the
  proof hash different inputs to the same node.
\<close>

function find_collision :: "byte list list \<Rightarrow> nat \<Rightarrow> byte list \<Rightarrow> string list \<Rightarrow> (byte list \<times> byte list) option" where
  "find_collision level i current hashes =
    (if length level \<le> 1 then None
     else case siblings level i of
       [] \<Rightarrow> find_collision (next_level level) (i div 2) current hashes
     | s # _ \<Rightarrow>
         (case hashes of
            [] \<Rightarrow> None
          | h # rest \<Rightarrow>
              (case fromhex h of
                 None \<Rightarrow> None
               | Some sibling \<Rightarrow>
                   let mine = 1 # (if i mod 2 = 1 then sibling @ current else current @ sibling);
                       theirs = 1 # (if i mod 2 = 1 then s @ level ! i else level ! i @ s)
                   in if mine \<noteq> theirs \<and> sha256 mine = sha256 theirs then Some (mine, theirs)
                      else find_collision (next_level level) (i div 2) (sha256 mine) rest)))"
  by pat_completeness auto
termination by (relation "measure (length \<circ> fst)") (auto simp: next_level_shorter)

declare find_collision.simps [simp del]

definition inclusion_collision :: "byte list list \<Rightarrow> nat \<Rightarrow> byte list \<Rightarrow> string list \<Rightarrow> (byte list \<times> byte list) option" where
  "inclusion_collision leaves i body hashes =
    (if hash_leaf body = hash_leaf (leaves ! i) then Some (0 # body, 0 # leaves ! i)
     else find_collision (map hash_leaf leaves) i (hash_leaf body) hashes)"

definition collides :: "(byte list \<times> byte list) option \<Rightarrow> bool" where
  "collides c \<longleftrightarrow> (case c of None \<Rightarrow> False | Some (x, y) \<Rightarrow> x \<noteq> y \<and> sha256 x = sha256 y)"

lemma read_sibling_Inr: "read_sibling h = Inr s \<longleftrightarrow> fromhex h = Some s \<and> length s = 32"
  by (auto simp: read_sibling_def split: option.splits)

text \<open>One round of the check at a node with a sibling.\<close>

lemma verify_round:
  assumes "verify_path (length level) i current hashes = Inr res" and "1 < length level" and "siblings level i = s # ss"
  obtains h rest sibling where "hashes = h # rest" and "fromhex h = Some sibling" and "length sibling = 32"
    and "verify_path (length (next_level level)) (i div 2)
      (sha256 (1 # (if i mod 2 = 1 then sibling @ current else current @ sibling))) rest = Inr res"
  using assms by (auto simp: verify_path.simps [of "length level"] siblings_def read_sibling_Inr hash_children_def Let_def
      split: if_splits list.splits)

lemma find_collision_works:
  assumes "i < length level" and "\<forall>h \<in> set level. length h = 32" and "length current = 32"
    and "verify_path (length level) i current hashes = Inr (root_of level, rest)" and "current \<noteq> level ! i"
  shows "collides (find_collision level i current hashes)"
  using assms
proof (induction level i current hashes rule: find_collision.induct)
  case (1 level i current hashes)
  have len: "1 < length level"
  proof (rule ccontr)
    assume "\<not> 1 < length level"
    then obtain h where "level = [h]" using "1.prems"(1) by (cases level) auto
    then show False using "1.prems" by (simp add: verify_path.simps)
  qed
  then have up: "i div 2 < length (next_level level)" "level \<noteq> []" using "1.prems"(1) by auto
  note hashes' = next_level_hashes [OF "1.prems"(2)] and parent = parent_node [OF "1.prems"(1) len]
  show ?case
  proof (cases "siblings level i")
    case Nil
    then have "verify_path (length (next_level level)) (i div 2) current hashes = Inr (root_of (next_level level), rest)"
      using "1.prems"(4) len up by (simp add: verify_path.simps [of "length level"] siblings_def root_of_next split: if_splits)
    then show ?thesis
      using "1.IH"(1) [OF _ Nil up(1) hashes' "1.prems"(3)] "1.prems"(5) parent len Nil by (simp add: find_collision.simps [of level])
  next
    case (Cons s ss)
    let ?theirs = "1 # (if i mod 2 = 1 then s @ level ! i else level ! i @ s)"
    obtain h hs sibling where h: "hashes = h # hs" "fromhex h = Some sibling" "length sibling = 32"
      and go: "verify_path (length (next_level level)) (i div 2)
        (sha256 (1 # (if i mod 2 = 1 then sibling @ current else current @ sibling))) hs = Inr (root_of level, rest)"
      by (rule verify_round [OF "1.prems"(4) len Cons])
    let ?mine = "1 # (if i mod 2 = 1 then sibling @ current else current @ sibling)"
    have "length s = 32" "length (level ! i) = 32"
      using Cons "1.prems"(1,2) by (auto simp: siblings_def split: if_splits)
    then have ne: "?mine \<noteq> ?theirs" using h(3) "1.prems"(3,5) by auto
    have theirs: "next_level level ! (i div 2) = sha256 ?theirs" by (simp add: parent Cons hash_children_def)
    show ?thesis
    proof (cases "sha256 ?mine = sha256 ?theirs")
      case True
      then show ?thesis using ne len Cons h by (simp add: find_collision.simps [of level] collides_def Let_def)
    next
      case False
      then have "collides (find_collision (next_level level) (i div 2) (sha256 ?mine) hs)"
        using "1.IH"(2) [OF _ Cons h(1,2) refl refl _ up(1) hashes'] go len theirs up(2) by (simp add: root_of_next)
      then show ?thesis using False len Cons h by (simp add: find_collision.simps [of level] Let_def)
    qed
  qed
qed

section \<open>The tree hash of RFC 6962\<close>

text \<open>The largest power of two below a number, and the recursive definition of the standard.\<close>

fun split_point :: "nat \<Rightarrow> nat" where
  "split_point n = (if n \<le> 2 then 1 else 2 * split_point ((n + 1) div 2))"

declare split_point.simps [simp del]

lemma half_bounds: "k < (n + 1) div 2 \<Longrightarrow> 2 * k < n" "(n + 1) div 2 \<le> k \<Longrightarrow> n \<le> 2 * k" for n k :: nat
  by presburger+

lemma split_point_power: "1 < n \<Longrightarrow> \<exists>m. split_point n = 2 ^ m \<and> 2 ^ m < n \<and> n \<le> 2 * 2 ^ m"
proof (induction n rule: split_point.induct)
  case (1 n)
  show ?case
  proof (cases "n \<le> 2")
    case True
    then show ?thesis using "1.prems" by (intro exI [of _ 0]) (simp add: split_point.simps)
  next
    case False
    then have "1 < (n + 1) div 2" by linarith
    then obtain m where "split_point ((n + 1) div 2) = 2 ^ m" "2 ^ m < (n + 1) div 2" "(n + 1) div 2 \<le> 2 * 2 ^ m"
      using "1.IH" [OF False] by blast
    then show ?thesis using False half_bounds [of "2 ^ m" n] half_bounds [of "2 * 2 ^ m" n]
      by (intro exI [of _ "Suc m"]) (simp add: split_point.simps [of n])
  qed
qed

lemma split_point_less: "1 < n \<Longrightarrow> 0 < split_point n \<and> split_point n < n"
  using split_point_power by force

function tree_hash :: "byte list list \<Rightarrow> byte list" where
  "tree_hash leaves =
    (if leaves = [] then sha256 []
     else if length leaves = 1 then hash_leaf (hd leaves)
     else
       let k = split_point (length leaves)
       in hash_children (tree_hash (take k leaves)) (tree_hash (drop k leaves)))"
  by pat_completeness auto
termination
proof (relation "measure length")
  fix leaves :: "byte list list" and k
  assume "leaves \<noteq> []" "length leaves \<noteq> 1" "k = split_point (length leaves)"
  then have "0 < k \<and> k < length leaves" using split_point_less [of "length leaves"] by (cases leaves) auto
  then show "(take k leaves, leaves) \<in> measure length" "(drop k leaves, leaves) \<in> measure length" by auto
qed simp

declare tree_hash.simps [simp del]

lemma next_level_append: "even (length xs) \<Longrightarrow> next_level (xs @ ys) = next_level xs @ next_level ys"
  by (induction xs rule: next_level.induct) auto

text \<open>A level whose left part is a full tree, at least as large as the rest, is hashed in two halves.\<close>

lemma root_of_halves:
  assumes "length xs = 2 ^ m" and "0 < length ys" and "length ys \<le> 2 ^ m"
  shows "root_of (xs @ ys) = hash_children (root_of xs) (root_of ys)"
  using assms
proof (induction m arbitrary: xs ys)
  case 0
  then obtain x y where "xs = [x]" "ys = [y]" by (auto simp: length_Suc_conv le_Suc_eq)
  then show ?case by (simp add: root_of.simps)
next
  case (Suc m)
  have ne: "xs \<noteq> []" "ys \<noteq> []" using Suc.prems by auto
  have "root_of (xs @ ys) = root_of (next_level xs @ next_level ys)"
    using Suc.prems ne by (simp flip: root_of_next [of "xs @ ys"] add: next_level_append)
  also have "\<dots> = hash_children (root_of (next_level xs)) (root_of (next_level ys))"
    using Suc.prems by (intro Suc.IH) auto
  finally show ?case using ne by (simp add: root_of_next)
qed

lemma root_of_tree_hash: "leaves \<noteq> [] \<Longrightarrow> root_of (map hash_leaf leaves) = tree_hash leaves"
proof (induction leaves rule: tree_hash.induct)
  case (1 leaves)
  show ?case
  proof (cases "length leaves = 1")
    case True
    then obtain x where "leaves = [x]" by (cases leaves) auto
    then show ?thesis by (simp add: tree_hash.simps)
  next
    case False
    obtain m where k: "split_point (length leaves) = 2 ^ m" "2 ^ m < length leaves" "length leaves \<le> 2 * 2 ^ m"
      using split_point_power [of "length leaves"] False "1.prems" by (cases leaves) auto
    let ?k = "split_point (length leaves)"
    have "root_of (map hash_leaf (take ?k leaves) @ map hash_leaf (drop ?k leaves)) =
        hash_children (root_of (map hash_leaf (take ?k leaves))) (root_of (map hash_leaf (drop ?k leaves)))"
      using k by (intro root_of_halves) auto
    moreover have "map hash_leaf (take ?k leaves) @ map hash_leaf (drop ?k leaves) = map hash_leaf leaves"
      by (simp flip: map_append)
    moreover have "take ?k leaves \<noteq> []" "drop ?k leaves \<noteq> []" using k "1.prems" by auto
    ultimately show ?thesis
      using "1.IH" [OF "1.prems" False refl] False "1.prems" by (simp add: tree_hash.simps [of leaves] Let_def)
  qed
qed

section \<open>The guarantees\<close>

lemma path_of_length: "length level \<le> 2 ^ m \<Longrightarrow> length (path_of level i) \<le> m"
proof (induction m arbitrary: level i)
  case 0
  then show ?case by (simp add: path_of.simps [of level])
next
  case (Suc m)
  have "length (path_of (next_level level) (i div 2)) \<le> m" using Suc by (intro Suc.IH) simp
  then show ?case by (simp add: path_of.simps [of level] siblings_def)
qed

lemma root_hash_length: "leaves \<noteq> [] \<Longrightarrow> length (root_of (map hash_leaf leaves)) = 32"
  by (rule root_of_length) simp_all

lemma merkle_proof_checks:
  assumes "i < length leaves"
  shows "verify_inclusion_proof (leaves ! i) (int i) (int (length leaves))
    (map hexlify (path_of (map hash_leaf leaves) i)) (hexlify (root_of (map hash_leaf leaves))) = Inr ()"
proof -
  have ne: "leaves \<noteq> []" using assms by auto
  show ?thesis
    using assms root_hash_length [OF ne] verify_path_of [of i "map hash_leaf leaves" "[]", OF _ leaf_level]
    by (simp add: verify_inclusion_proof_def ne)
qed

text \<open>C23: The loop that computes the root ends for every list of leaves, with the tree hash of RFC 6962: the
  level by level computation gives the hash the standard defines by splitting at powers of two.\<close>

theorem merkle_root_is_tree_hash: "merkle_root leaves = Some (tree_hash leaves)"
proof (cases "leaves = []")
  case True
  then show ?thesis by (simp add: merkle_root_def tree_hash.simps)
next
  case False
  then show ?thesis by (simp add: merkle_root_eq root_of_tree_hash)
qed

text \<open>C30: The computation of a proof always ends: outside the tree with the error of the code, inside with a
  proof that has at most \<open>m\<close> hashes in a tree of at most \<open>2 ^ m\<close> leaves.\<close>

theorem merkle_proof_ends:
  assumes "length leaves \<le> 2 ^ m"
  shows "(if 0 \<le> index \<and> index < int (length leaves)
    then \<exists>path. merkle_proof leaves index = Some (Inr path) \<and> length path \<le> m
    else merkle_proof leaves index = Some (Inl (TransparencyError ''Merkle proof index is outside the tree'')))"
proof (cases "0 \<le> index \<and> index < int (length leaves)")
  case True
  then have "merkle_proof leaves (int (nat index)) = Some (Inr (path_of (map hash_leaf leaves) (nat index)))"
    by (intro merkle_proof_eq) auto
  then show ?thesis using True assms path_of_length [of "map hash_leaf leaves" m "nat index"] by auto
qed (auto simp: merkle_proof_def)

theorem merkle_proof_ends_witness: "\<exists>path. merkle_proof [[1], [2], [3]] 2 = Some (Inr path) \<and> length path \<le> 2"
  using merkle_proof_ends [of "[[1], [2], [3]]" 2 2] by auto

text \<open>C24: Every proof the log computes is accepted: for each leaf of a tree, the check succeeds on the leaf, its
  position, the size, the computed proof and the computed root, both written in hexadecimal.\<close>

theorem merkle_proof_verifies:
  assumes "0 \<le> i" and "i < int (length leaves)"
  shows "\<exists>path root. merkle_proof leaves i = Some (Inr path) \<and> merkle_root leaves = Some root \<and>
    verify_inclusion_proof (leaves ! nat i) i (int (length leaves)) (map hexlify path) (hexlify root) = Inr ()"
proof -
  have i: "nat i < length leaves" "int (nat i) = i" "leaves \<noteq> []" using assms by auto
  show ?thesis
    using merkle_proof_checks [OF i(1)] merkle_proof_eq [OF i(1)] merkle_root_eq [OF i(3)] by (simp add: assms(1))
qed

theorem merkle_proof_verifies_witness:
  "\<exists>path root. merkle_proof [[1], [2], [3]] 2 = Some (Inr path) \<and> merkle_root [[1], [2], [3]] = Some root \<and>
    verify_inclusion_proof [3] 2 3 (map hexlify path) (hexlify root) = Inr ()"
  using merkle_proof_verifies [of 2 "[[1], [2], [3]]"] by simp

text \<open>Appending to the log always gives evidence that the check accepts for the new entry.\<close>

theorem log_submit_evidence_verifies:
  "\<exists>e. log_submit body entries = Some (Inr (entries @ [body], e)) \<and> ie_body e = body \<and>
    ie_log_index e = length entries \<and> ie_tree_size e = length entries + 1 \<and>
    verify_inclusion_proof (ie_body e) (int (ie_log_index e)) (int (ie_tree_size e)) (ie_hashes e) (ie_root_hash e) = Inr ()"
proof -
  let ?leaves = "entries @ [body]"
  have i: "length entries < length ?leaves" "?leaves \<noteq> []" by simp_all
  show ?thesis
    using merkle_proof_checks [OF i(1)] merkle_proof_eq [OF i(1)] merkle_root_eq [OF i(2)]
    by (simp add: log_submit_def Let_def)
qed

text \<open>C13: A proof that is accepted against the root of a tree is a proof of the leaf at that position: for any
  other body, however the hashes are chosen, the tree and the proof contain two different inputs with
  the same SHA-256 hash, and these are computed.\<close>

theorem merkle_inclusion_sound:
  assumes "verify_inclusion_proof body i (int (length leaves)) hashes root_hex = Inr ()"
    and "fromhex root_hex = merkle_root leaves"
  shows "body = leaves ! nat i \<or>
    (\<exists>x y. inclusion_collision leaves (nat i) body hashes = Some (x, y) \<and> x \<noteq> y \<and> sha256 x = sha256 y)"
proof (cases "hash_leaf body = hash_leaf (leaves ! nat i)")
  case True
  then show ?thesis by (simp add: inclusion_collision_def hash_leaf_def)
next
  case False
  have i: "nat i < length leaves" "leaves \<noteq> []"
    using assms(1) by (auto simp: verify_inclusion_proof_def split: if_splits)
  have "verify_path (length leaves) (nat i) (hash_leaf body) hashes = Inr (root_of (map hash_leaf leaves), [])"
    using assms(1,2) merkle_root_eq [OF i(2)] by (auto simp: verify_inclusion_proof_def split: if_splits option.splits)
  then have "collides (find_collision (map hash_leaf leaves) (nat i) (hash_leaf body) hashes)"
    using i(1) False by (intro find_collision_works) simp_all
  then show ?thesis using False by (auto simp: collides_def inclusion_collision_def split: option.splits prod.splits)
qed

theorem merkle_inclusion_sound_witness:
  "\<exists>hashes root_hex. verify_inclusion_proof [2] 1 3 hashes root_hex = Inr () \<and>
    ([2] = [[1], [2], [3]] ! nat 1 \<or>
      (\<exists>x y. inclusion_collision [[1], [2], [3]] (nat 1) [2] hashes = Some (x, y) \<and> x \<noteq> y \<and> sha256 x = sha256 y))"
proof -
  let ?leaves = "[[1], [2], [3]]" and ?level = "map hash_leaf [[1], [2], [3]]"
  have "verify_inclusion_proof [2] 1 (int (length ?leaves)) (map hexlify (path_of ?level 1)) (hexlify (root_of ?level)) = Inr ()"
    using merkle_proof_checks [of 1 ?leaves] by simp
  moreover have "fromhex (hexlify (root_of ?level)) = merkle_root ?leaves" by (subst merkle_root_eq) simp_all
  ultimately show ?thesis using merkle_inclusion_sound [of "[2]" 1 ?leaves] by fastforce
qed

end
