(* ===== verification/Passport.thy ===== *)
theory Passport
  imports Risk_Attenuation Spend_Policy
begin

text \<open>
  Mission passports and their delegation (\<open>passport.py\<close>): the claims of a passport, the signed
  chain of ancestors, and the derivation of a child passport from a parent. Tokens are handled as
  their claims: signing and decoding are those of the token library, and the text of a token matters
  only for its hash. Claims have the types the issuer writes; an optional claim that is absent is
  \<^term>\<open>None\<close>. The clock and the fresh identifier of a passport are arguments.
\<close>

datatype passport_error =
    PermissionError string
  | PassportValueError string
  | PassportSpendError spend_error
  | PassportRiskError risk_error

definition lift_error :: "('e \<Rightarrow> 'f) \<Rightarrow> 'e + 'a \<Rightarrow> 'f + 'a" where
  "lift_error f r = (case r of Inl e \<Rightarrow> Inl (f e) | Inr x \<Rightarrow> Inr x)"

lemma lift_error_Inr [simp]: "lift_error f r = Inr x \<longleftrightarrow> r = Inr x" "lift_error f (Inr x) = Inr x"
  by (cases r) (simp_all add: lift_error_def)

section \<open>Working directories\<close>

text \<open>\<open>posixpath.normpath\<close>.\<close>

definition initial_slashes :: "string \<Rightarrow> nat" where
  "initial_slashes path =
    (if \<not> startswith path ''/'' then 0
     else if startswith path ''//'' \<and> \<not> startswith path ''///'' then 2
     else 1)"

fun norm_comps :: "bool \<Rightarrow> string list \<Rightarrow> string list \<Rightarrow> string list" where
  "norm_comps absolute acc [] = rev acc"
| "norm_comps absolute acc (seg # segs) =
    (if seg = [] \<or> seg = ''.'' then norm_comps absolute acc segs
     else if seg \<noteq> ''..'' \<or> (\<not> absolute \<and> acc = []) \<or> (acc \<noteq> [] \<and> hd acc = ''..'')
     then norm_comps absolute (seg # acc) segs
     else norm_comps absolute (tl acc) segs)"

definition normpath :: "string \<Rightarrow> string" where
  "normpath path =
    (if path = [] then ''.''
     else
       let slashes = initial_slashes path;
           result = replicate slashes (CHR ''/'') @
             join_with ''/'' (norm_comps (slashes \<noteq> 0) [] (split_on (CHR ''/'') path))
       in if result = [] then ''.'' else result)"

definition normalize_cwd :: "string option \<Rightarrow> passport_error + string option" where
  "normalize_cwd v =
    (case v of
       None \<Rightarrow> Inr None
     | Some raw \<Rightarrow>
         let stripped = strip raw in
         if stripped = [] then Inr None
         else if \<not> startswith stripped ''/''
         then Inl (PassportValueError ''cwd must be an absolute path'')
         else if ''..'' \<in> set (split_on (CHR ''/'') stripped)
         then Inl (PassportValueError ''cwd must not contain '..' segments'')
         else Inr (Some (normpath stripped)))"

definition cwd_is_subpath :: "string \<Rightarrow> string \<Rightarrow> bool" where
  "cwd_is_subpath child parent \<longleftrightarrow>
    (if child = parent then True
     else if parent = ''/'' then startswith child ''/''
     else startswith child (parent @ ''/''))"

section \<open>Claims\<close>

record chain_link =
  cl_jti :: string
  cl_token_hash :: "string option"
  cl_parent_jti :: "string option"
  cl_parent_token_hash :: "string option"

record passport_claims =
  pc_sub :: string
  pc_iat :: int
  pc_exp :: int
  pc_jti :: string
  pc_mission_id :: string
  pc_mission :: string
  pc_allowed_tools :: "string list"
  pc_forbidden_tools :: "string list"
  pc_resource_scope :: "string list"
  pc_max_tool_calls :: int
  pc_max_duration_s :: int
  pc_delegation_allowed :: bool
  pc_max_delegation_depth :: int
  pc_parent_jti :: "string option"
  pc_cwd :: "string option"
  pc_allowed_side_effect_classes :: "string list"
  pc_max_tool_calls_per_class :: "int dict"
  pc_additional_policies :: "jv list"
  pc_spend_budget :: "jv option"
  pc_risk_budget :: "jv option"
  pc_cnf :: "string option"
  pc_mic_claims :: "jv dict"
  pc_parent_token_hash :: "string option"
  pc_delegation_chain :: "chain_link list"
  pc_reserved_budget_share :: "int option"

text \<open>The fields of \<open>MissionPassport\<close> and their defaults.\<close>

record mission_passport =
  mp_agent_id :: string
  mp_mission :: string
  mp_allowed_tools :: "string list"
  mp_forbidden_tools :: "string list"
  mp_resource_scope :: "string list"
  mp_max_tool_calls :: int
  mp_max_duration_s :: int
  mp_delegation_allowed :: bool
  mp_max_delegation_depth :: int
  mp_parent_jti :: "string option"
  mp_cwd :: "string option"
  mp_allowed_side_effect_classes :: "string list"
  mp_max_tool_calls_per_class :: "int dict"
  mp_holder_key_thumbprint :: "string option"
  mp_holder_spiffe_id :: "string option"
  mp_mission_id :: "string option"
  mp_additional_policies :: "jv list"
  mp_spend_budget :: "jv option"
  mp_risk_budget :: "jv option"

definition default_mission :: "string \<Rightarrow> string \<Rightarrow> string list \<Rightarrow> mission_passport" where
  "default_mission agent_id mission allowed_tools =
    \<lparr>mp_agent_id = agent_id, mp_mission = mission, mp_allowed_tools = allowed_tools, mp_forbidden_tools = [],
     mp_resource_scope = [], mp_max_tool_calls = 50, mp_max_duration_s = 600, mp_delegation_allowed = False,
     mp_max_delegation_depth = 0, mp_parent_jti = None, mp_cwd = None, mp_allowed_side_effect_classes = [],
     mp_max_tool_calls_per_class = [], mp_holder_key_thumbprint = None, mp_holder_spiffe_id = None, mp_mission_id = None,
     mp_additional_policies = [], mp_spend_budget = None, mp_risk_budget = None\<rparr>"

definition MAX_DELEGATION_DEPTH :: nat where
  "MAX_DELEGATION_DEPTH = 16"

definition UNRESTRICTED_RESOURCE_SCOPE_PATTERN :: string where
  "UNRESTRICTED_RESOURCE_SCOPE_PATTERN = ''**''"

definition resource_scope_is_explicitly_unrestricted :: "string list \<Rightarrow> bool" where
  "resource_scope_is_explicitly_unrestricted scope \<longleftrightarrow> scope = [UNRESTRICTED_RESOURCE_SCOPE_PATTERN]"

text \<open>\<open>__post_init__\<close>.\<close>

definition post_init :: "mission_passport \<Rightarrow> passport_error + mission_passport" where
  "post_init m =
    rbind (normalize_cwd (mp_cwd m)) (\<lambda>cwd.
    rbind (case mp_spend_budget m of
        None \<Rightarrow> Inr None
      | Some b \<Rightarrow> rbind (lift_error PassportSpendError (normalize_spend_budget b None False)) (\<lambda>p.
          Inr (Some (spend_policy_json p)))) (\<lambda>spend.
    if UNRESTRICTED_RESOURCE_SCOPE_PATTERN \<in> set (mp_resource_scope m) \<and>
       \<not> resource_scope_is_explicitly_unrestricted (mp_resource_scope m)
    then Inl (PassportValueError ''unrestricted '**' must be the only resource_scope pattern'')
    else Inr (m\<lparr>mp_cwd := cwd, mp_spend_budget := spend\<rparr>)))"

definition derive_mission_id :: "string \<Rightarrow> string \<Rightarrow> string" where
  "derive_mission_id agent_id mission_text = ''mission:'' @ agent_id @ '':'' @ take 12 (sha256_hex mission_text)"

section \<open>Issuing\<close>

text \<open>The dictionary \<open>extra_claims\<close>: the claims that \<open>derive_child_passport\<close> adds, three of them as fields of their own.\<close>

record extra_claims =
  ex_mic_claims :: "jv dict"
  ex_parent_token_hash :: "string option"
  ex_delegation_chain :: "chain_link list"
  ex_reserved_budget_share :: "int option"

definition issue_spend :: "mission_passport \<Rightarrow> string \<Rightarrow> passport_error + jv option" where
  "issue_spend m jti =
    (case mp_spend_budget m of
       None \<Rightarrow> Inr None
     | Some b \<Rightarrow>
         let inherited = (case b of JObj d \<Rightarrow> jget d ''lineage_id'' | _ \<Rightarrow> JNull) in
         if mp_parent_jti m = None \<and> inherited \<noteq> JNull
         then Inl (PassportValueError ''root spend_budget must omit lineage_id'')
         else if mp_parent_jti m \<noteq> None \<and> inherited = JNull
         then Inl (PassportValueError ''child spend_budget must inherit the parent lineage_id'')
         else
           rbind (lift_error PassportSpendError (normalize_spend_budget b
               (Some (case inherited of JStr l \<Rightarrow> l | _ \<Rightarrow> jti)) True)) (\<lambda>p.
           Inr (Some (spend_policy_json p))))"

definition issue_risk :: "mission_passport \<Rightarrow> string \<Rightarrow> passport_error + jv option" where
  "issue_risk m jti =
    (case mp_risk_budget m of
       None \<Rightarrow> Inr None
     | Some b \<Rightarrow>
         let inherited = (case b of JObj d \<Rightarrow> jget d ''lineage_id'' | _ \<Rightarrow> JNull) in
         rbind (lift_error PassportRiskError
             (normalize_risk_budget b (if inherited = JNull then Some jti else None))) (\<lambda>p.
         if set (keys (rp_tools p)) \<subseteq> set (mp_allowed_tools m) then Inr (Some (risk_policy_json p))
         else Inl (PassportValueError ''risk_budget tools must be a subset of allowed_tools'')))"

text \<open>An identifier that the caller prescribes: \<open>uuid.UUID\<close> accepts it and prints it back up to case, which leaves the five
  groups of hexadecimal digits.\<close>

definition canonical_uuid :: "string \<Rightarrow> bool" where
  "canonical_uuid s \<longleftrightarrow> length s = 36 \<and>
    list_all (\<lambda>(i, c). if i \<in> {8, 13, 18, 23} then c = CHR ''-'' else is_hex c) (enumerate 0 s)"

definition check_jti_override :: "string option \<Rightarrow> passport_error + unit" where
  "check_jti_override jti_override =
    (case jti_override of
       None \<Rightarrow> Inr ()
     | Some j \<Rightarrow>
         if j = [] \<or> length (utf8 j) > 1024
         then Inl (PassportValueError ''jti_override must be a non-empty string of at most 1024 bytes'')
         else ensure (canonical_uuid j) (PassportValueError ''jti_override must use canonical UUID format''))"

text \<open>The names of the claims that are set before \<open>extra_claims\<close> are merged.\<close>

definition protected_claims :: "mission_passport \<Rightarrow> string list" where
  "protected_claims m =
    [''iss'', ''sub'', ''aud'', ''iat'', ''nbf'', ''exp'', ''jti'', ''mission_id'', ''mission'', ''allowed_tools'',
     ''forbidden_tools'', ''resource_scope'', ''max_tool_calls'', ''max_duration_s'', ''delegation_allowed'',
     ''max_delegation_depth''] @
    (if mp_parent_jti m \<in> {None, Some []} then [] else [''parent_jti'']) @ (if mp_cwd m = None then [] else [''cwd'']) @
    (if mp_allowed_side_effect_classes m = [] then [] else [''allowed_side_effect_classes'']) @
    (if mp_max_tool_calls_per_class m = [] then [] else [''max_tool_calls_per_class'']) @
    (if mp_additional_policies m = [] then [] else [''additional_policies'']) @
    (if mp_spend_budget m = None then [] else [''spend_budget'']) @
    (if mp_risk_budget m = None then [] else [''risk_budget'']) @
    (if mp_holder_key_thumbprint m \<in> {None, Some []} then [] else [''cnf''])"

text \<open>The clock is read here on its own (\<open>now\<close>); \<open>fresh\<close> is the identifier drawn when the caller prescribes none.\<close>

definition issue_passport ::
  "mission_passport \<Rightarrow> int option \<Rightarrow> extra_claims \<Rightarrow> string option \<Rightarrow> int \<Rightarrow> string \<Rightarrow> passport_error + passport_claims" where
  "issue_passport m ttl_s extra jti_override now fresh =
    (let ttl = (case ttl_s of Some t \<Rightarrow> t | None \<Rightarrow> mp_max_duration_s m);
         jti = (case jti_override of Some j \<Rightarrow> j | None \<Rightarrow> fresh) in
    if ttl \<le> 0 then Inl (PassportValueError ''ttl_s must be positive'')
    else
      rbind (check_jti_override jti_override) (\<lambda>_.
      rbind (issue_spend m jti) (\<lambda>spend.
      rbind (issue_risk m jti) (\<lambda>risk.
      rbind (ensure (list_all (\<lambda>k. k \<notin> set (protected_claims m)) (keys (ex_mic_claims extra)))
               (PassportValueError ''extra_claims cannot override protected passport claims'')) (\<lambda>_.
      Inr \<lparr>pc_sub = mp_agent_id m, pc_iat = now, pc_exp = now + ttl, pc_jti = jti,
        pc_mission_id = (case mp_mission_id m of
            Some i \<Rightarrow> if i = [] then derive_mission_id (mp_agent_id m) (mp_mission m) else i
          | None \<Rightarrow> derive_mission_id (mp_agent_id m) (mp_mission m)),
        pc_mission = mp_mission m, pc_allowed_tools = mp_allowed_tools m,
        pc_forbidden_tools = mp_forbidden_tools m, pc_resource_scope = mp_resource_scope m,
        pc_max_tool_calls = mp_max_tool_calls m, pc_max_duration_s = mp_max_duration_s m,
        pc_delegation_allowed = mp_delegation_allowed m, pc_max_delegation_depth = mp_max_delegation_depth m,
        pc_parent_jti = (if mp_parent_jti m = Some [] then None else mp_parent_jti m), pc_cwd = mp_cwd m,
        pc_allowed_side_effect_classes = mp_allowed_side_effect_classes m,
        pc_max_tool_calls_per_class = mp_max_tool_calls_per_class m,
        pc_additional_policies = mp_additional_policies m, pc_spend_budget = spend, pc_risk_budget = risk,
        pc_cnf = (if mp_holder_key_thumbprint m = Some [] then None else mp_holder_key_thumbprint m),
        pc_mic_claims = ex_mic_claims extra, pc_parent_token_hash = ex_parent_token_hash extra,
        pc_delegation_chain = ex_delegation_chain extra,
        pc_reserved_budget_share = ex_reserved_budget_share extra\<rparr>)))))"

section \<open>The chain of ancestors\<close>

definition require_nonempty_str :: "string \<Rightarrow> string \<Rightarrow> passport_error + string" where
  "require_nonempty_str v field =
    (if v = [] then Inl (PermissionError (''delegated passport has malformed '' @ field)) else Inr v)"

definition require_optional_str :: "string option \<Rightarrow> string \<Rightarrow> passport_error + string option" where
  "require_optional_str v field =
    (case v of None \<Rightarrow> Inr None | Some s \<Rightarrow> rbind (require_nonempty_str s field) (\<lambda>t. Inr (Some t)))"

definition normalize_link :: "chain_link \<Rightarrow> passport_error + chain_link" where
  "normalize_link link =
    rbind (require_optional_str (cl_token_hash link) ''delegation_chain.token_hash'') (\<lambda>token_hash.
    case cl_parent_jti link of
      None \<Rightarrow> Inr \<lparr>cl_jti = cl_jti link, cl_token_hash = token_hash, cl_parent_jti = None, cl_parent_token_hash = None\<rparr>
    | Some pj \<Rightarrow>
        rbind (require_nonempty_str pj ''delegation_chain.parent_jti'') (\<lambda>next_parent.
        rbind (require_optional_str (cl_parent_token_hash link) ''delegation_chain.parent_token_hash'') (\<lambda>parent_token_hash.
        Inr \<lparr>cl_jti = cl_jti link, cl_token_hash = token_hash, cl_parent_jti = Some next_parent,
             cl_parent_token_hash = parent_token_hash\<rparr>)))"

fun chain_walk :: "string option \<Rightarrow> string list \<Rightarrow> chain_link list \<Rightarrow> passport_error + chain_link list" where
  "chain_walk expected_jti seen [] =
    (if expected_jti \<noteq> None then Inl (PermissionError ''delegated passport missing delegation_chain ancestry'')
     else Inr [])"
| "chain_walk expected_jti seen (link # rest) =
    rbind (require_nonempty_str (cl_jti link) ''delegation_chain.jti'') (\<lambda>link_jti.
    if Some link_jti \<noteq> expected_jti
    then Inl (PermissionError ''delegated passport has inconsistent delegation_chain'')
    else if link_jti \<in> set seen then Inl (PermissionError ''passport lineage cycle detected'')
    else
      rbind (normalize_link link) (\<lambda>normalized.
      rbind (chain_walk (cl_parent_jti normalized) (link_jti # seen) rest) (\<lambda>links.
      Inr (normalized # links))))"

definition delegation_chain_entries :: "passport_claims \<Rightarrow> passport_error + chain_link list" where
  "delegation_chain_entries claims =
    rbind (require_nonempty_str (pc_jti claims) ''jti'') (\<lambda>current_jti.
    case pc_parent_jti claims of
      None \<Rightarrow>
        if pc_delegation_chain claims = [] then Inr []
        else Inl (PermissionError ''root passport must not include delegation_chain'')
    | Some pj \<Rightarrow>
        rbind (require_nonempty_str pj ''parent_jti'') (\<lambda>parent_jti.
        if pc_delegation_chain claims = []
        then Inl (PermissionError ''delegated passport missing delegation_chain'')
        else if length (pc_delegation_chain claims) > MAX_DELEGATION_DEPTH
        then Inl (PermissionError ''delegation depth exceeded'')
        else chain_walk (Some parent_jti) [current_jti] (pc_delegation_chain claims)))"

definition token_sha256 :: "string \<Rightarrow> string" where
  "token_sha256 token = sha256_hex token"

definition parent_link :: "passport_claims \<Rightarrow> string \<Rightarrow> chain_link" where
  "parent_link parent parent_token =
    \<lparr>cl_jti = pc_jti parent, cl_token_hash = Some (token_sha256 parent_token), cl_parent_jti = pc_parent_jti parent,
     cl_parent_token_hash =
       (if pc_parent_jti parent = None \<or> pc_parent_token_hash parent = Some [] then None
        else pc_parent_token_hash parent)\<rparr>"

definition expected_chain_for_parent :: "passport_claims \<Rightarrow> string \<Rightarrow> passport_error + chain_link list" where
  "expected_chain_for_parent parent parent_token =
    rbind (delegation_chain_entries parent) (\<lambda>chain. Inr (parent_link parent parent_token # chain))"

section \<open>Conformance claims\<close>

definition DELEGATED_MIC_CLAIMS :: "string list" where
  "DELEGATED_MIC_CLAIMS = [''conformance_profile'', ''receipt_policy'', ''tool_manifest_digest'']"

definition SUPPORTED_CONFORMANCE_PROFILES :: "string list" where
  "SUPPORTED_CONFORMANCE_PROFILES = [''Delegation-Core'', ''MIC-State'', ''MIC-Evidence'']"

definition SUPPORTED_RECEIPT_LEVELS :: "string list" where
  "SUPPORTED_RECEIPT_LEVELS = [''minimal'', ''counter_signed'', ''transparency_logged'']"

definition mic_error :: "string \<Rightarrow> passport_error" where
  "mic_error detail = PermissionError (''MIC conformance claim bundle '' @ detail)"

definition receipt_level :: "jv \<Rightarrow> jv option" where
  "receipt_level v = (case v of JObj d \<Rightarrow> if set (keys d) = {''level''} then Some (jget d ''level'') else None | _ \<Rightarrow> None)"

definition manifest_digest_ok :: "jv \<Rightarrow> bool" where
  "manifest_digest_ok v =
    (case v of
       JStr s \<Rightarrow> startswith s ''sha-256:'' \<and> length (drop 8 s) = 64 \<and> list_all is_lower_hex (drop 8 s)
     | _ \<Rightarrow> False)"

definition inherited_mic_conformance_claims :: "jv dict \<Rightarrow> passport_error + jv dict" where
  "inherited_mic_conformance_claims claims =
    (if \<not> has_key claims ''conformance_profile'' then Inr []
     else if \<not> list_all (has_key claims) DELEGATED_MIC_CLAIMS then Inl (mic_error ''is incomplete'')
     else case jget claims ''conformance_profile'' of
       JStr profile \<Rightarrow>
         if profile \<notin> set SUPPORTED_CONFORMANCE_PROFILES
         then Inl (mic_error ''has an unsupported conformance_profile'')
         else (case receipt_level (jget claims ''receipt_policy'') of
           None \<Rightarrow> Inl (mic_error ''has a malformed receipt_policy'')
         | Some level \<Rightarrow>
             if \<not> (\<exists>l \<in> set SUPPORTED_RECEIPT_LEVELS. level = JStr l)
             then Inl (mic_error ''has an unsupported receipt level'')
             else if profile = ''MIC-Evidence'' \<and> level = JStr ''minimal''
             then Inl (mic_error ''weakens MIC-Evidence with a minimal receipt level'')
             else if \<not> manifest_digest_ok (jget claims ''tool_manifest_digest'')
             then Inl (mic_error ''has a malformed tool_manifest_digest'')
             else Inr (map (\<lambda>c. (c, jget claims c)) DELEGATED_MIC_CLAIMS))
     | _ \<Rightarrow> Inl (mic_error ''has an unsupported conformance_profile''))"

section \<open>Verifying\<close>

text \<open>What \<open>verify_passport\<close> checks of decoded claims, with the decoded parent and its token, or against
  the trusted index of token hashes and of parent edges.\<close>

record trusted_lineage =
  tl_token_hashes :: "string dict"
  tl_edges :: "(string option \<times> string option) dict"

definition check_trusted_link :: "trusted_lineage \<Rightarrow> chain_link \<Rightarrow> passport_error + unit" where
  "check_trusted_link trusted link =
    (case cl_token_hash link of
       None \<Rightarrow> Inl (PermissionError ''delegation chain missing ancestor token_hash'')
     | Some link_hash \<Rightarrow>
         if map_of (tl_token_hashes trusted) (cl_jti link) \<noteq> Some link_hash
         then Inl (PermissionError ''delegation chain ancestor token hash is not trusted'')
         else (case map_of (tl_edges trusted) (cl_jti link) of
           None \<Rightarrow> Inl (PermissionError ''delegation chain ancestor lineage edge is not trusted'')
         | Some (trusted_parent_jti, trusted_parent_hash) \<Rightarrow>
             if trusted_parent_jti \<noteq> cl_parent_jti link
             then Inl (PermissionError ''delegation chain ancestor parent_jti is not trusted'')
             else if trusted_parent_hash \<noteq> cl_parent_token_hash link
             then Inl (PermissionError ''delegation chain ancestor parent hash is not trusted'')
             else Inr ()))"

definition verify_against_index ::
  "passport_claims \<Rightarrow> chain_link list \<Rightarrow> string \<Rightarrow> trusted_lineage option \<Rightarrow> passport_error + passport_claims" where
  "verify_against_index claims chain parent_token_hash trusted =
    (case trusted of
       None \<Rightarrow> Inl (PermissionError ''delegated passport verification requires parent_token'')
     | Some index \<Rightarrow>
         (case chain of
            [] \<Rightarrow> Inl (PermissionError ''delegated passport missing delegation_chain'')
          | link # _ \<Rightarrow>
              if cl_token_hash link \<noteq> Some parent_token_hash
              then Inl (PermissionError ''delegation chain parent hash does not match parent_token_hash'')
              else rbind (checkM (check_trusted_link index) chain) (\<lambda>_. Inr claims)))"

definition verify_against_parent ::
  "passport_claims \<Rightarrow> chain_link list \<Rightarrow> string \<Rightarrow> string \<Rightarrow> passport_claims \<Rightarrow> passport_error + passport_claims" where
  "verify_against_parent claims chain parent_token_hash parent_token parent =
    (if Some (pc_jti parent) \<noteq> pc_parent_jti claims
     then Inl (PermissionError ''delegated passport parent_jti does not match supplied parent token'')
     else if parent_token_hash \<noteq> token_sha256 parent_token
     then Inl (PermissionError ''delegated passport parent token hash mismatch'')
     else
       rbind (expected_chain_for_parent parent parent_token) (\<lambda>expected_chain.
       if chain \<noteq> expected_chain
       then Inl (PermissionError ''delegation chain does not match supplied parent lineage'')
       else
         rbind (inherited_mic_conformance_claims (pc_mic_claims parent)) (\<lambda>parent_mic.
         if parent_mic = [] then Inr claims
         else
           rbind (inherited_mic_conformance_claims (pc_mic_claims claims)) (\<lambda>child_mic.
           if child_mic \<noteq> parent_mic
           then Inl (PermissionError ''child MIC conformance claim bundle does not match parent'')
           else Inr claims))))"

definition verify_passport ::
  "passport_claims \<Rightarrow> (string \<times> passport_claims) option \<Rightarrow> trusted_lineage option \<Rightarrow> passport_error + passport_claims" where
  "verify_passport claims parent trusted =
    rbind (delegation_chain_entries claims) (\<lambda>chain.
    case pc_parent_jti claims of
      None \<Rightarrow> Inr claims
    | Some _ \<Rightarrow>
        (case pc_parent_token_hash claims of
           None \<Rightarrow> Inl (PermissionError ''delegated passport missing parent_token_hash'')
         | Some parent_token_hash \<Rightarrow>
             if parent_token_hash = [] then Inl (PermissionError ''delegated passport missing parent_token_hash'')
             else (case parent of
               None \<Rightarrow> verify_against_index claims chain parent_token_hash trusted
             | Some (parent_token, parent_claims) \<Rightarrow>
                 verify_against_parent claims chain parent_token_hash parent_token parent_claims)))"

section \<open>Deriving a child\<close>

record derive_args =
  da_child_agent_id :: string
  da_child_allowed_tools :: "string list"
  da_child_mission :: string
  da_child_ttl_s :: "int option"
  da_child_max_tool_calls :: "int option"
  da_parent_calls_remaining :: "int option"
  da_parent_reserved_for_descendants :: int
  da_child_resource_scope :: "string list option"
  da_child_cwd :: "string option"
  da_child_risk_budget :: "jv option"

definition sorted_set :: "string list \<Rightarrow> string list" where
  "sorted_set xs = sort (remdups xs)"

definition child_ttl :: "derive_args \<Rightarrow> int \<Rightarrow> passport_error + int" where
  "child_ttl a max_ttl =
    rbind (ensure (max_ttl > 0) (PermissionError ''parent passport expired'')) (\<lambda>_.
    let requested = (case da_child_ttl_s a of Some t \<Rightarrow> min t max_ttl | None \<Rightarrow> min 300 max_ttl) in
    rbind (ensure (requested > 0) (PermissionError ''insufficient TTL for child passport'')) (\<lambda>_.
    Inr requested))"

text \<open>The escrow rule: a child gets at most what the ceiling of the parent leaves after all
  reservations for descendants, what the parent has left, and what it asks for.\<close>

definition child_budget :: "derive_args \<Rightarrow> int \<Rightarrow> passport_error + int" where
  "child_budget a parent_ceiling =
    (let reserved = da_parent_reserved_for_descendants a; escrow_remaining = parent_ceiling - reserved in
    rbind (ensure (reserved \<ge> 0) (PermissionError ''parent_reserved_for_descendants must be non-negative'')) (\<lambda>_.
    rbind (ensure (reserved \<le> parent_ceiling)
             (PermissionError ''parent_reserved_for_descendants exceeds parent ceiling'')) (\<lambda>_.
    rbind (ensure (escrow_remaining > 0)
             (PermissionError ''parent passport descendant-reservation pool exhausted; cannot delegate'')) (\<lambda>_.
    rbind (case da_parent_calls_remaining a of
        None \<Rightarrow> Inr []
      | Some n \<Rightarrow> if n \<le> 0 then Inl (PermissionError ''parent passport budget exhausted; cannot delegate'')
          else Inr [n]) (\<lambda>remaining.
    rbind (case da_child_max_tool_calls a of
        None \<Rightarrow> Inr []
      | Some n \<Rightarrow> if n \<le> 0 then Inl (PermissionError ''child_max_tool_calls must be positive'')
          else Inr [n]) (\<lambda>requested.
    Inr (fold min (remaining @ requested) (min parent_ceiling escrow_remaining))))))))"

definition child_scope :: "derive_args \<Rightarrow> string list \<Rightarrow> passport_error + string list" where
  "child_scope a parent_scope =
    (case da_child_resource_scope a of
       None \<Rightarrow> Inr parent_scope
     | Some child \<Rightarrow>
         let requested = sorted_set child in
         if UNRESTRICTED_RESOURCE_SCOPE_PATTERN \<in> set requested \<and>
            \<not> resource_scope_is_explicitly_unrestricted requested
         then Inl (PermissionError ''unrestricted '**' must be the only child_resource_scope pattern'')
         else if requested = [] then Inr []
         else if resource_scope_is_explicitly_unrestricted parent_scope then Inr requested
         else if \<not> set child \<subseteq> set parent_scope then Inl (PermissionError ''scope escalation (resources)'')
         else Inr requested)"

definition child_cwd :: "derive_args \<Rightarrow> string option \<Rightarrow> passport_error + string option" where
  "child_cwd a parent_cwd_raw =
    rbind (normalize_cwd parent_cwd_raw) (\<lambda>parent_cwd.
    case da_child_cwd a of
      None \<Rightarrow> Inr parent_cwd
    | Some raw \<Rightarrow>
        rbind (normalize_cwd (Some raw)) (\<lambda>final_cwd.
        case final_cwd of
          None \<Rightarrow>
            if parent_cwd \<noteq> None then Inl (PermissionError ''cwd escalation: clearing the cwd of the parent is not allowed'')
            else Inr None
        | Some c \<Rightarrow>
            (case parent_cwd of
               None \<Rightarrow> Inl (PermissionError ''cannot introduce cwd: parent has none'')
             | Some pcwd \<Rightarrow>
                 if cwd_is_subpath c pcwd then Inr (Some c)
                 else Inl (PermissionError ''cwd escalation: not a subpath of the parent''))))"

definition child_risk :: "derive_args \<Rightarrow> jv option \<Rightarrow> string list \<Rightarrow> passport_error + risk_policy option" where
  "child_risk a parent_risk_budget child_tools =
    (case parent_risk_budget of
       None \<Rightarrow>
         if da_child_risk_budget a \<noteq> None then Inl (PermissionError ''cannot introduce risk_budget: parent has none'')
         else Inr None
     | Some budget \<Rightarrow>
         rbind (ensure (case budget of JObj _ \<Rightarrow> True | _ \<Rightarrow> False)
                  (PermissionError ''parent risk_budget is invalid'')) (\<lambda>_.
         rbind (lift_error PassportRiskError (project_risk_budget budget child_tools)) (\<lambda>projected.
         case projected of
           None \<Rightarrow>
             if da_child_risk_budget a \<noteq> None
             then Inl (PermissionError ''cannot retain risk_budget after removing all governed tools'')
             else Inr None
         | Some pp \<Rightarrow>
             rbind (lift_error PassportRiskError (attenuate_risk_budget (risk_policy_json pp)
                 (case da_child_risk_budget a of None \<Rightarrow> JNull | Some b \<Rightarrow> b))) (\<lambda>final.
             if set (keys (rp_tools final)) \<noteq> set (keys (rp_tools pp))
             then Inl (PermissionError ''risk_budget tool removal must match child allowed_tools'')
             else Inr (Some final)))))"

definition child_spend :: "jv option \<Rightarrow> passport_error + jv option" where
  "child_spend parent_spend_budget =
    (case parent_spend_budget of
       None \<Rightarrow> Inr None
     | Some b \<Rightarrow> rbind (lift_error PassportSpendError (normalize_spend_budget b None True)) (\<lambda>p.
         Inr (Some (spend_policy_json p))))"

text \<open>The clock is read twice: \<open>now\<close> to clamp the lifetime, \<open>issued_at\<close> when the passport is issued.\<close>

definition derive_child_passport ::
  "derive_args \<Rightarrow> string \<Rightarrow> passport_claims \<Rightarrow> int \<Rightarrow> int \<Rightarrow> string \<Rightarrow> passport_error + passport_claims" where
  "derive_child_passport a parent_token parent now issued_at jti =
    rbind (delegation_chain_entries parent) (\<lambda>parent_chain.
    rbind (ensure (pc_delegation_allowed parent)
             (PermissionError ''parent passport does not allow delegation'')) (\<lambda>_.
    rbind (ensure (pc_max_delegation_depth parent > 0) (PermissionError ''delegation depth exhausted'')) (\<lambda>_.
    let child_tools = da_child_allowed_tools a; parent_tools = pc_allowed_tools parent in
    rbind (ensure (set child_tools \<subseteq> set parent_tools) (PermissionError ''scope escalation (tools)'')) (\<lambda>_.
    rbind (ensure (child_tools \<noteq> []) (PermissionError ''child_allowed_tools must be non-empty'')) (\<lambda>_.
    rbind (child_ttl a (pc_exp parent - now)) (\<lambda>requested_ttl.
    let child_depth = pc_max_delegation_depth parent - 1 in
    rbind (child_budget a (pc_max_tool_calls parent)) (\<lambda>budget.
    rbind (child_scope a (pc_resource_scope parent)) (\<lambda>final_scope.
    rbind (child_cwd a (pc_cwd parent)) (\<lambda>final_cwd.
    rbind (child_risk a (pc_risk_budget parent) child_tools) (\<lambda>final_risk_budget.
    rbind (child_spend (pc_spend_budget parent)) (\<lambda>spend.
    rbind (post_init ((default_mission (da_child_agent_id a) (da_child_mission a) (sorted_set child_tools))
        \<lparr>mp_forbidden_tools := sorted_set (pc_forbidden_tools parent @ [t \<leftarrow> parent_tools. t \<notin> set child_tools]),
         mp_resource_scope := final_scope, mp_max_tool_calls := budget, mp_max_duration_s := requested_ttl,
         mp_delegation_allowed := child_depth > 0, mp_max_delegation_depth := child_depth,
         mp_parent_jti := Some (pc_jti parent), mp_cwd := final_cwd, mp_spend_budget := spend,
         mp_risk_budget := map_option risk_policy_json final_risk_budget\<rparr>)) (\<lambda>child.
    let child_chain = parent_link parent parent_token # parent_chain in
    rbind (ensure (length child_chain \<le> MAX_DELEGATION_DEPTH) (PermissionError ''delegation depth exceeded'')) (\<lambda>_.
    rbind (inherited_mic_conformance_claims (pc_mic_claims parent)) (\<lambda>mic.
    issue_passport child (Some requested_ttl)
      \<lparr>ex_mic_claims = mic, ex_parent_token_hash = Some (token_sha256 parent_token),
       ex_delegation_chain = child_chain, ex_reserved_budget_share = Some budget\<rparr> None issued_at jti))))))))))))))"

end
