(* ===== verification/Passport_Delegation.thy ===== *)
theory Passport_Delegation
  imports Passport Spend_Claims
begin

text \<open>
  What delegation guarantees: a derived passport is narrower than its parent in every respect the
  derivation handles, chains of derivations are bounded, and a derived passport verifies against its
  parent.
\<close>

section \<open>The parts of a derivation\<close>

definition child_mission ::
  "derive_args \<Rightarrow> passport_claims \<Rightarrow> int \<Rightarrow> int \<Rightarrow> string list \<Rightarrow> string option \<Rightarrow> jv option \<Rightarrow> risk_policy option \<Rightarrow>
    mission_passport" where
  "child_mission a parent ttl budget scope cwd spend risk =
    (default_mission (da_child_agent_id a) (da_child_mission a) (sorted_set (da_child_allowed_tools a)))
      \<lparr>mp_forbidden_tools := sorted_set (pc_forbidden_tools parent @
         [t \<leftarrow> pc_allowed_tools parent. t \<notin> set (da_child_allowed_tools a)]),
       mp_resource_scope := scope, mp_max_tool_calls := budget, mp_max_duration_s := ttl,
       mp_delegation_allowed := pc_max_delegation_depth parent - 1 > 0,
       mp_max_delegation_depth := pc_max_delegation_depth parent - 1,
       mp_parent_jti := Some (pc_jti parent), mp_cwd := cwd, mp_spend_budget := spend,
       mp_risk_budget := map_option risk_policy_json risk\<rparr>"

lemma derive_childE:
  assumes "derive_child_passport a tok parent now issued jti = Inr c"
  obtains chain ttl budget scope cwd risk spend m mic where
    "delegation_chain_entries parent = Inr chain" and "pc_delegation_allowed parent"
    and "0 < pc_max_delegation_depth parent"
    and "set (da_child_allowed_tools a) \<subseteq> set (pc_allowed_tools parent)" and "da_child_allowed_tools a \<noteq> []"
    and "child_ttl a (pc_exp parent - now) = Inr ttl" and "child_budget a (pc_max_tool_calls parent) = Inr budget"
    and "child_scope a (pc_resource_scope parent) = Inr scope" and "child_cwd a (pc_cwd parent) = Inr cwd"
    and "child_risk a (pc_risk_budget parent) (da_child_allowed_tools a) = Inr risk"
    and "child_spend (pc_spend_budget parent) = Inr spend"
    and "post_init (child_mission a parent ttl budget scope cwd spend risk) = Inr m"
    and "length chain < MAX_DELEGATION_DEPTH" and "inherited_mic_conformance_claims (pc_mic_claims parent) = Inr mic"
    and "issue_passport m (Some ttl) \<lparr>ex_mic_claims = mic, ex_parent_token_hash = Some (token_sha256 tok),
      ex_delegation_chain = parent_link parent tok # chain, ex_reserved_budget_share = Some budget\<rparr> None issued jti = Inr c"
  using assms unfolding derive_child_passport_def Let_def child_mission_def [symmetric]
  by (elim rbind_InrE) (simp add: Suc_le_eq)

lemma post_initE:
  assumes "post_init m = Inr m'"
  obtains cwd spend where "normalize_cwd (mp_cwd m) = Inr cwd" and "m' = m\<lparr>mp_cwd := cwd, mp_spend_budget := spend\<rparr>"
    and "case mp_spend_budget m of None \<Rightarrow> spend = None
      | Some b \<Rightarrow> \<exists>p. normalize_spend_budget b None False = Inr p \<and> spend = Some (spend_policy_json p)"
  using assms by (auto simp: post_init_def split: option.splits if_splits elim!: rbind_InrE)

lemma issue_passport_fields:
  assumes "issue_passport m (Some ttl) extra None now jti = Inr c"
  shows "issue_spend m jti = Inr (pc_spend_budget c)" and "issue_risk m jti = Inr (pc_risk_budget c)" and "0 < ttl"
    and "pc_exp c = now + ttl" and "pc_jti c = jti" and "pc_iat c = now" and "pc_allowed_tools c = mp_allowed_tools m"
    and "pc_forbidden_tools c = mp_forbidden_tools m" and "pc_resource_scope c = mp_resource_scope m"
    and "pc_max_tool_calls c = mp_max_tool_calls m" and "pc_max_duration_s c = mp_max_duration_s m"
    and "pc_delegation_allowed c = mp_delegation_allowed m" and "pc_max_delegation_depth c = mp_max_delegation_depth m"
    and "pc_parent_jti c = (if mp_parent_jti m = Some [] then None else mp_parent_jti m)" and "pc_cwd c = mp_cwd m"
    and "pc_allowed_side_effect_classes c = mp_allowed_side_effect_classes m"
    and "pc_max_tool_calls_per_class c = mp_max_tool_calls_per_class m"
    and "pc_additional_policies c = mp_additional_policies m"
    and "pc_mic_claims c = ex_mic_claims extra" and "pc_parent_token_hash c = ex_parent_token_hash extra"
    and "pc_delegation_chain c = ex_delegation_chain extra" and "pc_reserved_budget_share c = ex_reserved_budget_share extra"
  using assms by (auto simp: issue_passport_def Let_def split: if_splits)

text \<open>The claims of a derived child, field by field.\<close>

lemma derive_child_fields:
  assumes "derive_child_passport a tok parent now issued jti = Inr c"
  obtains chain ttl budget scope cwd risk spend spend' mic where
    "delegation_chain_entries parent = Inr chain" and "pc_delegation_allowed parent" and "0 < pc_max_delegation_depth parent"
    and "set (da_child_allowed_tools a) \<subseteq> set (pc_allowed_tools parent)" and "da_child_allowed_tools a \<noteq> []"
    and "child_ttl a (pc_exp parent - now) = Inr ttl" and "child_budget a (pc_max_tool_calls parent) = Inr budget"
    and "child_scope a (pc_resource_scope parent) = Inr scope" and "child_cwd a (pc_cwd parent) = Inr cwd"
    and "child_risk a (pc_risk_budget parent) (da_child_allowed_tools a) = Inr risk"
    and "child_spend (pc_spend_budget parent) = Inr spend" and "length chain < MAX_DELEGATION_DEPTH"
    and "inherited_mic_conformance_claims (pc_mic_claims parent) = Inr mic"
    and "pc_allowed_tools c = sorted_set (da_child_allowed_tools a)"
    and "pc_forbidden_tools c = sorted_set (pc_forbidden_tools parent @
         [t \<leftarrow> pc_allowed_tools parent. t \<notin> set (da_child_allowed_tools a)])"
    and "pc_resource_scope c = scope" and "pc_max_tool_calls c = budget" and "pc_exp c = issued + ttl"
    and "pc_max_delegation_depth c = pc_max_delegation_depth parent - 1"
    and "pc_delegation_allowed c = (pc_max_delegation_depth parent > 1)" and "normalize_cwd cwd = Inr (pc_cwd c)"
    and "pc_delegation_chain c = parent_link parent tok # chain" and "pc_parent_token_hash c = Some (token_sha256 tok)"
    and "pc_parent_jti c = Some (pc_jti parent)" and "pc_jti c = jti" and "pc_mic_claims c = mic"
    and "pc_allowed_side_effect_classes c = []" and "pc_max_tool_calls_per_class c = []" and "pc_additional_policies c = []"
    and "case spend of None \<Rightarrow> spend' = None
      | Some b \<Rightarrow> \<exists>p. normalize_spend_budget b None False = Inr p \<and> spend' = Some (spend_policy_json p)"
    and "issue_spend ((child_mission a parent ttl budget scope (pc_cwd c) spend' risk)) jti = Inr (pc_spend_budget c)"
    and "issue_risk ((child_mission a parent ttl budget scope (pc_cwd c) spend' risk)) jti = Inr (pc_risk_budget c)"
proof (rule derive_childE [OF assms])
  fix chain ttl budget scope cwd risk spend m mic
  assume d: "delegation_chain_entries parent = Inr chain" "pc_delegation_allowed parent" "0 < pc_max_delegation_depth parent"
    "set (da_child_allowed_tools a) \<subseteq> set (pc_allowed_tools parent)" "da_child_allowed_tools a \<noteq> []"
    "child_ttl a (pc_exp parent - now) = Inr ttl" "child_budget a (pc_max_tool_calls parent) = Inr budget"
    "child_scope a (pc_resource_scope parent) = Inr scope" "child_cwd a (pc_cwd parent) = Inr cwd"
    "child_risk a (pc_risk_budget parent) (da_child_allowed_tools a) = Inr risk"
    "child_spend (pc_spend_budget parent) = Inr spend" "length chain < MAX_DELEGATION_DEPTH"
    "inherited_mic_conformance_claims (pc_mic_claims parent) = Inr mic"
    and pi: "post_init (child_mission a parent ttl budget scope cwd spend risk) = Inr m"
    and ip: "issue_passport m (Some ttl) \<lparr>ex_mic_claims = mic, ex_parent_token_hash = Some (token_sha256 tok),
      ex_delegation_chain = parent_link parent tok # chain, ex_reserved_budget_share = Some budget\<rparr> None issued jti = Inr c"
  have jti: "pc_jti parent \<noteq> []"
    using d(1) by (auto simp: delegation_chain_entries_def require_nonempty_str_def split: if_splits)
  show thesis
  proof (rule post_initE [OF pi])
    fix cwd' spend'
    assume n: "normalize_cwd (mp_cwd (child_mission a parent ttl budget scope cwd spend risk)) = Inr cwd'"
      and m: "m = child_mission a parent ttl budget scope cwd spend risk\<lparr>mp_cwd := cwd', mp_spend_budget := spend'\<rparr>"
      and sp: "case mp_spend_budget (child_mission a parent ttl budget scope cwd spend risk) of None \<Rightarrow> spend' = None
        | Some b \<Rightarrow> \<exists>p. normalize_spend_budget b None False = Inr p \<and> spend' = Some (spend_policy_json p)"
    have m': "m = child_mission a parent ttl budget scope cwd' spend' risk"
      by (simp add: m child_mission_def default_mission_def)
    have "mp_cwd (child_mission a parent ttl budget scope cwd spend risk) = cwd"
      "mp_spend_budget (child_mission a parent ttl budget scope cwd spend risk) = spend"
      by (simp_all add: child_mission_def)
    note n = n [unfolded this] and sp = sp [unfolded this]
    note c = issue_passport_fields [OF ip]
    have "pc_cwd c = cwd'" by (simp add: c m' child_mission_def)
    then show thesis
      using n sp jti c by (intro that [OF d, of spend']) (simp_all add: m', simp_all add: child_mission_def default_mission_def)
  qed
qed

section \<open>Each part narrows\<close>

lemma set_sorted_set [simp]: "set (sorted_set xs) = set xs"
  by (simp add: sorted_set_def)

lemma child_ttl_Inr: "child_ttl a max_ttl = Inr t \<Longrightarrow> 0 < t \<and> t \<le> max_ttl"
  by (auto simp: child_ttl_def Let_def split: option.splits)

lemma child_budget_Inr:
  assumes "child_budget a n = Inr b"
  shows "0 < b" and "b \<le> n - da_parent_reserved_for_descendants a" and "b \<le> n"
    and "da_parent_calls_remaining a = Some r \<Longrightarrow> b \<le> r" and "da_child_max_tool_calls a = Some k \<Longrightarrow> b \<le> k"
  using assms by (auto simp: child_budget_def Let_def min_def split: option.splits if_splits)

lemma child_scope_Inr:
  "child_scope a ps = Inr s \<Longrightarrow> s = [] \<or> ps = [UNRESTRICTED_RESOURCE_SCOPE_PATTERN] \<or> set s \<subseteq> set ps"
  using set_sorted_set by (fastforce simp: child_scope_def Let_def resource_scope_is_explicitly_unrestricted_def
      simp del: set_sorted_set split: option.splits if_splits)

text \<open>A path below another one has its parts as a prefix.\<close>

definition path_parts :: "string \<Rightarrow> string list" where
  "path_parts p = filter (\<lambda>seg. seg \<noteq> []) (split_on (CHR ''/'') p)"

lemma split_on_append: "split_on c (xs @ c # ys) = split_on c xs @ split_on c ys"
proof (induction xs)
  case (Cons x xs)
  have "split_on c xs \<noteq> []" by (cases xs) (auto split: list.split)
  then show ?case using Cons by (auto split: list.splits)
qed simp

lemma cwd_is_subpath_parts: "cwd_is_subpath child parent \<Longrightarrow> \<exists>rest. path_parts child = path_parts parent @ rest"
proof -
  assume sub: "cwd_is_subpath child parent"
  consider "child = parent" | "parent = ''/''" | rest where "child = parent @ CHR ''/'' # rest"
    using sub by (auto simp: cwd_is_subpath_def startswith_def prefix_def split: if_splits)
  then show ?thesis
    by cases (simp_all add: path_parts_def split_on_append)
qed

lemma normpath_absolute: "startswith s ''/'' \<Longrightarrow> startswith (normpath s) ''/''"
  by (auto simp: normpath_def initial_slashes_def startswith_def Let_def prefix_def numeral_2_eq_2)

lemma strip_absolute: "startswith s ''/'' \<Longrightarrow> startswith (strip s) ''/''"
proof -
  assume "startswith s ''/''"
  then obtain t where s: "s = CHR ''/'' # t" by (auto simp: startswith_def prefix_def)
  have not_space: "\<not> is_py_space (CHR ''/'')" by code_simp
  have "dropWhile is_py_space (rev t @ [CHR ''/'']) = dropWhile is_py_space (rev t) @ [CHR ''/'']"
    using not_space by (induction "rev t" rule: rev_induct) (simp_all add: dropWhile_append3 dropWhile_append not_space)
  then show ?thesis using not_space by (simp add: s strip_def startswith_def)
qed

lemma normalize_cwd_absolute: "normalize_cwd v = Inr (Some d) \<Longrightarrow> startswith d ''/''"
  by (auto simp: normalize_cwd_def Let_def normpath_absolute split: option.splits if_splits)

lemma normalize_cwd_keeps_one:
  assumes "normalize_cwd v = Inr (Some w)" and "normalize_cwd (Some w) = Inr d"
  shows "d \<noteq> None"
proof -
  have "startswith (strip w) ''/''" by (intro strip_absolute normalize_cwd_absolute [OF assms(1)])
  then show ?thesis using assms(2) by (auto simp: normalize_cwd_def Let_def startswith_def split: if_splits)
qed

text \<open>The working directory of a child: the parent has none either, or the child's is the normal form
  of a path below the parent's.\<close>

definition cwd_below :: "string option \<Rightarrow> string option \<Rightarrow> bool" where
  "cwd_below child parent \<longleftrightarrow>
    (case child of
       None \<Rightarrow> normalize_cwd parent = Inr None
     | Some d \<Rightarrow> \<exists>p w rest. normalize_cwd parent = Inr (Some p) \<and> path_parts w = path_parts p @ rest \<and>
         normalize_cwd (Some w) = Inr (Some d))"

lemma child_cwd_below:
  assumes "child_cwd a parent = Inr w" and "normalize_cwd w = Inr d"
  shows "cwd_below d parent"
proof (cases w)
  case None
  then have "d = None" "normalize_cwd parent = Inr None"
    using assms by (auto simp: normalize_cwd_def child_cwd_def split: option.splits if_splits)
  then show ?thesis by (simp add: cwd_below_def)
next
  case (Some x)
  obtain p v where p: "normalize_cwd parent = Inr (Some p)" "normalize_cwd v = Inr (Some x)"
    "x = p \<or> cwd_is_subpath x p"
    using assms(1) Some by (auto simp: child_cwd_def split: option.splits if_splits)
  obtain d' where d: "d = Some d'" using normalize_cwd_keeps_one [OF p(2)] assms(2) Some by auto
  have "\<exists>rest. path_parts x = path_parts p @ rest" using p(3) cwd_is_subpath_parts by auto
  then show ?thesis using p(1) assms(2) Some d by (auto simp: cwd_below_def)
qed

section \<open>Inherited budgets\<close>

lemma spend_policy_lineage:
  "(case spend_policy_json p of JObj d \<Rightarrow> jget d ''lineage_id'' | _ \<Rightarrow> JNull) = lineage_json (spp_lineage_id p)"
  by (cases "spp_lineage_id p") (simp_all add: spend_policy_json_def lineage_json_def jget_def dget_def)

lemma child_spend_inherited:
  assumes "child_spend parent = Inr spend"
    and "case spend of None \<Rightarrow> spend' = None
      | Some b \<Rightarrow> \<exists>p. normalize_spend_budget b None False = Inr p \<and> spend' = Some (spend_policy_json p)"
    and "issue_spend m jti = Inr child" and "mp_spend_budget m = spend'" and "mp_parent_jti m \<noteq> None"
  shows "case parent of None \<Rightarrow> child = None
    | Some b \<Rightarrow> \<exists>p. normalize_spend_budget b None True = Inr p \<and> child = Some (spend_policy_json p)"
proof (cases parent)
  case None
  then show ?thesis using assms by (simp add: child_spend_def issue_spend_def)
next
  case (Some b)
  then obtain p where p: "normalize_spend_budget b None True = Inr p" "spend = Some (spend_policy_json p)"
    using assms(1) by (auto simp: child_spend_def)
  obtain i where i: "spp_lineage_id p = Some i" using normalize_spend_required [OF p(1)] by blast
  have "spend' = Some (spend_policy_json p)"
    using assms(2) p(2) normalize_spend_lineage(1) [OF p(1), of False] by auto
  then have "child = Some (spend_policy_json p)"
    using assms(3-5) normalize_spend_lineage(2) [OF p(1) _ i, of True] i
    by (auto simp: issue_spend_def Let_def spend_policy_lineage lineage_json_def)
  then show ?thesis using Some p(1) by simp
qed

lemma risk_policy_lineage: "(case risk_policy_json p of JObj d \<Rightarrow> jget d ''lineage_id'' | _ \<Rightarrow> JNull) = JStr (rp_lineage_id p)"
  by (simp add: risk_policy_json_def jget_def dget_def)

lemma projection_validates:
  assumes "normalize_risk_budget policy None = Inr p" and "policy_ok (projection p allowed)" and "wf_dict facts"
    and "validate_action_risk (risk_policy_json (projection p allowed)) contract facts = Inr num"
  shows "validate_action_risk policy contract facts = Inr num"
  using assms normalize_json [OF assms(2)]
  by (auto simp: validate_action_risk_Inr [OF assms(3)] projection_tools split: if_splits)

lemma child_risk_inherited:
  assumes risk: "child_risk a (Some b) tools = Inr (Some c)" and wf: "wf_json b" "\<And>r. da_child_risk_budget a = Some r \<Longrightarrow> wf_json r"
    and issue: "issue_risk m jti = Inr child" "mp_risk_budget m = Some (risk_policy_json c)"
  shows "child = Some (risk_policy_json c)" and "wf_dict facts \<Longrightarrow>
    validate_action_risk (risk_policy_json c) contract facts = Inr num \<Longrightarrow> validate_action_risk b contract facts = Inr num"
proof -
  define r where "r = (case da_child_risk_budget a of None \<Rightarrow> JNull | Some r \<Rightarrow> r)"
  obtain p pp where p: "normalize_risk_budget b None = Inr p" and pp: "project_risk_budget b tools = Inr (Some pp)"
    and att: "attenuate_risk_budget (risk_policy_json pp) r = Inr c"
    using risk by (auto simp: child_risk_def project_risk_budget_def r_def split: if_splits option.splits)
  have proj: "pp = projection p tools" "rp_tools (projection p tools) \<noteq> []"
    using pp project_eq [OF p wf(1), of tools] by (auto split: if_splits)
  have ok: "policy_ok pp" unfolding proj(1) by (rule projection_ok [OF normalize_wf [OF p wf(1)] proj(2)])
  have "wf_json r" using wf(2) by (simp add: r_def split: option.split)
  then obtain q where q: "normalize_risk_budget (risk_policy_json pp) None = Inr q" "policy_ok c" "policy_le c q"
    by (rule attenuate_le [OF att wf_risk_policy_json [OF ok]])
  show "child = Some (risk_policy_json c)"
    using issue normalize_json [OF q(2)] by (auto simp: issue_risk_def Let_def risk_policy_lineage split: if_splits)
  assume f: "wf_dict facts" "validate_action_risk (risk_policy_json c) contract facts = Inr num"
  show "validate_action_risk b contract facts = Inr num"
    using validate_action_mono [OF q(3,2,1) f] projection_validates [OF p _ f(1)] ok by (simp add: proj(1))
qed

lemma child_risk_dropped:
  assumes "child_risk a parent tools = Inr None" and "parent = Some b" and "wf_json b"
  shows "\<exists>p. normalize_risk_budget b None = Inr p \<and> set (keys (rp_tools p)) \<inter> set tools = {}"
proof -
  obtain p where p: "normalize_risk_budget b None = Inr p" and none: "project_risk_budget b tools = Inr None"
    using assms(1,2) by (auto simp: child_risk_def project_risk_budget_def split: if_splits option.splits)
  then have "rp_tools (projection p tools) = []" using project_eq [OF p assms(3), of tools] by (auto split: if_splits)
  then show ?thesis using p by (auto simp: projection_def Let_def filter_empty_conv)
qed

section \<open>Chains of ancestors\<close>

lemma require_str_Inr:
  "require_nonempty_str s f = Inr t \<longleftrightarrow> t = s \<and> s \<noteq> []"
  "require_optional_str v f = Inr w \<longleftrightarrow> w = v \<and> v \<noteq> Some []"
  by (auto simp: require_nonempty_str_def require_optional_str_def split: option.splits)

lemma normalize_link_again:
  assumes "normalize_link link = Inr n"
  shows "cl_jti n = cl_jti link" and "normalize_link n = Inr n"
  using assms by (auto simp: normalize_link_def require_str_Inr rbind_Inr_iff split: option.splits)

lemma chain_walk_again:
  assumes "chain_walk e seen raw = Inr chain" and "x \<notin> cl_jti ` set chain" and "set seen' \<subseteq> insert x (set seen)"
  shows "chain_walk e seen' chain = Inr chain"
  using assms
proof (induction e seen raw arbitrary: chain seen' rule: chain_walk.induct)
  case (2 e seen link rest)
  from "2.prems"(1) obtain n links where n: "normalize_link link = Inr n" and jti: "cl_jti link \<noteq> []" "Some (cl_jti link) = e"
    "cl_jti link \<notin> set seen" and walk: "chain_walk (cl_parent_jti n) (cl_jti link # seen) rest = Inr links"
    and chain: "chain = n # links"
    by (auto simp: require_nonempty_str_def split: if_splits)
  note link = normalize_link_again [OF n]
  have "cl_jti link \<noteq> x" "x \<notin> cl_jti ` set links" using "2.prems"(2) chain link(1) by auto
  moreover have "chain_walk (cl_parent_jti n) (cl_jti link # seen') links = Inr links"
    using "2.prems"(3) jti n walk calculation by (intro "2.IH" [of "cl_jti link" n]) (auto simp: require_nonempty_str_def)
  moreover have "cl_jti link \<notin> set seen'" using "2.prems"(3) jti(3) calculation(1) by auto
  ultimately show ?case using jti link by (auto simp: chain require_nonempty_str_def)
qed (auto split: if_splits)

lemma chain_walk_length: "chain_walk e seen raw = Inr chain \<Longrightarrow> length chain = length raw"
  by (induction e seen raw arbitrary: chain rule: chain_walk.induct) (auto split: if_splits)

lemma chain_walk_jtis: "chain_walk e seen raw = Inr chain \<Longrightarrow> map cl_jti chain = map cl_jti raw"
  by (induction e seen raw arbitrary: chain rule: chain_walk.induct)
    (auto simp: require_str_Inr split: if_splits, erule normalize_link_again(1))

lemma chain_entries_facts:
  assumes "delegation_chain_entries parent = Inr chain"
  shows "pc_jti parent \<noteq> []" and "pc_parent_jti parent \<noteq> Some []" and "length chain = length (pc_delegation_chain parent)"
    and "chain_walk (pc_parent_jti parent) [pc_jti parent] (pc_delegation_chain parent) = Inr chain"
  using assms by (auto simp: delegation_chain_entries_def require_nonempty_str_def chain_walk_length
      split: option.splits if_splits)

lemma parent_link_normal:
  assumes "pc_parent_jti parent \<noteq> Some []"
  shows "normalize_link (parent_link parent tok) = Inr (parent_link parent tok)"
  using assms by (auto simp: parent_link_def normalize_link_def require_optional_str_def require_nonempty_str_def
      token_sha256_def split: option.splits)

text \<open>The chain of a child passes the check of chains.\<close>

lemma child_chain_entries:
  assumes parent: "delegation_chain_entries parent = Inr chain" and len: "length chain < MAX_DELEGATION_DEPTH"
    and c: "pc_delegation_chain c = parent_link parent tok # chain" "pc_parent_jti c = Some (pc_jti parent)" "pc_jti c = jti"
    and jti: "jti \<noteq> []" "jti \<noteq> pc_jti parent" "jti \<notin> cl_jti ` set chain"
  shows "delegation_chain_entries c = Inr (parent_link parent tok # chain)"
proof -
  note p = chain_entries_facts [OF parent]
  have walk: "chain_walk (pc_parent_jti parent) [pc_jti parent, jti] chain = Inr chain"
    by (rule chain_walk_again [OF p(4) jti(3)]) auto
  have "cl_jti (parent_link parent tok) = pc_jti parent" "cl_parent_jti (parent_link parent tok) = pc_parent_jti parent"
    by (simp_all add: parent_link_def)
  then show ?thesis
    using p(1) len jti walk parent_link_normal [OF p(2), of tok]
    by (simp add: delegation_chain_entries_def c require_nonempty_str_def)
qed

lemma inherited_mic_again:
  assumes "inherited_mic_conformance_claims claims = Inr mic"
  shows "inherited_mic_conformance_claims mic = Inr mic"
proof (cases "mic = []")
  case True
  then show ?thesis by (simp add: inherited_mic_conformance_claims_def has_key_def)
next
  case False
  then have mic: "mic = map (\<lambda>c. (c, jget claims c)) DELEGATED_MIC_CLAIMS"
    using assms by (auto simp: inherited_mic_conformance_claims_def split: if_splits jv.splits option.splits)
  have get: "has_key mic k \<and> jget mic k = jget claims k" if "k \<in> set DELEGATED_MIC_CLAIMS" for k
    using that by (auto simp: mic DELEGATED_MIC_CLAIMS_def has_key_def jget_def dget_def)
  then have same: "map (\<lambda>c. (c, jget mic c)) DELEGATED_MIC_CLAIMS = mic" by (simp add: mic cong: map_cong)
  from get have "list_all (has_key mic) DELEGATED_MIC_CLAIMS"
    "jget mic ''conformance_profile'' = jget claims ''conformance_profile''" "has_key mic ''conformance_profile''"
    "jget mic ''receipt_policy'' = jget claims ''receipt_policy''"
    "jget mic ''tool_manifest_digest'' = jget claims ''tool_manifest_digest''"
    by (auto simp: list_all_iff DELEGATED_MIC_CLAIMS_def)
  then show ?thesis
    using assms False by (auto simp: inherited_mic_conformance_claims_def same split: if_splits jv.splits option.splits)
qed

text \<open>One derivation, and a sequence of them.\<close>

lemma derive_step:
  assumes "derive_child_passport a tok p now issued jti = Inr c"
  shows "pc_max_delegation_depth c = pc_max_delegation_depth p - 1" and "0 < pc_max_delegation_depth p"
    and "length (pc_delegation_chain c) = length (pc_delegation_chain p) + 1" and "length (pc_delegation_chain c) \<le> 16"
    and "set (pc_allowed_tools c) \<subseteq> set (pc_allowed_tools p)" and "set (pc_forbidden_tools p) \<subseteq> set (pc_forbidden_tools c)"
    and "pc_max_tool_calls c \<le> pc_max_tool_calls p" and "pc_exp c \<le> pc_exp p + (issued - now)"
  by (rule derive_child_fields [OF assms];
      auto simp: MAX_DELEGATION_DEPTH_def dest: chain_entries_facts(3) child_budget_Inr(3) child_ttl_Inr)+

lemma derive_steps:
  assumes "foldM (\<lambda>p (a, token, now, issued, jti). derive_child_passport a token p now issued jti) first steps = Inr c"
  shows "pc_max_delegation_depth c = pc_max_delegation_depth first - int (length steps) \<and>
    (steps \<noteq> [] \<longrightarrow> int (length steps) \<le> pc_max_delegation_depth first \<and> length (pc_delegation_chain c) \<le> 16) \<and>
    length (pc_delegation_chain c) = length (pc_delegation_chain first) + length steps \<and>
    set (pc_allowed_tools c) \<subseteq> set (pc_allowed_tools first) \<and> set (pc_forbidden_tools first) \<subseteq> set (pc_forbidden_tools c) \<and>
    pc_max_tool_calls c \<le> pc_max_tool_calls first \<and>
    pc_exp c \<le> pc_exp first + sum_list (map (\<lambda>(a, token, now, issued, jti). issued - now) steps)"
  using assms
proof (induction steps arbitrary: first)
  case (Cons st steps)
  obtain a tok now issued jti where st: "st = (a, tok, now, issued, jti)" by (cases st)
  obtain p where p: "derive_child_passport a tok first now issued jti = Inr p"
    "foldM (\<lambda>p (a, token, now, issued, jti). derive_child_passport a token p now issued jti) p steps = Inr c"
    using Cons.prems by (auto simp: st)
  show ?case
  proof (cases "steps = []")
    case True
    then show ?thesis using derive_step [OF p(1)] p(2) by (simp add: st)
  next
    case False
    then show ?thesis using derive_step [OF p(1)] Cons.IH [OF p(2)] by (auto simp: st)
  qed
qed simp

section \<open>A concrete delegation\<close>

text \<open>A root passport that may only have effects of class \<open>none\<close>, and a delegation of one of its tools.\<close>

definition passport_demo :: passport_claims where
  "passport_demo =
    \<lparr>pc_sub = ''lead'', pc_iat = 0, pc_exp = 1000, pc_jti = ''root'', pc_mission_id = ''m'', pc_mission = ''tidy'',
     pc_allowed_tools = [''read_file'', ''delete_file''], pc_forbidden_tools = [], pc_resource_scope = [''**''],
     pc_max_tool_calls = 10, pc_max_duration_s = 1000, pc_delegation_allowed = True, pc_max_delegation_depth = 2,
     pc_parent_jti = None, pc_cwd = None, pc_allowed_side_effect_classes = [''none''],
     pc_max_tool_calls_per_class = [(''state_change'', 0)], pc_additional_policies = [], pc_spend_budget = None,
     pc_risk_budget = None, pc_cnf = None, pc_mic_claims = [], pc_parent_token_hash = None,
     pc_delegation_chain = [], pc_reserved_budget_share = None\<rparr>"

definition passport_demo_args :: derive_args where
  "passport_demo_args =
    \<lparr>da_child_agent_id = ''worker'', da_child_allowed_tools = [''delete_file''], da_child_mission = ''clean'',
     da_child_ttl_s = None, da_child_max_tool_calls = Some 4, da_parent_calls_remaining = None,
     da_parent_reserved_for_descendants = 3, da_child_resource_scope = None, da_child_cwd = None,
     da_child_risk_budget = None\<rparr>"

definition passport_demo_child :: passport_claims where
  "passport_demo_child =
    \<lparr>pc_sub = ''worker'', pc_iat = 100, pc_exp = 400, pc_jti = ''child'',
     pc_mission_id = derive_mission_id ''worker'' ''clean'', pc_mission = ''clean'',
     pc_allowed_tools = [''delete_file''], pc_forbidden_tools = [''read_file''], pc_resource_scope = [''**''],
     pc_max_tool_calls = 4, pc_max_duration_s = 300, pc_delegation_allowed = True, pc_max_delegation_depth = 1,
     pc_parent_jti = Some ''root'', pc_cwd = None, pc_allowed_side_effect_classes = [],
     pc_max_tool_calls_per_class = [], pc_additional_policies = [], pc_spend_budget = None,
     pc_risk_budget = None, pc_cnf = None, pc_mic_claims = [], pc_parent_token_hash = Some (token_sha256 ''token''),
     pc_delegation_chain = [parent_link passport_demo ''token''], pc_reserved_budget_share = Some 4\<rparr>"

lemma passport_demo_chain: "delegation_chain_entries passport_demo = Inr []"
  by (simp add: delegation_chain_entries_def require_nonempty_str_def passport_demo_def)

lemma passport_demo_derive: "derive_child_passport passport_demo_args ''token'' passport_demo 100 100 ''child'' = Inr passport_demo_child"
proof -
  have "sorted_set [''delete_file''] = [''delete_file'']" "sorted_set [''read_file''] = [''read_file'']"
    by (simp_all add: sorted_set_def)
  moreover have "child_ttl passport_demo_args 900 = Inr 300" "child_budget passport_demo_args 10 = Inr 4"
    "child_scope passport_demo_args [''**''] = Inr [''**'']" "child_cwd passport_demo_args None = Inr None"
    "child_risk passport_demo_args None [''delete_file''] = Inr None"
    by (simp_all add: passport_demo_args_def child_ttl_def child_budget_def child_scope_def child_cwd_def child_risk_def
        normalize_cwd_def Let_def)
  ultimately show ?thesis
    by (simp add: derive_child_passport_def passport_demo_chain)
      (simp add: passport_demo_def passport_demo_args_def child_spend_def post_init_def normalize_cwd_def Let_def
        inherited_mic_conformance_claims_def has_key_def MAX_DELEGATION_DEPTH_def issue_passport_def check_jti_override_def issue_spend_def
        issue_risk_def default_mission_def resource_scope_is_explicitly_unrestricted_def
        UNRESTRICTED_RESOURCE_SCOPE_PATTERN_def passport_demo_child_def)
qed

text \<open>The same delegation for a parent with a risk policy.\<close>

definition passport_risk_demo :: passport_claims where
  "passport_risk_demo = passport_demo\<lparr>pc_allowed_tools := [''rm''],
    pc_risk_budget := Some (rb_demo_claim 5 ''irreversible'' 10)\<rparr>"

definition passport_risk_args :: derive_args where
  "passport_risk_args = passport_demo_args\<lparr>da_child_allowed_tools := [''rm'']\<rparr>"

lemma passport_risk_derive: "\<exists>c. derive_child_passport passport_risk_args ''token'' passport_risk_demo 100 100 ''child'' = Inr c"
proof -
  let ?p = "rb_demo_policy 5 ''irreversible'' 10"
  have n: "normalize_risk_budget (risk_policy_json ?p) None = Inr ?p"
    by (rule normalize_json [OF normalize_wf [OF rb_demo_normalize rb_demo_wf]])
  have "projection ?p [''rm''] = ?p" by code_simp
  then have "project_risk_budget (rb_demo_claim 5 ''irreversible'' 10) [''rm''] = Inr (Some ?p)"
    by (simp add: project_eq [OF rb_demo_normalize rb_demo_wf]) (simp add: rb_demo_policy_def)
  moreover have "attenuate_risk_budget (risk_policy_json ?p) JNull = Inr ?p" by (simp add: attenuate_risk_budget_def n)
  moreover have "set (keys (rp_tools ?p)) \<subseteq> set [''rm'']" by (simp add: rb_demo_policy_def)
  ultimately have r: "child_risk passport_risk_args (Some (rb_demo_claim 5 ''irreversible'' 10)) [''rm''] = Inr (Some ?p)"
    and i: "mp_risk_budget m = Some (risk_policy_json ?p) \<Longrightarrow> mp_allowed_tools m = [''rm''] \<Longrightarrow>
      issue_risk m jti = Inr (Some (risk_policy_json ?p))" for m jti
    using n by (simp_all add: child_risk_def passport_risk_args_def passport_demo_args_def issue_risk_def Let_def
        risk_policy_lineage) (simp add: rb_demo_claim_def)
  have "child_ttl passport_risk_args 900 = Inr 300" "child_budget passport_risk_args 10 = Inr 4"
    "child_scope passport_risk_args [''**''] = Inr [''**'']" "child_cwd passport_risk_args None = Inr None"
    by (simp_all add: passport_risk_args_def passport_demo_args_def child_ttl_def child_budget_def child_scope_def child_cwd_def
        normalize_cwd_def Let_def)
  moreover have "delegation_chain_entries passport_risk_demo = Inr []"
    by (simp add: passport_risk_demo_def passport_demo_def delegation_chain_entries_def require_nonempty_str_def)
  ultimately show ?thesis
    using r by (simp add: derive_child_passport_def)
      (simp add: passport_risk_demo_def passport_demo_def passport_risk_args_def passport_demo_args_def child_spend_def
        post_init_def normalize_cwd_def Let_def inherited_mic_conformance_claims_def has_key_def MAX_DELEGATION_DEPTH_def
        issue_passport_def check_jti_override_def issue_spend_def i default_mission_def sorted_set_def resource_scope_is_explicitly_unrestricted_def
        UNRESTRICTED_RESOURCE_SCOPE_PATTERN_def)
qed

section \<open>The guarantees\<close>

text \<open>C12: A derived passport is narrower than its parent: it has only tools of the parent and forbids every
  tool the parent forbids or it gave up; its resource scope is empty, within the parent's, or the parent's
  is unrestricted; its call budget is positive and within the parent's ceiling less all reservations for
  descendants; it may delegate one level less; and its working directory is below the parent's. Its expiry is
  later than the parent's at most by the time between the two readings of the clock, and by exactly that
  time when it asks for the parent's remaining lifetime or more.\<close>

theorem passport_child_narrows:
  assumes "derive_child_passport a token parent now issued jti = Inr c"
  shows "set (pc_allowed_tools c) \<subseteq> set (pc_allowed_tools parent) \<and>
    set (pc_forbidden_tools parent) \<union> (set (pc_allowed_tools parent) - set (pc_allowed_tools c)) = set (pc_forbidden_tools c) \<and>
    (pc_resource_scope c = [] \<or> pc_resource_scope parent = [''**''] \<or> set (pc_resource_scope c) \<subseteq> set (pc_resource_scope parent)) \<and>
    0 < pc_max_tool_calls c \<and> pc_max_tool_calls c \<le> pc_max_tool_calls parent - da_parent_reserved_for_descendants a \<and>
    pc_exp c \<le> pc_exp parent + (issued - now) \<and>
    (\<forall>t. da_child_ttl_s a = Some t \<longrightarrow> pc_exp parent - now \<le> t \<longrightarrow> pc_exp c = pc_exp parent + (issued - now)) \<and>
    pc_max_delegation_depth c = pc_max_delegation_depth parent - 1 \<and>
    0 \<le> pc_max_delegation_depth c \<and> cwd_below (pc_cwd c) (pc_cwd parent)"
proof (rule derive_child_fields [OF assms], intro conjI)
  fix chain ttl budget scope cwd
  assume d: "0 < pc_max_delegation_depth parent" "set (da_child_allowed_tools a) \<subseteq> set (pc_allowed_tools parent)"
    "child_ttl a (pc_exp parent - now) = Inr ttl" "child_budget a (pc_max_tool_calls parent) = Inr budget"
    "child_scope a (pc_resource_scope parent) = Inr scope" "child_cwd a (pc_cwd parent) = Inr cwd"
    and c: "pc_allowed_tools c = sorted_set (da_child_allowed_tools a)"
    "pc_forbidden_tools c = sorted_set (pc_forbidden_tools parent @
         [t \<leftarrow> pc_allowed_tools parent. t \<notin> set (da_child_allowed_tools a)])"
    "pc_resource_scope c = scope" "pc_max_tool_calls c = budget" "pc_exp c = issued + ttl"
    "pc_max_delegation_depth c = pc_max_delegation_depth parent - 1" "normalize_cwd cwd = Inr (pc_cwd c)"
  show "set (pc_allowed_tools c) \<subseteq> set (pc_allowed_tools parent)" using d(2) by (simp add: c)
  show "set (pc_forbidden_tools parent) \<union> (set (pc_allowed_tools parent) - set (pc_allowed_tools c)) = set (pc_forbidden_tools c)"
    by (auto simp: c)
  show "pc_resource_scope c = [] \<or> pc_resource_scope parent = [''**''] \<or> set (pc_resource_scope c) \<subseteq> set (pc_resource_scope parent)"
    using child_scope_Inr [OF d(5)] by (simp add: c UNRESTRICTED_RESOURCE_SCOPE_PATTERN_def)
  show "0 < pc_max_tool_calls c" "pc_max_tool_calls c \<le> pc_max_tool_calls parent - da_parent_reserved_for_descendants a"
    using child_budget_Inr(1,2) [OF d(4)] by (simp_all add: c)
  show "pc_exp c \<le> pc_exp parent + (issued - now)" using child_ttl_Inr [OF d(3)] by (simp add: c)
  show "\<forall>t. da_child_ttl_s a = Some t \<longrightarrow> pc_exp parent - now \<le> t \<longrightarrow> pc_exp c = pc_exp parent + (issued - now)"
    using d(3) by (auto simp: c child_ttl_def Let_def)
  show "pc_max_delegation_depth c = pc_max_delegation_depth parent - 1" "0 \<le> pc_max_delegation_depth c"
    using d(1) by (simp_all add: c)
  show "cwd_below (pc_cwd c) (pc_cwd parent)" by (rule child_cwd_below [OF d(6) c(7)])
qed

theorem passport_child_narrows_witness:
  "derive_child_passport passport_demo_args ''token'' passport_demo 100 100 ''child'' = Inr passport_demo_child \<and>
    pc_max_tool_calls passport_demo_child \<le> 10 - 3 \<and> pc_exp passport_demo_child \<le> 1000"
  using passport_child_narrows [OF passport_demo_derive] passport_demo_derive
  by (simp add: passport_demo_def passport_demo_args_def)

text \<open>C22: The budgets of a parent bind its children: the spend policy is inherited unchanged, and every call
  the risk policy of the child admits is admitted by the policy of the parent with the same charges; a
  child without a risk policy keeps no tool the parent's policy governs.\<close>

theorem passport_child_keeps_budgets:
  assumes "derive_child_passport a token parent now issued jti = Inr c"
    and "\<And>b. pc_risk_budget parent = Some b \<Longrightarrow> wf_json b" and "\<And>b. da_child_risk_budget a = Some b \<Longrightarrow> wf_json b"
  shows "(case pc_spend_budget parent of None \<Rightarrow> pc_spend_budget c = None
      | Some b \<Rightarrow> \<exists>p. normalize_spend_budget b None True = Inr p \<and> pc_spend_budget c = Some (spend_policy_json p)) \<and>
    (case pc_risk_budget c of
       None \<Rightarrow> \<forall>b. pc_risk_budget parent = Some b \<longrightarrow>
         (\<exists>p. normalize_risk_budget b None = Inr p \<and> set (keys (rp_tools p)) \<inter> set (pc_allowed_tools c) = {})
     | Some r \<Rightarrow> \<exists>b. pc_risk_budget parent = Some b \<and>
         (\<forall>contract facts num. wf_dict facts \<longrightarrow> validate_action_risk r contract facts = Inr num \<longrightarrow>
            validate_action_risk b contract facts = Inr num))"
proof (rule derive_child_fields [OF assms(1)], rule conjI)
  fix ttl budget scope risk spend spend'
  let ?m = "child_mission a parent ttl budget scope (pc_cwd c) spend' risk"
  assume sp: "child_spend (pc_spend_budget parent) = Inr spend"
    "case spend of None \<Rightarrow> spend' = None
      | Some b \<Rightarrow> \<exists>p. normalize_spend_budget b None False = Inr p \<and> spend' = Some (spend_policy_json p)"
    "issue_spend ?m jti = Inr (pc_spend_budget c)"
  show "case pc_spend_budget parent of None \<Rightarrow> pc_spend_budget c = None
      | Some b \<Rightarrow> \<exists>p. normalize_spend_budget b None True = Inr p \<and> pc_spend_budget c = Some (spend_policy_json p)"
    by (rule child_spend_inherited [OF sp]) (simp_all add: child_mission_def)
  assume rk: "child_risk a (pc_risk_budget parent) (da_child_allowed_tools a) = Inr risk"
    "issue_risk ?m jti = Inr (pc_risk_budget c)" and tools: "pc_allowed_tools c = sorted_set (da_child_allowed_tools a)"
  show "case pc_risk_budget c of
       None \<Rightarrow> \<forall>b. pc_risk_budget parent = Some b \<longrightarrow>
         (\<exists>p. normalize_risk_budget b None = Inr p \<and> set (keys (rp_tools p)) \<inter> set (pc_allowed_tools c) = {})
     | Some r \<Rightarrow> \<exists>b. pc_risk_budget parent = Some b \<and>
         (\<forall>contract facts num. wf_dict facts \<longrightarrow> validate_action_risk r contract facts = Inr num \<longrightarrow>
            validate_action_risk b contract facts = Inr num)"
  proof (cases risk)
    case None
    then have "pc_risk_budget c = None" using rk(2) by (simp add: issue_risk_def child_mission_def)
    then show ?thesis using child_risk_dropped [OF rk(1) [unfolded None]] assms(2) by (auto simp: tools)
  next
    case (Some r)
    then obtain b where b: "pc_risk_budget parent = Some b"
      using rk(1) by (cases "pc_risk_budget parent") (auto simp: child_risk_def split: if_splits)
    have m: "mp_risk_budget ?m = Some (risk_policy_json r)" by (simp add: child_mission_def Some)
    note inh = child_risk_inherited [OF rk(1) [unfolded b Some] assms(2) [OF b] assms(3) rk(2) m]
    show ?thesis using inh by (simp add: b)
  qed
qed

theorem passport_child_keeps_budgets_witness:
  "\<exists>c. derive_child_passport passport_risk_args ''token'' passport_risk_demo 100 100 ''child'' = Inr c \<and>
    pc_spend_budget c = None"
proof -
  obtain c where c: "derive_child_passport passport_risk_args ''token'' passport_risk_demo 100 100 ''child'' = Inr c"
    using passport_risk_derive by blast
  have "wf_json b" if "pc_risk_budget passport_risk_demo = Some b" for b
    using that rb_demo_wf by (auto simp: passport_risk_demo_def)
  moreover have "wf_json b" if "da_child_risk_budget passport_risk_args = Some b" for b
    using that by (simp add: passport_risk_args_def passport_demo_args_def)
  ultimately show ?thesis
    using passport_child_keeps_budgets [OF c] c by (auto simp: passport_risk_demo_def passport_demo_def)
qed

text \<open>C21: A derived passport verifies against its parent: when its identifier is new to the lineage, the check
  of its chain, of the parent's token hash and of the conformance claims accepts it.\<close>

theorem passport_child_verifies:
  assumes "derive_child_passport a token parent now issued jti = Inr c"
    and "jti \<noteq> []" and "jti \<noteq> pc_jti parent" and "\<forall>link \<in> set (pc_delegation_chain parent). jti \<noteq> cl_jti link"
  shows "verify_passport c (Some (token, parent)) trusted = Inr c"
proof (rule derive_child_fields [OF assms(1)])
  fix chain mic
  assume chain: "delegation_chain_entries parent = Inr chain" "length chain < MAX_DELEGATION_DEPTH"
    and mic: "inherited_mic_conformance_claims (pc_mic_claims parent) = Inr mic"
    and c: "pc_delegation_chain c = parent_link parent token # chain" "pc_parent_token_hash c = Some (token_sha256 token)"
      "pc_parent_jti c = Some (pc_jti parent)" "pc_jti c = jti" "pc_mic_claims c = mic"
  have "jti \<notin> cl_jti ` set chain"
    using assms(4) arg_cong [OF chain_walk_jtis [OF chain_entries_facts(4) [OF chain(1)]], of set] by auto
  note entries = child_chain_entries [OF chain c(1,3,4) assms(2,3) this]
  show ?thesis
    using entries inherited_mic_again [OF mic] mic
    by (simp add: verify_passport_def verify_against_parent_def expected_chain_for_parent_def c chain(1) token_sha256_def)
qed

theorem passport_child_verifies_witness: "verify_passport passport_demo_child (Some (''token'', passport_demo)) None = Inr passport_demo_child"
  by (rule passport_child_verifies [OF passport_demo_derive]) (simp_all add: passport_demo_def)

text \<open>Delegation is bounded: along any sequence of derivations from a passport, each step uses one level of
  its delegation depth, the last passport has a chain of at most sixteen ancestors, and it has only tools
  of the first, no larger budget and an expiry that is later at most by the time the derivations took.\<close>

theorem passport_delegation_bounded:
  assumes "foldM (\<lambda>p (a, token, now, issued, jti). derive_child_passport a token p now issued jti) first steps = Inr c"
    and "steps \<noteq> []"
  shows "int (length steps) \<le> pc_max_delegation_depth first \<and>
    length (pc_delegation_chain c) = length (pc_delegation_chain first) + length steps \<and>
    length (pc_delegation_chain c) \<le> 16 \<and> set (pc_allowed_tools c) \<subseteq> set (pc_allowed_tools first) \<and>
    set (pc_forbidden_tools first) \<subseteq> set (pc_forbidden_tools c) \<and>
    pc_max_tool_calls c \<le> pc_max_tool_calls first \<and>
    pc_exp c \<le> pc_exp first + sum_list (map (\<lambda>(a, token, now, issued, jti). issued - now) steps)"
  using derive_steps [OF assms(1)] assms(2) by simp

theorem passport_delegation_bounded_witness:
  "foldM (\<lambda>p (a, token, now, issued, jti). derive_child_passport a token p now issued jti) passport_demo
      [(passport_demo_args, ''token'', 100, 100, ''child'')] = Inr passport_demo_child \<and>
    length (pc_delegation_chain passport_demo_child) \<le> 16"
  using passport_delegation_bounded [of passport_demo "[(passport_demo_args, ''token'', 100, 100, ''child'')]" passport_demo_child]
    passport_demo_derive by simp

end
