(* ===== verification/Python_Text.thy ===== *)
theory Python_Text
  imports Canonical_JSON
begin

text \<open>
  The text that Python makes of values: substring tests, \<open>repr\<close> and \<open>str\<close>, and \<open>json.dumps\<close> with
  sorted keys. Dictionaries are association lists in insertion order. A string is a list
  of code points below 256.
\<close>

section \<open>Substrings\<close>

fun contains_str :: "string \<Rightarrow> string \<Rightarrow> bool" where
  "contains_str p [] \<longleftrightarrow> p = []"
| "contains_str p (c # cs) \<longleftrightarrow> startswith (c # cs) p \<or> contains_str p cs"

definition any_token :: "string list \<Rightarrow> string \<Rightarrow> bool" where
  "any_token tokens s \<longleftrightarrow> list_ex (\<lambda>t. contains_str t s) tokens"

section \<open>Values as text\<close>

text \<open>\<open>repr\<close> of a string, whose non-ASCII characters print as they are, and \<open>repr\<close> and \<open>str\<close> of a value.\<close>

definition repr_char :: "char \<Rightarrow> char \<Rightarrow> string" where
  "repr_char quote c =
    (if c = quote \<or> c = CHR 0x5C then [CHR 0x5C, c]
     else if c = CHR 0x0A then [CHR 0x5C, CHR ''n'']
     else if c = CHR 0x0D then [CHR 0x5C, CHR ''r'']
     else if c = CHR 0x09 then [CHR 0x5C, CHR ''t'']
     else if code_point c < 32 \<or> code_point c = 127
     then [CHR 0x5C, CHR ''x'', hex_digit (code_point c div 16), hex_digit (code_point c mod 16)]
     else [c])"

definition repr_str :: "string \<Rightarrow> string" where
  "repr_str s =
    (let quote = (if CHR 0x27 \<in> set s \<and> CHR 0x22 \<notin> set s then CHR 0x22 else CHR 0x27)
     in quote # concat (map (repr_char quote) s) @ [quote])"

fun py_repr :: "jv \<Rightarrow> string" where
  "py_repr JNull = ''None''"
| "py_repr (JBool b) = (if b then ''True'' else ''False'')"
| "py_repr (JInt n) = str_int n"
| "py_repr (JFloat f t) = (if f < 0 then CHR ''-'' # t else t)"
| "py_repr (JStr s) = repr_str s"
| "py_repr (JArr vs) = ''['' @ join_with '', '' (map py_repr vs) @ '']''"
| "py_repr (JObj d) = ''{'' @ join_with '', '' (map (\<lambda>kv. repr_str (fst kv) @ '': '' @ py_repr (snd kv)) d) @ ''}''"

definition py_str :: "jv \<Rightarrow> string" where
  "py_str v = (case v of JStr s \<Rightarrow> s | _ \<Rightarrow> py_repr v)"

text \<open>A name between single quotes, as a message prints it.\<close>

definition quoted :: "string \<Rightarrow> string" where
  "quoted s = CHR 0x27 # s @ [CHR 0x27]"

section \<open>JSON text\<close>

definition json_char :: "char \<Rightarrow> string" where
  "json_char c =
    (if c \<noteq> CHR 0x22 \<and> c \<noteq> CHR 0x5C \<and> 32 \<le> code_point c \<and> code_point c < 127 then [c]
     else if code_point c < 32 \<or> c = CHR 0x22 \<or> c = CHR 0x5C then escape_char c
     else [CHR 0x5C, CHR ''u'', CHR ''0'', CHR ''0'', hex_digit (code_point c div 16), hex_digit (code_point c mod 16)])"

definition json_str :: "string \<Rightarrow> string" where
  "json_str s = CHR 0x22 # concat (map json_char s) @ [CHR 0x22]"

text \<open>\<open>json.dumps(v, sort_keys=True, separators=(item, key))\<close>.\<close>

fun json_dumps :: "string \<Rightarrow> string \<Rightarrow> jv \<Rightarrow> string" where
  "json_dumps item key JNull = ''null''"
| "json_dumps item key (JBool b) = (if b then ''true'' else ''false'')"
| "json_dumps item key (JInt n) = str_int n"
| "json_dumps item key (JFloat f t) = (if f < 0 then CHR ''-'' # t else t)"
| "json_dumps item key (JStr s) = json_str s"
| "json_dumps item key (JArr vs) = ''['' @ join_with item (map (json_dumps item key) vs) @ '']''"
| "json_dumps item key (JObj d) =
    ''{'' @ join_with item (map (\<lambda>kv. json_str (fst kv) @ key @ json_dumps item key (snd kv)) (sort_key fst d)) @ ''}''"

end
