(* ===== verification/Policy_Backends.thy ===== *)
theory Policy_Backends
  imports Passport Python_Text
begin

text \<open>
  The policy engines a tool call is put to: their decisions and composition and the registry
  (\<open>policy_backend.py\<close>), the classification of a call (\<open>proxy.py\<close>), the built-in checks
  (\<open>native_checks.py\<close>) and the engine around them (\<open>backends/native.py\<close>). Other engines are
  arguments of the model. So is the check of resource paths of \<open>proxy.py\<close>, which reads the file
  system; its argument is the reason of a denial, or \<^term>\<open>None\<close>. Measured evaluation times are left out.
\<close>

section \<open>Decisions\<close>

datatype decision_type = Allow | Deny | Abstain

record policy_decision =
  pd_backend :: string
  pd_label :: string
  pd_decision :: decision_type
  pd_reasons :: "string list"

definition compose_decisions :: "policy_decision list \<Rightarrow> decision_type \<times> policy_decision option" where
  "compose_decisions decisions =
    (case find (\<lambda>pd. pd_decision pd = Deny) decisions of
       Some pd \<Rightarrow> (Deny, Some pd)
     | None \<Rightarrow>
         (case find (\<lambda>pd. pd_decision pd = Allow) decisions of
            Some _ \<Rightarrow> (Allow, None)
          | None \<Rightarrow> (Deny, None)))"

section \<open>Classification of a call\<close>

definition is_memory_store_tool :: "string \<Rightarrow> bool" where
  "is_memory_store_tool name \<longleftrightarrow> name \<in> set [''memory_store_write'', ''memory_store_read'']"

definition TARGET_KEYS :: "string list" where
  "TARGET_KEYS = [''path'', ''file_path'', ''filename'', ''url'', ''uri'', ''target'', ''resource'', ''destination'',
     ''dest'', ''to'', ''store_id'', ''record_id'', ''query'', ''expression'']"

text \<open>A string argument with text in it.\<close>

definition text_of :: "jv \<Rightarrow> string option" where
  "text_of v = (case v of JStr s \<Rightarrow> if strip s = [] then None else Some (strip s) | _ \<Rightarrow> None)"

definition scalar_str :: "jv \<Rightarrow> string option" where
  "scalar_str v = (case v of JNull \<Rightarrow> None | JArr _ \<Rightarrow> None | JObj _ \<Rightarrow> None | _ \<Rightarrow> Some (py_str v))"

definition policy_event_target :: "string \<Rightarrow> jv dict \<Rightarrow> string" where
  "policy_event_target tool_name arguments =
    (case List.map_filter (\<lambda>k. text_of (jget arguments k)) TARGET_KEYS of
       t # _ \<Rightarrow> t
     | [] \<Rightarrow>
         (case arguments of
            [(_, v)] \<Rightarrow> (case scalar_str v of Some s \<Rightarrow> s | None \<Rightarrow> tool_name)
          | _ \<Rightarrow> tool_name))"

definition policy_action_class :: "string \<Rightarrow> string" where
  "policy_action_class tool_name =
    (let lowered = lower tool_name in
     if contains_str ''delegat'' lowered then ''delegate''
     else if any_token [''send'', ''email'', ''mail'', ''post'', ''notify'', ''message'', ''share''] lowered then ''send''
     else if any_token [''search'', ''find'', ''lookup'', ''grep''] lowered then ''search''
     else if any_token [''query'', ''sql'', ''select'', ''calc'', ''compute''] lowered then ''query''
     else if any_token [''write'', ''create'', ''append'', ''save'', ''upload''] lowered then ''write''
     else if any_token [''summar'', ''analy'', ''report''] lowered then ''summarize''
     else if any_token [''read'', ''get'', ''fetch'', ''view'', ''list'', ''download'', ''open''] lowered then ''read''
     else if any_token [''update'', ''edit'', ''modify'', ''delete'', ''remove''] lowered then ''write''
     else ''observe'')"

definition policy_resource_family :: "string \<Rightarrow> jv dict \<Rightarrow> string \<Rightarrow> string \<Rightarrow> string" where
  "policy_resource_family tool_name arguments target action_class =
    (let has = (\<lambda>ks. list_ex (has_key arguments) ks) in
     if is_memory_store_tool tool_name \<or> has [''store_id'', ''record_id''] then ''memory_store''
     else if has [''path'', ''file_path'', ''filename'', ''directory'', ''cwd''] then ''filesystem''
     else if has [''url'', ''uri''] then ''network_resource''
     else if has [''to'', ''recipient''] then ''external_comms''
     else if action_class = ''delegate'' then ''delegation''
     else if action_class \<in> set [''query'', ''summarize'', ''observe''] then ''computation''
     else if any_token [''memory'', ''store''] (lower tool_name) then ''memory_store''
     else if any_token [''/'', ''.txt'', ''.md'', ''.json'', ''.csv'', ''.pdf''] (lower target) then ''filesystem''
     else ''general'')"

definition policy_side_effect_class :: "string \<Rightarrow> string \<Rightarrow> string \<Rightarrow> string" where
  "policy_side_effect_class tool_name action_class resource_family =
    (if action_class \<in> set [''search'', ''read'', ''query'', ''summarize'', ''observe''] then ''none''
     else if action_class = ''send'' then ''external_send''
     else if is_memory_store_tool tool_name \<or>
        action_class = ''write'' \<and> resource_family \<in> set [''filesystem'', ''memory_store''] then ''internal_write''
     else if action_class \<in> set [''delegate'', ''write''] \<or>
        any_token [''delete'', ''remove'', ''update'', ''grant'', ''approve'', ''execute'', ''run'', ''lock'', ''unlock'',
          ''cancel'', ''transfer'', ''pay''] (lower tool_name) then ''state_change''
     else ''none'')"

section \<open>The built-in checks\<close>

record session_view =
  sv_tool_call_count :: int
  sv_tool_call_count_by_class :: "int dict"
  sv_side_effect_counts :: "int dict"
  sv_delegated_budget_reserved :: int
  sv_elapsed_s :: rat

text \<open>\<open>f"{x:.0f}"\<close>: rounding to the nearest integer, ties to even.\<close>

definition fmt_round :: "rat \<Rightarrow> string" where
  "fmt_round x =
    (let f = \<lfloor>x\<rfloor>; r = x - of_int f in
     str_int (if r < 1 / 2 \<or> r = 1 / 2 \<and> even f then f else f + 1))"

type_synonym scope_check = "jv dict \<Rightarrow> string list \<Rightarrow> string option \<Rightarrow> string option"

definition check_delegation_depth :: "passport_claims \<Rightarrow> string list" where
  "check_delegation_depth passport =
    (if length (pc_delegation_chain passport) > MAX_DELEGATION_DEPTH then [''delegation depth exceeded''] else [])"

definition check_forbidden_tools :: "passport_claims \<Rightarrow> string \<Rightarrow> string list" where
  "check_forbidden_tools passport tool_name =
    (if tool_name \<in> set (pc_forbidden_tools passport)
     then [''tool '' @ quoted tool_name @ '' is in forbidden_tools''] else [])"

definition check_tool_scope :: "passport_claims \<Rightarrow> string \<Rightarrow> string list" where
  "check_tool_scope passport tool_name =
    (if ''*'' \<in> set (pc_allowed_tools passport) then []
     else if tool_name \<notin> set (pc_allowed_tools passport)
     then [''tool '' @ quoted tool_name @ '' is not in allowed_tools''] else [])"

definition check_session_budget :: "passport_claims \<Rightarrow> session_view \<Rightarrow> string list" where
  "check_session_budget passport session =
    (let max_calls = pc_max_tool_calls passport;
         reserved = sv_delegated_budget_reserved session;
         effective_max_calls = max 0 (max_calls - reserved);
         used = sv_tool_call_count session
     in if used \<ge> effective_max_calls
        then [''budget exceeded: '' @ str_int used @ ''/'' @ str_int effective_max_calls @ '' tool calls used ('' @
              str_int reserved @ '' reserved for delegated children from ceiling '' @ str_int max_calls @ '')'']
        else if sv_elapsed_s session \<ge> of_int (pc_max_duration_s passport)
        then [''duration exceeded: '' @ fmt_round (sv_elapsed_s session) @ ''s / '' @
              str_int (pc_max_duration_s passport) @ ''s'']
        else [])"

definition check_resource_scope :: "scope_check \<Rightarrow> passport_claims \<Rightarrow> jv dict \<Rightarrow> string list" where
  "check_resource_scope scope passport arguments =
    (case scope arguments (pc_resource_scope passport) (pc_cwd passport) of
       None \<Rightarrow> []
     | Some reason \<Rightarrow> [reason])"

text \<open>The metadata of the caller, when all three parts are non-empty, or the classification of the call.\<close>

definition policy_metadata ::
  "string \<Rightarrow> jv dict \<Rightarrow> string \<Rightarrow> (string \<times> string \<times> string) option \<Rightarrow> string \<times> string \<times> string" where
  "policy_metadata tool_name arguments target given =
    (let classified =
       (let action_class = policy_action_class tool_name;
            family = policy_resource_family tool_name arguments target action_class
        in (action_class, family, policy_side_effect_class tool_name action_class family))
     in case given of
          None \<Rightarrow> classified
        | Some (a, f, c) \<Rightarrow> if a \<noteq> [] \<and> f \<noteq> [] \<and> c \<noteq> [] then (a, f, c) else classified)"

text \<open>The confinement to the working directory is part of the check of resource paths.\<close>

definition check_cwd_confinement :: "passport_claims \<Rightarrow> jv dict \<Rightarrow> string list" where
  "check_cwd_confinement passport arguments = []"

definition check_side_effect_class :: "passport_claims \<Rightarrow> string \<Rightarrow> string \<Rightarrow> string list" where
  "check_side_effect_class passport tool_name side_effect_class =
    (let allowed = pc_allowed_side_effect_classes passport in
     if allowed \<noteq> [] \<and> side_effect_class \<notin> set allowed
     then [''side_effect_class '' @ quoted side_effect_class @ '' not in allowed '' @ py_repr (JArr (map JStr allowed)) @
           '' for tool '' @ quoted tool_name]
     else [])"

definition class_count :: "session_view \<Rightarrow> string \<Rightarrow> int" where
  "class_count session side_effect_class =
    dget (if sv_tool_call_count_by_class session \<noteq> [] then sv_tool_call_count_by_class session
          else sv_side_effect_counts session) side_effect_class 0"

definition check_per_class_budget :: "passport_claims \<Rightarrow> string \<Rightarrow> session_view \<Rightarrow> string \<Rightarrow> string list" where
  "check_per_class_budget passport tool_name session side_effect_class =
    (case map_of (pc_max_tool_calls_per_class passport) side_effect_class of
       None \<Rightarrow> []
     | Some cap \<Rightarrow>
         let current = class_count session side_effect_class in
         if current \<ge> cap
         then [''per-class budget exhausted for '' @ quoted side_effect_class @ '': '' @ str_int current @ ''/'' @ str_int cap @
               '' (tool '' @ quoted tool_name @ '')'']
         else [])"

fun first_reasons :: "string list list \<Rightarrow> string list" where
  "first_reasons [] = []"
| "first_reasons (r # rs) = (if r \<noteq> [] then r else first_reasons rs)"

definition evaluate_native_denials ::
  "scope_check \<Rightarrow> passport_claims \<Rightarrow> string \<Rightarrow> jv dict \<Rightarrow> string \<Rightarrow> session_view \<Rightarrow>
    (string \<times> string \<times> string) option \<Rightarrow> string list" where
  "evaluate_native_denials scope passport tool_name arguments target session given =
    (let (_, _, side_effect_class) = policy_metadata tool_name arguments target given in
     first_reasons
       [check_delegation_depth passport, check_forbidden_tools passport tool_name, check_tool_scope passport tool_name,
        check_session_budget passport session, check_resource_scope scope passport arguments,
        check_cwd_confinement passport arguments,
        check_side_effect_class passport tool_name side_effect_class,
        check_per_class_budget passport tool_name session side_effect_class])"

section \<open>Engines and the registry\<close>

record tool_request =
  tr_tool_name :: string
  tr_arguments :: "jv dict"
  tr_principal :: string
  tr_target :: string
  tr_passport :: passport_claims
  tr_session :: session_view
  tr_policy_metadata :: "(string \<times> string \<times> string) option"
  tr_action_class :: string
  tr_side_effect_class :: string

text \<open>An engine may raise: \<^const>\<open>Inl\<close> with a message.\<close>

type_synonym policy_engine = "tool_request \<Rightarrow> jv dict \<Rightarrow> string + policy_decision"

definition native_engine :: "scope_check \<Rightarrow> policy_engine" where
  "native_engine scope rq policy_spec =
    (let reasons = evaluate_native_denials scope (tr_passport rq) (tr_tool_name rq) (tr_arguments rq) (tr_target rq)
       (tr_session rq) (tr_policy_metadata rq)
     in Inr (if reasons \<noteq> []
        then \<lparr>pd_backend = ''native'', pd_label = ''ardur_builtin'', pd_decision = Deny, pd_reasons = reasons\<rparr>
        else \<lparr>pd_backend = ''native'', pd_label = ''ardur_builtin'', pd_decision = Allow, pd_reasons = [''within scope'']\<rparr>))"

text \<open>The engines that a lookup restores, the last one if its library is present.\<close>

record builtin_engines =
  be_native :: policy_engine
  be_forbid_rules :: policy_engine
  be_cedar :: "policy_engine option"

type_synonym registry = "policy_engine dict"

definition register_backend :: "string \<Rightarrow> policy_engine \<Rightarrow> registry \<Rightarrow> registry" where
  "register_backend name engine reg = AList.update name engine reg"

definition bootstrap_builtin_backend :: "builtin_engines \<Rightarrow> string \<Rightarrow> registry \<Rightarrow> registry" where
  "bootstrap_builtin_backend b name reg =
    (if name = ''native'' then register_backend ''native'' (be_native b) reg
     else if name = ''forbid_rules'' then register_backend ''forbid_rules'' (be_forbid_rules b) reg
     else if name = ''cedar'' then
       (case be_cedar b of None \<Rightarrow> reg | Some engine \<Rightarrow> register_backend ''cedar'' engine reg)
     else reg)"

definition get_backend :: "builtin_engines \<Rightarrow> string \<Rightarrow> registry \<Rightarrow> policy_engine option \<times> registry" where
  "get_backend b name reg =
    (let reg' = (if has_key reg name then reg else bootstrap_builtin_backend b name reg)
     in (map_of reg' name, reg'))"

end
