(* ===== verification/Approvals.thy ===== *)
theory Approvals
  imports Ledger_Spec
begin

text \<open>
  The approval-rate tracker of \<open>approvals.py\<close>: per operator, a queue of the times of the approvals
  in a sliding window. Times are rational numbers where the code has floats: a time is always finite, and the
  cutoff of the window is an exact difference. \<open>proxy.py\<close> checks before a call and records after it, in
  separate critical sections, so the steps of several calls interleave; the bound is stated over
  all such interleavings.
\<close>

section \<open>The tracker\<close>

datatype approval_error = ApprovalValueError string

record approval_tracker =
  at_max_approvals :: int
  at_window_s :: rat
  at_by_operator :: "rat list dict"

definition new_tracker :: "int \<Rightarrow> rat \<Rightarrow> approval_error + approval_tracker" where
  "new_tracker max_approvals window_s =
    (if max_approvals < 1 then Inl (ApprovalValueError ''max_approvals_per_hour_per_operator must be >= 1'')
     else if window_s \<le> 0 then Inl (ApprovalValueError ''window_s must be positive'')
     else Inr \<lparr>at_max_approvals = max_approvals, at_window_s = window_s, at_by_operator = []\<rparr>)"

definition normalize_operator_id :: "string \<Rightarrow> approval_error + string" where
  "normalize_operator_id operator_id =
    (if strip operator_id = [] then Inl (ApprovalValueError ''operator_id must be non-empty'')
     else Inr (strip operator_id))"

definition prune_locked :: "string \<Rightarrow> rat \<Rightarrow> approval_tracker \<Rightarrow> rat list \<times> approval_tracker" where
  "prune_locked operator_id timestamp t =
    (let cutoff = timestamp - at_window_s t;
         timestamps = dropWhile (\<lambda>x. x \<le> cutoff) (dget (at_by_operator t) operator_id [])
     in (timestamps, t\<lparr>at_by_operator := AList.update operator_id timestamps (at_by_operator t)\<rparr>))"

definition record_approval ::
  "string \<Rightarrow> rat \<Rightarrow> approval_tracker \<Rightarrow> (approval_error + unit) \<times> approval_tracker" where
  "record_approval operator_id timestamp t =
    (case normalize_operator_id operator_id of
       Inl e \<Rightarrow> (Inl e, t)
     | Inr op \<Rightarrow>
         let (timestamps, t') = prune_locked op timestamp t
         in (Inr (), t'\<lparr>at_by_operator := AList.update op (timestamps @ [timestamp]) (at_by_operator t')\<rparr>))"

definition check_approval ::
  "string \<Rightarrow> rat \<Rightarrow> approval_tracker \<Rightarrow> (approval_error + bool) \<times> approval_tracker" where
  "check_approval operator_id timestamp t =
    (case normalize_operator_id operator_id of
       Inl e \<Rightarrow> (Inl e, t)
     | Inr op \<Rightarrow>
         let (timestamps, t') = prune_locked op timestamp t
         in (Inr (int (length timestamps) < at_max_approvals t'), t'))"

section \<open>Calls in flight\<close>

text \<open>
  \<open>_evaluate_ordinary_tool_policy\<close> of \<open>proxy.py\<close> reads the clock once, checks with that time, decides the
  call, and records the same time when the call is permitted. The tracker is shared by all sessions, and only
  the check and the record are atomic. A state of the gate has, besides the tracker, the calls whose check has passed and that
  are not finished, the approvals recorded so far, and the time of the latest check. In any order: a check at a time not before the
  latest one, the record of a call in flight, or the end of a call in flight that is not permitted. At most
  \<open>k\<close> calls of one operator are in flight at once.
\<close>

record gate =
  gt_tracker :: approval_tracker
  gt_in_flight :: "(string \<times> rat) list"
  gt_approvals :: "(string \<times> rat) list"
  gt_clock :: rat

definition of_operator :: "string \<Rightarrow> (string \<times> rat) list \<Rightarrow> rat list" where
  "of_operator who es = map snd (filter (\<lambda>e. fst e = who) es)"

inductive gate_reachable :: "approval_tracker \<Rightarrow> nat \<Rightarrow> gate \<Rightarrow> bool" for t :: approval_tracker and k :: nat where
  started: "gate_reachable t k \<lparr>gt_tracker = t, gt_in_flight = [], gt_approvals = [], gt_clock = clock\<rparr>"
| checked: "gate_reachable t k g \<Longrightarrow> gt_clock g \<le> ts \<Longrightarrow> check_approval who ts (gt_tracker g) = (Inr ok, t') \<Longrightarrow>
    (ok \<Longrightarrow> length (of_operator (strip who) (gt_in_flight g)) < k) \<Longrightarrow>
    gate_reachable t k (g\<lparr>gt_tracker := t', gt_clock := ts,
      gt_in_flight := (if ok then (strip who, ts) # gt_in_flight g else gt_in_flight g)\<rparr>)"
| recorded: "gate_reachable t k g \<Longrightarrow> (strip who, ts) \<in> set (gt_in_flight g) \<Longrightarrow>
    record_approval who ts (gt_tracker g) = (Inr (), t') \<Longrightarrow>
    gate_reachable t k (g\<lparr>gt_tracker := t', gt_in_flight := remove1 (strip who, ts) (gt_in_flight g),
      gt_approvals := (strip who, ts) # gt_approvals g\<rparr>)"
| ended: "gate_reachable t k g \<Longrightarrow> gate_reachable t k (g\<lparr>gt_in_flight := remove1 e (gt_in_flight g)\<rparr>)"

definition in_window :: "rat \<Rightarrow> rat \<Rightarrow> rat list \<Rightarrow> rat list" where
  "in_window w now xs = [x \<leftarrow> xs. now - w < x \<and> x \<le> now]"

section \<open>The window bound\<close>

text \<open>The queue of an operator after pruning, and what the two operations do to the queues.\<close>

definition kept :: "string \<Rightarrow> rat \<Rightarrow> approval_tracker \<Rightarrow> rat list" where
  "kept who ts t = dropWhile (\<lambda>x. x \<le> ts - at_window_s t) (dget (at_by_operator t) who [])"

lemma check_approval_result:
  assumes "check_approval who ts t = (Inr ok, t')"
  shows "ok \<longleftrightarrow> int (length (kept (strip who) ts t)) < at_max_approvals t"
    and "dget (at_by_operator t') x [] = (if x = strip who then kept x ts t else dget (at_by_operator t) x [])"
    and "at_max_approvals t' = at_max_approvals t" "at_window_s t' = at_window_s t"
  using assms by (auto simp: check_approval_def prune_locked_def normalize_operator_id_def kept_def dget_def Let_def split: if_splits)

lemma record_approval_result:
  assumes "record_approval who ts t = (Inr (), t')"
  shows "dget (at_by_operator t') x [] = (if x = strip who then kept x ts t @ [ts] else dget (at_by_operator t) x [])"
    and "at_max_approvals t' = at_max_approvals t" "at_window_s t' = at_window_s t"
  using assms by (auto simp: record_approval_def prune_locked_def normalize_operator_id_def kept_def dget_def Let_def split: if_splits)

lemma filter_kept: "filter (\<lambda>x. c < x) (dropWhile (\<lambda>x. x \<le> b) xs) = filter (\<lambda>x. c < x) xs" if "b \<le> (c :: rat)" for b c xs
  using that by (induction xs) auto

lemma of_operator_simps [simp]:
  "of_operator who [] = []"
  "of_operator who (e # es) = (if fst e = who then snd e # of_operator who es else of_operator who es)"
  by (simp_all add: of_operator_def)

lemma of_operator_remove1: "of_operator who (remove1 e es) =
    (if e \<in> set es \<and> fst e = who then remove1 (snd e) (of_operator who es) else of_operator who es)"
  by (induction es) (auto simp: of_operator_def)

lemma mset_dropWhile_subset: "mset (dropWhile P xs) \<subseteq># mset xs"
  by (metis mset_append mset_subset_eq_add_right takeWhile_dropWhile_id)

text \<open>The recent approvals of an operator are in its queue, no time is ahead of the clock, and the calls in flight and
  the approvals in a window together are bounded.\<close>

definition gate_ok :: "int \<Rightarrow> rat \<Rightarrow> nat \<Rightarrow> string \<Rightarrow> gate \<Rightarrow> bool" where
  "gate_ok n w k who g \<longleftrightarrow>
    (let flying = of_operator who (gt_in_flight g); approved = of_operator who (gt_approvals g); now = gt_clock g in
     at_max_approvals (gt_tracker g) = n \<and> at_window_s (gt_tracker g) = w \<and>
     (\<forall>x \<in> set (flying @ approved). x \<le> now) \<and> length flying \<le> k \<and>
     mset (filter (\<lambda>x. now - w < x) approved) \<subseteq># mset (dget (at_by_operator (gt_tracker g)) who []) \<and>
     (\<forall>u. int (length (in_window w u (flying @ approved))) \<le> n + int k - 1))"

lemma gate_okD:
  assumes "gate_ok n w k who g"
  shows "at_max_approvals (gt_tracker g) = n" "at_window_s (gt_tracker g) = w"
    and "\<forall>x \<in> set (of_operator who (gt_in_flight g) @ of_operator who (gt_approvals g)). x \<le> gt_clock g"
    and "mset (filter (\<lambda>x. gt_clock g - w < x) (of_operator who (gt_approvals g))) \<subseteq>#
      mset (dget (at_by_operator (gt_tracker g)) who [])"
    and "int (length (in_window w u (of_operator who (gt_in_flight g) @ of_operator who (gt_approvals g)))) \<le> n + int k - 1"
  using assms by (auto simp: gate_ok_def Let_def)

lemma in_window_append: "in_window w u (xs @ ys) = in_window w u xs @ in_window w u ys"
  by (simp add: in_window_def)

lemma recent_kept:
  assumes "mset (filter (\<lambda>x. now - w < x) approved) \<subseteq># mset (queue :: rat list)" and "now \<le> ts" and "b \<le> ts - w"
  shows "mset (filter (\<lambda>x. ts - w < x) approved) \<subseteq># mset (dropWhile (\<lambda>x. x \<le> b) queue)"
proof -
  have "filter (\<lambda>x. ts - w < x) approved = filter (\<lambda>x. ts - w < x) (filter (\<lambda>x. now - w < x) approved)"
    unfolding filter_filter using assms(2) by (intro filter_cong) force+
  then have "mset (filter (\<lambda>x. ts - w < x) approved) \<subseteq># filter_mset (\<lambda>x. ts - w < x) (mset queue)"
    using multiset_filter_mono [OF assms(1)] by (simp only: mset_filter)
  also have "\<dots> = filter_mset (\<lambda>x. ts - w < x) (mset (dropWhile (\<lambda>x. x \<le> b) queue))"
    using filter_kept [OF assms(3)] by (metis mset_filter)
  also have "\<dots> \<subseteq># mset (dropWhile (\<lambda>x. x \<le> b) queue)" by simp
  finally show ?thesis .
qed

text \<open>A granted check finds fewer approvals than the maximum in the window that ends with it.\<close>

lemma granted_room:
  assumes ok: "gate_ok n w k who g" and later: "gt_clock g \<le> ts"
    and granted: "int (length (kept who ts (gt_tracker g))) < n" and free: "length (of_operator who (gt_in_flight g)) < k"
  shows "int (length (in_window w u (ts # of_operator who (gt_in_flight g) @ of_operator who (gt_approvals g)))) \<le> n + int k - 1"
proof (cases "u - w < ts \<and> ts \<le> u")
  case True
  let ?flying = "of_operator who (gt_in_flight g)" and ?approved = "of_operator who (gt_approvals g)"
  have w: "at_window_s (gt_tracker g) = w" using ok by (simp add: gate_ok_def Let_def)
  have "mset (filter (\<lambda>x. ts - w < x) ?approved) \<subseteq># mset (kept who ts (gt_tracker g))"
    unfolding kept_def w by (rule recent_kept [OF _ later]) (use ok in \<open>simp_all add: gate_ok_def Let_def\<close>)
  from size_mset_mono [OF this] have "length (filter (\<lambda>x. ts - w < x) ?approved) \<le> length (kept who ts (gt_tracker g))"
    unfolding size_mset .
  moreover have "length (in_window w u ?approved) \<le> length (filter (\<lambda>x. ts - w < x) ?approved)"
  proof -
    have "in_window w u ?approved = filter (\<lambda>x. u - w < x \<and> x \<le> u) (filter (\<lambda>x. ts - w < x) ?approved)"
      using True by (auto simp: in_window_def intro!: filter_cong)
    then show ?thesis by (simp only: length_filter_le)
  qed
  moreover have "length (in_window w u ?flying) \<le> length ?flying" by (simp add: in_window_def)
  moreover have "in_window w u (ts # ?flying @ ?approved) = ts # in_window w u ?flying @ in_window w u ?approved"
    using True by (simp add: in_window_def)
  ultimately show ?thesis using granted free by simp
next
  case False
  then have "in_window w u (ts # xs) = in_window w u xs" for xs by (simp add: in_window_def)
  then show ?thesis using ok by (simp add: gate_ok_def Let_def)
qed

lemma check_keeps_gate:
  assumes ok: "gate_ok n w k x g" and later: "gt_clock g \<le> ts" and res: "check_approval who ts (gt_tracker g) = (Inr b, t')"
    and free: "b \<Longrightarrow> length (of_operator (strip who) (gt_in_flight g)) < k"
  shows "gate_ok n w k x (g\<lparr>gt_tracker := t', gt_clock := ts,
    gt_in_flight := (if b then (strip who, ts) # gt_in_flight g else gt_in_flight g)\<rparr>)"
proof -
  let ?queue = "dget (at_by_operator (gt_tracker g)) x []"
  have params: "at_max_approvals (gt_tracker g) = n" "at_window_s (gt_tracker g) = w"
    using ok by (simp_all add: gate_ok_def Let_def)
  have sub: "mset (filter (\<lambda>y. gt_clock g - w < y) (of_operator x (gt_approvals g))) \<subseteq># mset ?queue"
    using ok by (simp add: gate_ok_def Let_def)
  have "mset (filter (\<lambda>y. ts - w < y) (of_operator x (gt_approvals g))) \<subseteq># mset (kept x ts (gt_tracker g))"
    unfolding kept_def params(2) by (rule recent_kept [OF sub later]) simp
  moreover have "mset (filter (\<lambda>y. ts - w < y) (of_operator x (gt_approvals g))) \<subseteq># mset ?queue"
    using calculation subset_mset.order_trans [OF _ mset_dropWhile_subset] unfolding kept_def by blast
  moreover have "\<forall>y \<in> set (of_operator x (gt_in_flight g) @ of_operator x (gt_approvals g)). y \<le> ts"
    using gate_okD(3) [OF ok] later by (meson order_trans)
  moreover have "int (length (in_window w u (ts # of_operator x (gt_in_flight g) @ of_operator x (gt_approvals g)))) \<le> n + int k - 1"
    if "b" "x = strip who" for u
    using granted_room [OF ok later] check_approval_result(1) [OF res] free that params by simp
  ultimately show ?thesis
    using ok free check_approval_result(2-4) [OF res] by (auto simp: gate_ok_def Let_def)
qed

lemma record_keeps_gate:
  assumes ok: "gate_ok n w k x g" and flying: "(strip who, ts) \<in> set (gt_in_flight g)"
    and res: "record_approval who ts (gt_tracker g) = (Inr (), t')"
  shows "gate_ok n w k x (g\<lparr>gt_tracker := t', gt_in_flight := remove1 (strip who, ts) (gt_in_flight g),
    gt_approvals := (strip who, ts) # gt_approvals g\<rparr>)"
proof (cases "x = strip who")
  case True
  let ?flying = "of_operator x (gt_in_flight g)" and ?approved = "of_operator x (gt_approvals g)"
  have mem: "ts \<in> set ?flying" using flying True by (force simp: of_operator_def)
  then have now: "ts \<le> gt_clock g" using ok by (auto simp: gate_ok_def Let_def)
  have w: "at_window_s (gt_tracker g) = w" using ok by (simp add: gate_ok_def Let_def)
  have sub: "mset (filter (\<lambda>y. gt_clock g - w < y) ?approved) \<subseteq># mset (kept x ts (gt_tracker g))"
    unfolding kept_def w by (rule recent_kept [OF _ order_refl]) (use ok now in \<open>simp_all add: gate_ok_def Let_def\<close>)
  have "mset (remove1 ts ?flying @ ts # ?approved) = mset (?flying @ ?approved)" using mem by simp
  then have "mset (in_window w u (remove1 ts ?flying @ ts # ?approved)) = mset (in_window w u (?flying @ ?approved))" for u
    unfolding in_window_def mset_filter by (rule arg_cong)
  then have "length (in_window w u (remove1 ts ?flying @ ts # ?approved)) = length (in_window w u (?flying @ ?approved))" for u
    by (metis size_mset)
  moreover have "\<forall>y \<in> set (remove1 ts ?flying @ ts # ?approved). y \<le> gt_clock g"
    using ok now set_remove1_subset [of ts ?flying] by (auto simp: gate_ok_def Let_def)
  ultimately show ?thesis
    using ok sub True flying record_approval_result [OF res]
    by (auto simp: gate_ok_def Let_def of_operator_remove1 length_remove1 intro: subset_mset.order_trans)
next
  case False
  then show ?thesis
    using ok record_approval_result [OF res] by (simp add: gate_ok_def Let_def of_operator_remove1)
qed

lemma end_keeps_gate:
  assumes "gate_ok n w k x g"
  shows "gate_ok n w k x (g\<lparr>gt_in_flight := remove1 e (gt_in_flight g)\<rparr>)"
proof -
  let ?flying = "of_operator x (gt_in_flight g)" and ?approved = "of_operator x (gt_approvals g)"
  have "length (in_window w u (remove1 y ?flying @ ?approved)) \<le> length (in_window w u (?flying @ ?approved))" for u y
    by (simp add: in_window_def filter_remove1 length_remove1)
  then have "int (length (in_window w u (remove1 y ?flying @ ?approved))) \<le> n + int k - 1" for u y
    using gate_okD(5) [OF assms, of u] by (meson of_nat_mono order_trans)
  then show ?thesis
    using assms set_remove1_subset [of "snd e" ?flying]
    by (auto simp: gate_ok_def Let_def of_operator_remove1 length_remove1)
qed

lemma gate_reachable_ok:
  assumes "gate_reachable t k g" and "new_tracker n w = Inr t"
  shows "gate_ok n w k who g"
  using assms(1)
proof (induction rule: gate_reachable.induct)
  case (started clock)
  then show ?case using assms(2) by (auto simp: gate_ok_def new_tracker_def dget_def in_window_def split: if_splits)
qed (simp_all add: check_keeps_gate record_keeps_gate end_keeps_gate)

text \<open>C29: The rate limit over interleaved calls: when the checks come in the order of their times and at most \<open>k\<close> calls
  of an operator are between their check and their end at once, the operator never has more than \<open>k - 1\<close>
  approvals above the maximum in any interval of the window's length. One call at a time keeps the maximum.\<close>

theorem approvals_window_bound:
  assumes "new_tracker n w = Inr t" and "gate_reachable t k g"
  shows "int (length (in_window w u (of_operator who (gt_approvals g)))) \<le> n + int k - 1"
proof -
  have "int (length (in_window w u (of_operator who (gt_in_flight g) @ of_operator who (gt_approvals g)))) \<le> n + int k - 1"
    using gate_reachable_ok [OF assms(2,1)] by (simp add: gate_ok_def Let_def)
  then show ?thesis by (simp add: in_window_append)
qed

text \<open>C38: The check reserves nothing. When one approval is left in the window, the checks of two calls that
  come before both of their records pass, and the operator then has one approval too many.\<close>

theorem approvals_check_then_record_race:
  assumes "strip operator_id \<noteq> []" and "0 < at_window_s t"
    and "int (length (kept (strip operator_id) ts t)) = at_max_approvals t - 1"
  shows "let (r, t1) = check_approval operator_id ts t; (r', t2) = check_approval operator_id ts t1;
      (_, t3) = record_approval operator_id ts t2; (_, t4) = record_approval operator_id ts t3
    in r = Inr True \<and> r' = Inr True \<and>
      int (length (dget (at_by_operator t4) (strip operator_id) [])) = at_max_approvals t + 1"
proof -
  let ?drop = "dropWhile (\<lambda>x. x \<le> ts - at_window_s t)"
  have "?drop (?drop xs @ [ts]) = ?drop xs @ [ts]" for xs
    using assms(2) by (induction xs) auto
  then show ?thesis
    using assms by (simp add: check_approval_def record_approval_def prune_locked_def normalize_operator_id_def Let_def
        kept_def dget_def dropWhile_idem)
qed

section \<open>Witnesses\<close>

definition approvals_demo :: approval_tracker where
  "approvals_demo = \<lparr>at_max_approvals = 1, at_window_s = 3600, at_by_operator = []\<rparr>"

text \<open>Two calls in flight at once, both approved.\<close>

definition gate_demo :: gate where
  "gate_demo = \<lparr>gt_tracker = approvals_demo\<lparr>at_by_operator := [(''ops'', [10, 20])]\<rparr>, gt_in_flight = [],
     gt_approvals = [(''ops'', 20), (''ops'', 10)], gt_clock = 20\<rparr>"

lemma gate_demo_reachable: "gate_reachable approvals_demo 2 gate_demo"
proof -
  let ?t = "approvals_demo\<lparr>at_by_operator := [(''ops'', [])]\<rparr>"
  note defs = approvals_demo_def check_approval_def record_approval_def prune_locked_def normalize_operator_id_def
    strip_def is_py_space_def code_point_def dget_def Let_def
  have c1: "check_approval ''ops'' 10 approvals_demo = (Inr True, ?t)" and c2: "check_approval '' ops'' 20 ?t = (Inr True, ?t)"
    and r1: "record_approval ''ops'' 10 ?t = (Inr (), ?t\<lparr>at_by_operator := [(''ops'', [10])]\<rparr>)"
    and r2: "record_approval '' ops'' 20 (?t\<lparr>at_by_operator := [(''ops'', [10])]\<rparr>) = (Inr (), gt_tracker gate_demo)"
    and s: "strip ''ops'' = ''ops''" "strip '' ops'' = ''ops''"
    by (simp_all add: defs gate_demo_def)
  have "gate_reachable approvals_demo 2 \<lparr>gt_tracker = approvals_demo, gt_in_flight = [], gt_approvals = [], gt_clock = 0\<rparr>"
    by (rule started)
  from checked [OF this, of 10 "''ops''" True ?t] c1 s
  have "gate_reachable approvals_demo 2 \<lparr>gt_tracker = ?t, gt_in_flight = [(''ops'', 10)], gt_approvals = [], gt_clock = 10\<rparr>" by simp
  from checked [OF this, of 20 "'' ops''" True ?t] c2 s
  have "gate_reachable approvals_demo 2 \<lparr>gt_tracker = ?t, gt_in_flight = [(''ops'', 20), (''ops'', 10)], gt_approvals = [], gt_clock = 20\<rparr>" by simp
  from recorded [OF this, of "''ops''" 10] r1 s
  have "gate_reachable approvals_demo 2 \<lparr>gt_tracker = ?t\<lparr>at_by_operator := [(''ops'', [10])]\<rparr>, gt_in_flight = [(''ops'', 20)],
      gt_approvals = [(''ops'', 10)], gt_clock = 20\<rparr>" by simp
  from recorded [OF this, of "'' ops''" 20] r2 s show ?thesis by (simp add: gate_demo_def)
qed

theorem approvals_window_bound_witness:
  "new_tracker 1 3600 = Inr approvals_demo \<and> gate_reachable approvals_demo 2 gate_demo \<and>
    length (in_window 3600 3000 (of_operator ''ops'' (gt_approvals gate_demo))) = 2 \<and>
    int (length (in_window 3600 3000 (of_operator ''ops'' (gt_approvals gate_demo)))) \<le> 1 + int 2 - 1"
proof -
  have new: "new_tracker 1 3600 = Inr approvals_demo" by (simp add: new_tracker_def approvals_demo_def)
  show ?thesis
    using approvals_window_bound [OF new gate_demo_reachable, of 3000 "''ops''"] new gate_demo_reachable
    by (simp add: gate_demo_def in_window_def)
qed

theorem approvals_check_then_record_race_witness:
  "(let (r, t1) = check_approval ''ops'' 10 approvals_demo; (r', t2) = check_approval ''ops'' 10 t1;
      (_, t3) = record_approval ''ops'' 10 t2; (_, t4) = record_approval ''ops'' 10 t3
    in r = Inr True \<and> r' = Inr True \<and> int (length (dget (at_by_operator t4) (strip ''ops'') [])) = 2)"
  using approvals_check_then_record_race [of "''ops''" approvals_demo 10]
  by (simp add: approvals_demo_def kept_def dget_def strip_def is_py_space_def code_point_def)

end
