(* ===== verification/Governance_Session.thy ===== *)
theory Governance_Session
  imports Policy_Backends Approvals Lineage_Budget
begin

text \<open>
  A governed session of \<open>proxy.py\<close>: the decision on a tool call and its record
  (\<open>GovernanceSession.check_and_record\<close>), the approval gate and the memory tools around it
  (\<open>_evaluate_ordinary_tool_policy\<close>), the import of usage counted elsewhere
  (\<open>synchronize_external_tool_usage_floor\<close>) and the delegation of a part of the budget to a child
  (\<open>delegate_passport\<close>). Each runs under the lock of the session and is one step here. Events carry
  no time stamps and no step identifiers. What the memory stores answer, the signature of a token and
  its verification are arguments.
\<close>

section \<open>State\<close>

datatype gov_decision = PERMIT | DENY | VIOLATION | INSUFFICIENT_EVIDENCE | UNKNOWN

datatype denial_reason =
    POLICY_DENIED | BUDGET_EXHAUSTED | TELEMETRY_MISSING | REVOKED | CHAIN_INVALID | MANIFEST_DRIFT
  | ENVELOPE_TAMPERED | MEMORY_INTEGRITY_FAILURE | PROBING_RATE_EXCEEDED | APPROVAL_FATIGUE_THRESHOLD
  | REVOCATION_UNAVAILABLE | MEMORY_COMPROMISE_BOUNDARY | APPROVAL_OPERATOR_UNAVAILABLE
  | RISK_ACTION_CAP_EXCEEDED | RISK_BUDGET_EXHAUSTED | RISK_CONTRACT_INVALID | RISK_FACT_INVALID
  | RISK_POLICY_INVALID | RISK_REQUEST_ID_INVALID | RISK_REPLAY | RISK_STATE_UNAVAILABLE | OBSERVATION_GAP

datatype gov_error =
    EngineError string
  | GovTypeError string
  | GovValueError string
  | GovPermissionError string
  | GovConflictError string
  | GovPassportError passport_error
  | GovLedgerError lb_error

record gov_event =
  ge_actor :: string
  ge_verifier_id :: string
  ge_tool_name :: string
  ge_arguments :: "jv dict"
  ge_action_class :: string
  ge_target :: string
  ge_resource_family :: string
  ge_side_effect_class :: string
  ge_decision :: gov_decision
  ge_reason :: string
  ge_passport_jti :: string
  ge_run_nonce :: string
  ge_denial_reason :: "denial_reason option"
  ge_policy_decisions :: "policy_decision list"
  ge_budget_delta :: "jv option"

text \<open>What a child was asked for, and the record of a child.\<close>

record delegation_request =
  dr_parent_jti :: string
  dr_child_agent_id :: string
  dr_child_mission :: string
  dr_child_allowed_tools :: "string list"
  dr_child_resource_scope :: "string list option"
  dr_child_ttl_s :: "int option"
  dr_child_max_tool_calls :: "int option"
  dr_child_risk_budget :: "jv option"

record child_record =
  cr_request_id :: string
  cr_request :: delegation_request
  cr_fingerprint :: string
  cr_child_token :: string
  cr_child_jti :: string
  cr_child_agent_id :: string
  cr_child_mission :: string
  cr_child_allowed_tools :: "string list"
  cr_child_resource_scope :: "string list"
  cr_child_risk_budget :: "jv option"
  cr_child_max_tool_calls :: int
  cr_reserved :: int
  cr_parent_calls_remaining :: int

record gov_session =
  gs_passport_claims :: passport_claims
  gs_events :: "gov_event list"
  gs_tool_call_count :: int
  gs_tool_call_count_by_class :: "int dict"
  gs_delegated_budget_reserved :: int
  gs_delegated_children :: "child_record list"
  gs_start_time :: rat
  gs_end_time :: "rat option"
  gs_summarized :: bool
  gs_memory_stores :: "string list"
  gs_memory_compromised_stores :: "string list"
  gs_run_nonce :: string

text \<open>A session, the registry of engines, the approval trackers by their parameters, and the ledger of
  reservations.\<close>

record gov_state =
  gv_session :: gov_session
  gv_registry :: registry
  gv_trackers :: "((int \<times> rat) \<times> approval_tracker) list"
  gv_ledger :: lb_state

definition elapsed_s :: "rat \<Rightarrow> gov_session \<Rightarrow> rat" where
  "elapsed_s now s = (case gs_end_time s of Some e \<Rightarrow> e | None \<Rightarrow> now) - gs_start_time s"

section \<open>Deciding a call\<close>

definition legacy_denial_reason :: "gov_decision \<Rightarrow> string \<Rightarrow> denial_reason option" where
  "legacy_denial_reason decision reason =
    (if decision = PERMIT then None
     else let normalized = lower (strip reason) in Some (
       if normalized = ''approval_fatigue_threshold'' then APPROVAL_FATIGUE_THRESHOLD
       else if normalized = ''approval_operator_unavailable'' then APPROVAL_OPERATOR_UNAVAILABLE
       else if normalized = ''approval_policy_invalid'' then TELEMETRY_MISSING
       else if normalized \<in> set [''passport_revoked'', ''revoked''] then REVOKED
       else if normalized \<in> set [''revocation_unavailable'', ''status_list_too_large''] then REVOCATION_UNAVAILABLE
       else if normalized = ''chain_invalid'' then CHAIN_INVALID
       else if normalized = ''memory_integrity_failure'' then MEMORY_INTEGRITY_FAILURE
       else if normalized = ''memory_compromise_boundary'' then MEMORY_COMPROMISE_BOUNDARY
       else if startswith normalized ''budget exceeded:'' \<or> startswith normalized ''duration exceeded:'' \<or>
         startswith normalized ''per-class budget exhausted'' then BUDGET_EXHAUSTED
       else if decision = INSUFFICIENT_EVIDENCE then TELEMETRY_MISSING
       else if decision = UNKNOWN then OBSERVATION_GAP
       else POLICY_DENIED))"

definition event_policy_decision :: "policy_decision \<Rightarrow> policy_decision" where
  "event_policy_decision pd =
    (if pd_backend pd = ''native'' then pd\<lparr>pd_backend := ''native_claims'', pd_label := ''ardur_builtin''\<rparr> else pd)"

definition consult_native :: "builtin_engines \<Rightarrow> tool_request \<Rightarrow> registry \<Rightarrow> (string + policy_decision) \<times> registry" where
  "consult_native b rq reg =
    (case get_backend b ''native'' reg of
       (None, reg') \<Rightarrow>
         (Inr \<lparr>pd_backend = ''native'', pd_label = ''ardur_builtin'', pd_decision = Deny,
               pd_reasons = [''native backend not registered'']\<rparr>, reg')
     | (Some engine, reg') \<Rightarrow> (engine rq [], reg'))"

definition spec_backend :: "jv dict \<Rightarrow> string" where
  "spec_backend spec = py_str (dget spec ''backend'' (JStr ''?''))"

definition spec_label :: "jv dict \<Rightarrow> string" where
  "spec_label spec = py_str (dget spec ''label'' (JStr []))"

definition consult_spec ::
  "builtin_engines \<Rightarrow> tool_request \<Rightarrow> jv \<Rightarrow> registry \<Rightarrow> (string + policy_decision) \<times> registry" where
  "consult_spec b rq entry reg =
    (case entry of
       JObj spec \<Rightarrow>
         (case get_backend b (spec_backend spec) reg of
            (None, reg') \<Rightarrow>
              (Inr \<lparr>pd_backend = spec_backend spec, pd_label = spec_label spec, pd_decision = Deny,
                    pd_reasons = [''unknown policy backend: '' @ spec_backend spec]\<rparr>, reg')
          | (Some engine, reg') \<Rightarrow>
              (map_sum id (\<lambda>pd. if spec_label spec \<noteq> [] \<and> pd_label pd = [] then pd\<lparr>pd_label := spec_label spec\<rparr> else pd)
                 (engine rq spec), reg'))
     | _ \<Rightarrow> (Inl ''policy entry has no attribute get'', reg))"

fun consult_specs ::
  "builtin_engines \<Rightarrow> tool_request \<Rightarrow> jv list \<Rightarrow> registry \<Rightarrow> (string + policy_decision list) \<times> registry" where
  "consult_specs b rq [] reg = (Inr [], reg)"
| "consult_specs b rq (entry # entries) reg =
    (case consult_spec b rq entry reg of
       (Inl e, reg') \<Rightarrow> (Inl e, reg')
     | (Inr pd, reg') \<Rightarrow>
         (case consult_specs b rq entries reg' of
            (Inl e, reg'') \<Rightarrow> (Inl e, reg'')
          | (Inr pds, reg'') \<Rightarrow> (Inr (pd # pds), reg'')))"

text \<open>The decision, the reason and the denial reason of the composed decisions.\<close>

definition verdict :: "policy_decision list \<Rightarrow> gov_decision \<times> string \<times> denial_reason option" where
  "verdict decisions =
    (case compose_decisions decisions of
       (final_decision, first_denier) \<Rightarrow>
         if final_decision = Allow then (PERMIT, ''within scope'', None)
         else (case first_denier of
           None \<Rightarrow> (DENY, ''composition fail-closed: all backends abstained'', Some POLICY_DENIED)
         | Some pd \<Rightarrow>
             if pd_backend pd = ''native''
             then let reason = (if pd_reasons pd \<noteq> [] then join_with ''; '' (pd_reasons pd) else ''native policy denied'')
                  in (DENY, reason, legacy_denial_reason DENY reason)
             else if pd_reasons pd \<noteq> [] \<and> startswith (hd (pd_reasons pd)) ''unknown policy backend:''
             then (DENY, hd (pd_reasons pd), Some POLICY_DENIED)
             else (DENY, (if pd_label pd \<noteq> [] then pd_label pd else pd_backend pd) @ '' ('' @ pd_backend pd @ ''): '' @
                 (if pd_reasons pd \<noteq> [] then join_with '', '' (pd_reasons pd) else ''denied''), Some POLICY_DENIED)))"

record tool_call =
  tc_tool_name :: string
  tc_arguments :: "jv dict"
  tc_verifier_id :: string
  tc_now :: rat

definition call_event ::
  "tool_call \<Rightarrow> gov_session \<Rightarrow> gov_decision \<Rightarrow> string \<Rightarrow> denial_reason option \<Rightarrow> policy_decision list \<Rightarrow> gov_event" where
  "call_event c s decision reason denial decisions =
    (let tool_name = tc_tool_name c; arguments = tc_arguments c;
         target = policy_event_target tool_name arguments;
         action_class = policy_action_class tool_name;
         family = policy_resource_family tool_name arguments target action_class
     in \<lparr>ge_actor = pc_sub (gs_passport_claims s), ge_verifier_id = tc_verifier_id c, ge_tool_name = tool_name,
         ge_arguments = arguments, ge_action_class = action_class, ge_target = target, ge_resource_family = family,
         ge_side_effect_class = policy_side_effect_class tool_name action_class family, ge_decision = decision,
         ge_reason = reason, ge_passport_jti = pc_jti (gs_passport_claims s), ge_run_nonce = gs_run_nonce s,
         ge_denial_reason = denial, ge_policy_decisions = decisions,
         ge_budget_delta = None\<rparr>)"

text \<open>The side-effect class of a call.\<close>

definition call_class :: "tool_call \<Rightarrow> string" where
  "call_class c =
    (let action_class = policy_action_class (tc_tool_name c)
     in policy_side_effect_class (tc_tool_name c) action_class
          (policy_resource_family (tc_tool_name c) (tc_arguments c)
             (policy_event_target (tc_tool_name c) (tc_arguments c)) action_class))"

definition view_of_session :: "rat \<Rightarrow> gov_session \<Rightarrow> session_view" where
  "view_of_session now s =
    \<lparr>sv_tool_call_count = gs_tool_call_count s, sv_tool_call_count_by_class = gs_tool_call_count_by_class s,
     sv_side_effect_counts = gs_tool_call_count_by_class s,
     sv_delegated_budget_reserved = gs_delegated_budget_reserved s, sv_elapsed_s = elapsed_s now s\<rparr>"

definition request_of :: "tool_call \<Rightarrow> passport_claims \<Rightarrow> gov_session \<Rightarrow> tool_request" where
  "request_of c policy s =
    \<lparr>tr_tool_name = tc_tool_name c, tr_arguments = tc_arguments c, tr_principal = pc_sub (gs_passport_claims s),
     tr_target = policy_event_target (tc_tool_name c) (tc_arguments c), tr_passport = policy,
     tr_session = view_of_session (tc_now c) s, tr_policy_metadata = None,
     tr_action_class = policy_action_class (tc_tool_name c), tr_side_effect_class = call_class c\<rparr>"

definition count_permit :: "gov_event \<Rightarrow> gov_session \<Rightarrow> gov_session" where
  "count_permit event s =
    (let sec = ge_side_effect_class event
     in s\<lparr>gs_tool_call_count := gs_tool_call_count s + 1,
          gs_tool_call_count_by_class :=
            AList.update sec (dget (gs_tool_call_count_by_class s) sec 0 + 1) (gs_tool_call_count_by_class s)\<rparr>)"

definition check_and_record ::
  "builtin_engines \<Rightarrow> tool_call \<Rightarrow> passport_claims option \<Rightarrow> gov_state \<Rightarrow>
    (gov_error + gov_decision \<times> string \<times> gov_event) \<times> gov_state" where
  "check_and_record b c policy_claims g =
    (let s = gv_session g;
         active_policy = (case policy_claims of Some p \<Rightarrow> p | None \<Rightarrow> gs_passport_claims s);
         rq = request_of c active_policy s;
         additional = pc_additional_policies active_policy
     in case consult_native b rq (gv_registry g) of
          (Inl e, reg) \<Rightarrow> (Inl (EngineError e), g\<lparr>gv_registry := reg\<rparr>)
        | (Inr native_decision, reg) \<Rightarrow>
            (case consult_specs b rq additional reg of
               (Inl e, reg') \<Rightarrow> (Inl (EngineError e), g\<lparr>gv_registry := reg'\<rparr>)
             | (Inr others, reg') \<Rightarrow>
                 let decisions = native_decision # others;
                     (decision, reason, denial) = verdict decisions;
                     event = call_event c s decision reason denial
                       (if additional = [] then [] else map event_policy_decision decisions);
                     s' = s\<lparr>gs_events := gs_events s @ [event]\<rparr>
                 in (Inr (decision, reason, event),
                     g\<lparr>gv_registry := reg', gv_session := (if decision = PERMIT then count_permit event s' else s')\<rparr>)))"

end
