(* ===== verification/Governance_Operations.thy ===== *)
theory Governance_Operations
  imports Governance_Session
begin

text \<open>
  The operations of \<open>proxy.py\<close> on a governed session: an ordinary tool call with its approval gate and
  the memory tools, the import of usage counted elsewhere, and delegation.
\<close>

section \<open>Events without a policy decision\<close>

definition record_tool_policy_event ::
  "tool_call \<Rightarrow> gov_decision \<Rightarrow> string \<Rightarrow> denial_reason option \<Rightarrow> gov_session \<Rightarrow> gov_session" where
  "record_tool_policy_event c decision reason denial s =
    s\<lparr>gs_events := gs_events s @ [call_event c s decision reason denial []]\<rparr>"

definition downgrade_last_permit ::
  "gov_decision \<Rightarrow> string \<Rightarrow> denial_reason option \<Rightarrow> gov_session \<Rightarrow> gov_session" where
  "downgrade_last_permit new_decision new_reason new_denial s =
    (if gs_events s = [] then s
     else let last_event = last (gs_events s) in
       if ge_decision last_event \<noteq> PERMIT then s
       else s\<lparr>gs_events := butlast (gs_events s) @
                [last_event\<lparr>ge_decision := new_decision, ge_reason := new_reason, ge_denial_reason := new_denial\<rparr>],
              gs_tool_call_count := gs_tool_call_count s - 1\<rparr>)"

section \<open>Memory tools\<close>

datatype memory_error = MemoryValueError string | MemoryIntegrityError

text \<open>What opening a new store and accessing the record answer.\<close>

record memory_effect =
  me_open :: "memory_error + unit"
  me_access :: "memory_error + unit"

definition nonempty_str :: "jv \<Rightarrow> string option" where
  "nonempty_str v = (case v of JStr s \<Rightarrow> if s = [] then None else Some s | _ \<Rightarrow> None)"

definition get_or_create_memory_store :: "memory_effect \<Rightarrow> string \<Rightarrow> gov_session \<Rightarrow> memory_error + gov_session" where
  "get_or_create_memory_store eff store_id s =
    (if store_id \<in> set (gs_memory_stores s) then Inr s
     else rbind (me_open eff) (\<lambda>_. Inr (s\<lparr>gs_memory_stores := gs_memory_stores s @ [store_id]\<rparr>)))"

definition proxy_memory_write ::
  "memory_effect \<Rightarrow> jv dict \<Rightarrow> gov_session \<Rightarrow> (memory_error + unit) \<times> gov_session" where
  "proxy_memory_write eff arguments s =
    (case nonempty_str (jget arguments ''store_id'') of
       None \<Rightarrow> (Inl (MemoryValueError ''memory_store_write requires store_id''), s)
     | Some store_id \<Rightarrow>
         if (case jget arguments ''content'' of JStr _ \<Rightarrow> False | _ \<Rightarrow> True)
         then (Inl (MemoryValueError ''memory_store_write requires content (str)''), s)
         else if has_key arguments ''actor_private_key_pem''
         then (Inl (MemoryValueError (''memory_store_write no longer accepts caller-supplied '' @
           ''actor_private_key_pem; the proxy's session-bound key is the canonical signer (FIX-8, 2026-04-28). '' @
           ''Remove the argument from your tool-call payload.'')), s)
         else (case get_or_create_memory_store eff store_id s of
           Inl e \<Rightarrow> (Inl e, s)
         | Inr s' \<Rightarrow> (me_access eff, s')))"

definition proxy_memory_read ::
  "memory_effect \<Rightarrow> jv dict \<Rightarrow> gov_session \<Rightarrow> (memory_error + unit) \<times> gov_session" where
  "proxy_memory_read eff arguments s =
    (case nonempty_str (jget arguments ''store_id'') of
       None \<Rightarrow> (Inl (MemoryValueError ''memory_store_read requires store_id''), s)
     | Some store_id \<Rightarrow>
         if nonempty_str (jget arguments ''record_id'') = None
         then (Inl (MemoryValueError ''memory_store_read requires record_id''), s)
         else if store_id \<notin> set (gs_memory_stores s) then (Inl MemoryIntegrityError, s)
         else if has_key arguments ''verifier_public_key_pem''
         then (Inl (MemoryValueError (''memory_store_read no longer accepts caller-supplied '' @
           ''verifier_public_key_pem; the proxy's session-bound public key is the canonical verifier '' @
           ''(FIX-8, 2026-04-28). Remove the argument from your tool-call payload.'')), s)
         else (me_access eff, s))"

definition apply_memory_post_permit ::
  "memory_effect \<Rightarrow> tool_call \<Rightarrow> gov_session \<Rightarrow> (gov_decision \<times> string) \<times> gov_session" where
  "apply_memory_post_permit eff c s =
    (if \<not> is_memory_store_tool (tc_tool_name c) then ((PERMIT, ''within scope''), s)
     else
       (case (if tc_tool_name c = ''memory_store_write'' then proxy_memory_write else proxy_memory_read)
           eff (tc_arguments c) s of
          (Inr _, s') \<Rightarrow> ((PERMIT, ''within scope''), s')
        | (Inl (MemoryValueError msg), s') \<Rightarrow>
            ((DENY, msg), downgrade_last_permit DENY msg (Some POLICY_DENIED) s')
        | (Inl MemoryIntegrityError, s') \<Rightarrow>
            let s'' = (case nonempty_str (jget (tc_arguments c) ''store_id'') of
                None \<Rightarrow> s'
              | Some sid \<Rightarrow> s'\<lparr>gs_memory_compromised_stores := List.insert sid (gs_memory_compromised_stores s')\<rparr>)
            in ((VIOLATION, ''memory_integrity_failure''),
                downgrade_last_permit VIOLATION ''memory_integrity_failure'' (Some MEMORY_INTEGRITY_FAILURE) s'')))"

section \<open>An ordinary tool call\<close>

text \<open>The approval policy of the claims (\<^const>\<open>None\<close>: no rate; \<^const>\<open>Inl\<close>: its numbers do not parse) and
  their operator.\<close>

record approval_terms =
  ap_policy :: "(unit + int \<times> rat) option"
  ap_operator_id :: jv

definition approval_tracker_for ::
  "int \<times> rat \<Rightarrow> ((int \<times> rat) \<times> approval_tracker) list \<Rightarrow> approval_error + approval_tracker" where
  "approval_tracker_for key trackers =
    (case map_of trackers key of Some t \<Rightarrow> Inr t | None \<Rightarrow> new_tracker (fst key) (snd key))"

definition approval_operator_id :: "jv \<Rightarrow> jv dict \<Rightarrow> string option" where
  "approval_operator_id claim arguments =
    (case text_of claim of Some who \<Rightarrow> Some who | None \<Rightarrow> text_of (jget arguments ''operator_id''))"

definition set_tracker :: "int \<times> rat \<Rightarrow> approval_tracker \<Rightarrow> gov_state \<Rightarrow> gov_state" where
  "set_tracker key t g = g\<lparr>gv_trackers := AList.update key t (gv_trackers g)\<rparr>"

definition refuse ::
  "tool_call \<Rightarrow> string \<Rightarrow> denial_reason \<Rightarrow> gov_state \<Rightarrow> (gov_error + gov_decision \<times> string) \<times> gov_state" where
  "refuse c reason denial g =
    (Inr (INSUFFICIENT_EVIDENCE, reason),
     g\<lparr>gv_session := record_tool_policy_event c INSUFFICIENT_EVIDENCE reason (Some denial) (gv_session g)\<rparr>)"

text \<open>The call itself, with the approval to record when it is permitted.\<close>

definition decide_call ::
  "builtin_engines \<Rightarrow> tool_call \<Rightarrow> passport_claims \<Rightarrow> memory_effect \<Rightarrow> ((int \<times> rat) \<times> string) option \<Rightarrow> gov_state \<Rightarrow>
    (gov_error + gov_decision \<times> string) \<times> gov_state" where
  "decide_call b c policy_claims eff approval g =
    (case check_and_record b c (Some policy_claims) g of
       (Inl e, g') \<Rightarrow> (Inl e, g')
     | (Inr (decision, reason, _), g') \<Rightarrow>
         if decision \<noteq> PERMIT then (Inr (decision, reason), g')
         else
           let ((decision', reason'), s') = apply_memory_post_permit eff c (gv_session g');
               g'' = g'\<lparr>gv_session := s'\<rparr>
           in case approval of
                Some (key, operator_id) \<Rightarrow>
                  if decision' = PERMIT
                  then (case approval_tracker_for key (gv_trackers g'') of
                      Inl _ \<Rightarrow> (Inr (decision', reason'), g'')
                    | Inr t \<Rightarrow> (Inr (decision', reason'), set_tracker key (snd (record_approval operator_id (tc_now c) t)) g''))
                  else (Inr (decision', reason'), g'')
              | None \<Rightarrow> (Inr (decision', reason'), g''))"

definition evaluate_ordinary_tool_policy ::
  "builtin_engines \<Rightarrow> tool_call \<Rightarrow> passport_claims \<Rightarrow> approval_terms \<Rightarrow> memory_effect \<Rightarrow> gov_state \<Rightarrow>
    (gov_error + gov_decision \<times> string) \<times> gov_state" where
  "evaluate_ordinary_tool_policy b c policy_claims terms eff g =
    (case ap_policy terms of
       None \<Rightarrow> decide_call b c policy_claims eff None g
     | Some (Inl _) \<Rightarrow> refuse c ''approval_policy_invalid'' TELEMETRY_MISSING g
     | Some (Inr key) \<Rightarrow>
         (case approval_tracker_for key (gv_trackers g) of
            Inl _ \<Rightarrow> refuse c ''approval_policy_invalid'' TELEMETRY_MISSING g
          | Inr t \<Rightarrow>
              (case approval_operator_id (ap_operator_id terms) (tc_arguments c) of
                 None \<Rightarrow> refuse c ''approval_operator_unavailable'' APPROVAL_OPERATOR_UNAVAILABLE (set_tracker key t g)
               | Some operator_id \<Rightarrow>
                   (case check_approval operator_id (tc_now c) t of
                      (Inr True, t') \<Rightarrow> decide_call b c policy_claims eff (Some (key, operator_id)) (set_tracker key t' g)
                    | (Inr False, t') \<Rightarrow>
                        refuse c ''approval_fatigue_threshold'' APPROVAL_FATIGUE_THRESHOLD (set_tracker key t' g)
                    | (Inl (ApprovalValueError msg), t') \<Rightarrow> (Inl (GovValueError msg), set_tracker key t' g)))))"

section \<open>Usage counted elsewhere\<close>

definition falsy :: "jv \<Rightarrow> bool" where
  "falsy v \<longleftrightarrow> v \<in> {JNull, JBool False, JInt 0, JStr [], JArr [], JObj []} \<or> (case v of JFloat f _ \<Rightarrow> f = 0 | _ \<Rightarrow> False)"

definition usage_count :: "jv \<Rightarrow> string \<Rightarrow> gov_error + int" where
  "usage_count v what =
    (case v of
       JInt n \<Rightarrow> if n < 0 then Inl (GovValueError (what @ '' must be non-negative'')) else Inr n
     | _ \<Rightarrow> Inl (GovTypeError (what @ '' must be an integer'')))"

definition usage_by_class :: "jv \<Rightarrow> gov_error + int dict" where
  "usage_by_class v =
    (if falsy v then Inr []
     else case v of
       JObj d \<Rightarrow>
         mapM (\<lambda>(name, count).
           if name = [] then Inl (GovValueError ''tool-call class names must be non-empty'')
           else (case count of
               JInt n \<Rightarrow> if n < 0 then Inl (GovValueError ''tool-call class counts must be non-negative'') else Inr (name, n)
             | _ \<Rightarrow> Inl (GovTypeError ''tool-call class counts must be integers''))) d
     | _ \<Rightarrow> Inl (GovTypeError ''tool_call_count_by_class must be an object''))"

definition merge_by_class :: "int dict \<Rightarrow> int dict \<Rightarrow> int dict" where
  "merge_by_class by_class current =
    foldl (\<lambda>acc (name, count). AList.update name (max (dget acc name 0) count) acc) current by_class"

definition class_total :: "int dict \<Rightarrow> int" where
  "class_total d = sum_list (map snd d)"

definition over_class_cap :: "int dict \<Rightarrow> string \<times> int \<Rightarrow> bool" where
  "over_class_cap caps e = (case map_of caps (fst e) of None \<Rightarrow> False | Some cap \<Rightarrow> snd e > cap)"

definition sync_locked :: "int \<Rightarrow> int dict \<Rightarrow> gov_session \<Rightarrow> gov_error + gov_session" where
  "sync_locked tool_call_count by_class s =
    (if gs_summarized s \<or> gs_end_time s \<noteq> None
     then Inl (GovPermissionError ''completed session cannot accept external usage'')
     else
       let next_total = max (gs_tool_call_count s) tool_call_count;
           next_by_class = merge_by_class by_class (gs_tool_call_count_by_class s);
           claims = gs_passport_claims s
       in if class_total next_by_class > next_total
          then Inl (GovValueError ''merged per-class usage cannot exceed total tool-call usage'')
          else if next_total + gs_delegated_budget_reserved s > pc_max_tool_calls claims
          then Inl (GovPermissionError ''external usage overlaps delegated tool-call reservations'')
          else (case find (over_class_cap (pc_max_tool_calls_per_class claims)) next_by_class of
              Some (name, _) \<Rightarrow> Inl (GovPermissionError (''external usage exceeds tool-call class budget for '' @ name))
            | None \<Rightarrow> Inr (s\<lparr>gs_tool_call_count := next_total, gs_tool_call_count_by_class := next_by_class\<rparr>)))"

definition synchronize_external_tool_usage_floor :: "jv \<Rightarrow> jv \<Rightarrow> gov_state \<Rightarrow> (gov_error + unit) \<times> gov_state" where
  "synchronize_external_tool_usage_floor calls by_class g =
    (case rbind (usage_count calls ''tool_call_count'') (\<lambda>n.
       rbind (usage_by_class by_class) (\<lambda>d.
       if class_total d > n then Inl (GovValueError ''per-class usage cannot exceed total tool-call usage'')
       else sync_locked n d (gv_session g))) of
       Inl e \<Rightarrow> (Inl e, g)
     | Inr s \<Rightarrow> (Inr (), g\<lparr>gv_session := s\<rparr>))"

section \<open>Delegation\<close>

text \<open>Tokens: how claims are signed, how a token decodes (signature, times and revocation included), the
  parent of a cached session, and the index of trusted lineages.\<close>

record token_service =
  ts_sign :: "passport_claims \<Rightarrow> string"
  ts_decode :: "string \<Rightarrow> gov_error + passport_claims"
  ts_cached_parent :: "passport_claims \<Rightarrow> (string \<times> passport_claims) option"
  ts_index :: trusted_lineage

definition verify_passport_token ::
  "token_service \<Rightarrow> string \<Rightarrow> string option \<Rightarrow> gov_error + passport_claims" where
  "verify_passport_token ts token parent_token =
    rbind (ts_decode ts token) (\<lambda>claims.
    rbind (if pc_parent_jti claims = None then Inr None
           else case parent_token of
             None \<Rightarrow> Inr (ts_cached_parent ts claims)
           | Some p \<Rightarrow> rbind (ts_decode ts p) (\<lambda>parent. Inr (Some (p, parent)))) (\<lambda>parent.
    lift_error GovPassportError (verify_passport claims parent (Some (ts_index ts)))))"

record delegate_args =
  dg_parent_token :: string
  dg_child_agent_id :: string
  dg_child_allowed_tools :: "string list"
  dg_child_mission :: string
  dg_child_ttl_s :: "int option"
  dg_child_max_tool_calls :: "int option"
  dg_child_resource_scope :: "string list option"
  dg_child_risk_budget :: "jv option"
  dg_request_id :: string
  dg_now :: int
  dg_issued_at :: int
  dg_child_jti :: string

definition delegation_request_metadata :: "string \<Rightarrow> delegate_args \<Rightarrow> delegation_request" where
  "delegation_request_metadata parent_jti a =
    \<lparr>dr_parent_jti = parent_jti, dr_child_agent_id = dg_child_agent_id a, dr_child_mission = dg_child_mission a,
     dr_child_allowed_tools = sorted_set (dg_child_allowed_tools a),
     dr_child_resource_scope = map_option sorted_set (dg_child_resource_scope a), dr_child_ttl_s = dg_child_ttl_s a,
     dr_child_max_tool_calls = dg_child_max_tool_calls a, dr_child_risk_budget = dg_child_risk_budget a\<rparr>"

definition json_option :: "('a \<Rightarrow> jv) \<Rightarrow> 'a option \<Rightarrow> jv" where
  "json_option f x = (case x of None \<Rightarrow> JNull | Some v \<Rightarrow> f v)"

definition delegation_request_json :: "delegation_request \<Rightarrow> jv" where
  "delegation_request_json r =
    JObj [(''version'', JInt 1), (''parent_jti'', JStr (dr_parent_jti r)),
      (''child_agent_id'', JStr (dr_child_agent_id r)), (''child_mission'', JStr (dr_child_mission r)),
      (''child_allowed_tools'', JArr (map JStr (dr_child_allowed_tools r))),
      (''child_resource_scope'', json_option (\<lambda>xs. JArr (map JStr xs)) (dr_child_resource_scope r)),
      (''child_ttl_s'', json_option JInt (dr_child_ttl_s r)),
      (''child_max_tool_calls'', json_option JInt (dr_child_max_tool_calls r)),
      (''child_risk_budget'', json_option id (dr_child_risk_budget r))]"

definition delegation_request_text :: "delegation_request \<Rightarrow> string" where
  "delegation_request_text r = json_dumps '','' '':'' (delegation_request_json r)"

definition delegation_request_fingerprint :: "delegation_request \<Rightarrow> string" where
  "delegation_request_fingerprint r = sha256_hex (delegation_request_text r)"

definition delegation_claims_match_record :: "passport_claims \<Rightarrow> child_record \<Rightarrow> int \<Rightarrow> bool" where
  "delegation_claims_match_record claims child existing_amount \<longleftrightarrow>
    pc_max_tool_calls claims = existing_amount \<and> pc_jti claims = cr_child_jti child \<and>
    pc_sub claims = cr_child_agent_id child \<and> pc_mission claims = cr_child_mission child \<and>
    sorted_set (pc_allowed_tools claims) = sorted_set (cr_child_allowed_tools child) \<and>
    sorted_set (pc_resource_scope claims) = sorted_set (cr_child_resource_scope child) \<and>
    pc_risk_budget claims = cr_child_risk_budget child"

definition different_reservation :: gov_error where
  "different_reservation = GovConflictError ''delegation_request_id already used for a different reservation''"

definition credential_unavailable :: gov_error where
  "credential_unavailable =
    GovConflictError ''delegation_request_id already used; original child credential is unavailable''"

text \<open>A request identifier that has a reservation: the same child again, or a conflict. Texts stand for the
  comparison of the two requests, whose fingerprints agree at that point.\<close>

definition replay_delegation ::
  "token_service \<Rightarrow> delegate_args \<Rightarrow> delegation_request \<Rightarrow> lb_reservation \<Rightarrow> gov_session \<Rightarrow>
    gov_error + string \<times> passport_claims \<times> int" where
  "replay_delegation ts a request existing s =
    (if lr_child_agent_id existing \<noteq> Some (dg_child_agent_id a) then Inl different_reservation
     else case find (\<lambda>child. cr_request_id child = dg_request_id a) (gs_delegated_children s) of
       None \<Rightarrow> Inl credential_unavailable
     | Some child \<Rightarrow>
         if cr_fingerprint child \<noteq> delegation_request_fingerprint request \<or>
            delegation_request_text (cr_request child) \<noteq> delegation_request_text request
         then Inl different_reservation
         else if cr_child_token child = [] then Inl credential_unavailable
         else
           rbind (verify_passport_token ts (cr_child_token child) (Some (dg_parent_token a))) (\<lambda>claims.
           if \<not> delegation_claims_match_record claims child (lr_amount existing) \<or>
              Some (pc_jti claims) \<noteq> lr_child_jti existing
           then Inl different_reservation
           else Inr (cr_child_token child, claims, cr_parent_calls_remaining child)))"

definition delegation_derive_args :: "delegate_args \<Rightarrow> int \<Rightarrow> int \<Rightarrow> derive_args" where
  "delegation_derive_args a parent_calls_remaining reserved =
    \<lparr>da_child_agent_id = dg_child_agent_id a, da_child_allowed_tools = dg_child_allowed_tools a,
     da_child_mission = dg_child_mission a, da_child_ttl_s = dg_child_ttl_s a,
     da_child_max_tool_calls = dg_child_max_tool_calls a, da_parent_calls_remaining = Some parent_calls_remaining,
     da_parent_reserved_for_descendants = reserved, da_child_resource_scope = dg_child_resource_scope a,
     da_child_cwd = None, da_child_risk_budget = dg_child_risk_budget a\<rparr>"

definition delegation_event ::
  "string \<Rightarrow> delegate_args \<Rightarrow> passport_claims \<Rightarrow> reservation_result \<Rightarrow> gov_session \<Rightarrow> gov_event" where
  "delegation_event verifier_id a child_claims res s =
    \<lparr>ge_actor = pc_sub (gs_passport_claims s), ge_verifier_id = verifier_id, ge_tool_name = ''delegate_passport'',
     ge_arguments =
       [(''child_agent_id'', JStr (dg_child_agent_id a)),
        (''child_allowed_tools'', JArr (map JStr (dg_child_allowed_tools a))),
        (''child_jti'', JStr (pc_jti child_claims)), (''child_tool_scope_mode'', JStr ''allowlist''),
        (''requested_child_max_tool_calls'', json_option JInt (dg_child_max_tool_calls a)),
        (''child_max_tool_calls'', JInt (pc_max_tool_calls child_claims)),
        (''delegation_request_id'', JStr (dg_request_id a))],
     ge_action_class = ''delegate'', ge_target = dg_child_agent_id a, ge_resource_family = ''delegation'',
     ge_side_effect_class = ''state_change'', ge_decision = PERMIT,
     ge_reason = ''reserved '' @ str_int (rs_amount res) @ '' delegated call budget for child '' @ dg_child_agent_id a,
     ge_passport_jti = pc_jti (gs_passport_claims s), ge_run_nonce = gs_run_nonce s, ge_denial_reason = None,
     ge_policy_decisions = [],
     ge_budget_delta = Some (JObj
       [(''operation'', JStr ''reserve''), (''resource'', JStr ''lineage_budget''), (''amount'', JInt (rs_amount res)),
        (''unit'', JStr ''tool_call''), (''remaining_for_parent'', JInt (rs_remaining_after res)),
        (''reserved_total'', JInt (rs_reserved_total res)), (''delegation_request_id'', JStr (dg_request_id a)),
        (''idempotent'', JBool (rs_idempotent res))])\<rparr>"

definition add_child ::
  "string \<Rightarrow> delegate_args \<Rightarrow> delegation_request \<Rightarrow> string \<Rightarrow> passport_claims \<Rightarrow> reservation_result \<Rightarrow> gov_session \<Rightarrow>
    gov_session" where
  "add_child verifier_id a request child_token child_claims res s =
    s\<lparr>gs_delegated_budget_reserved := rs_reserved_total res,
      gs_delegated_children := filter (\<lambda>child. cr_request_id child \<noteq> dg_request_id a) (gs_delegated_children s) @
        [\<lparr>cr_request_id = dg_request_id a, cr_request = request, cr_fingerprint = delegation_request_fingerprint request,
          cr_child_token = child_token, cr_child_jti = pc_jti child_claims, cr_child_agent_id = dg_child_agent_id a,
          cr_child_mission = dg_child_mission a, cr_child_allowed_tools = pc_allowed_tools child_claims,
          cr_child_resource_scope = pc_resource_scope child_claims, cr_child_risk_budget = pc_risk_budget child_claims,
          cr_child_max_tool_calls = pc_max_tool_calls child_claims, cr_reserved = rs_amount res,
          cr_parent_calls_remaining = rs_remaining_before res\<rparr>],
      gs_events := gs_events s @ [delegation_event verifier_id a child_claims res s]\<rparr>"

definition delegation_reserve_args :: "delegate_args \<Rightarrow> passport_claims \<Rightarrow> gov_session \<Rightarrow> lb_reserve_args" where
  "delegation_reserve_args a child_claims s =
    \<lparr>ra_parent_jti = pc_jti (gs_passport_claims s), ra_request_id = dg_request_id a,
     ra_amount = pc_max_tool_calls child_claims, ra_ceiling = pc_max_tool_calls (gs_passport_claims s),
     ra_used_total = gs_tool_call_count s, ra_child_agent_id = Some (dg_child_agent_id a),
     ra_child_jti = Some (pc_jti child_claims), ra_floor_reserved_total = gs_delegated_budget_reserved s\<rparr>"

text \<open>The verified claims of a new child and its token.\<close>

definition new_child ::
  "token_service \<Rightarrow> delegate_args \<Rightarrow> passport_claims \<Rightarrow> int \<Rightarrow> gov_session \<Rightarrow> gov_error + string \<times> passport_claims" where
  "new_child ts a parent_claims reserved s =
    (let parent_calls_remaining = max 0 (pc_max_tool_calls (gs_passport_claims s) - gs_tool_call_count s - reserved) in
     rbind (lift_error GovPassportError (derive_child_passport (delegation_derive_args a parent_calls_remaining reserved)
         (dg_parent_token a) parent_claims (dg_now a) (dg_issued_at a) (dg_child_jti a))) (\<lambda>derived.
     rbind (verify_passport_token ts (ts_sign ts derived) (Some (dg_parent_token a))) (\<lambda>child_claims.
     Inr (ts_sign ts derived, child_claims))))"

text \<open>The reservation of a new child and its record.\<close>

definition reserve_child ::
  "string \<Rightarrow> delegate_args \<Rightarrow> delegation_request \<Rightarrow> string \<times> passport_claims \<Rightarrow> gov_state \<Rightarrow>
    (gov_error + string \<times> passport_claims \<times> int) \<times> gov_state" where
  "reserve_child verifier_id a request child g =
    (case child of
       (child_token, child_claims) \<Rightarrow>
         (case lb_reserve (delegation_reserve_args a child_claims (gv_session g)) (gv_ledger g) of
            (Inl e, ledger) \<Rightarrow> (Inl (GovLedgerError e), g\<lparr>gv_ledger := ledger\<rparr>)
          | (Inr res, ledger) \<Rightarrow>
              if \<not> rs_accepted res \<or> \<not> rs_idempotent res \<and> pc_max_tool_calls child_claims > rs_remaining_before res
              then (Inl (GovPermissionError ''child delegation would over-reserve parent budget''), g\<lparr>gv_ledger := ledger\<rparr>)
              else (Inr (child_token, child_claims, rs_remaining_before res),
                    g\<lparr>gv_ledger := ledger,
                      gv_session := add_child verifier_id a request child_token child_claims res (gv_session g)\<rparr>)))"

definition delegate_passport ::
  "token_service \<Rightarrow> string \<Rightarrow> delegate_args \<Rightarrow> gov_state \<Rightarrow>
    (gov_error + string \<times> passport_claims \<times> int) \<times> gov_state" where
  "delegate_passport ts verifier_id a g =
    (let s = gv_session g; parent_jti = pc_jti (gs_passport_claims s) in
     case rbind (verify_passport_token ts (dg_parent_token a) None) (\<lambda>parent_claims.
       if pc_jti parent_claims \<noteq> parent_jti
       then Inl (GovValueError (''unknown session '' @ quoted (pc_jti parent_claims)))
       else if gs_summarized s
       then Inl (GovPermissionError ''parent session is ended; cannot delegate from a completed session'')
       else
         rbind (lift_error GovLedgerError (lb_reserved_total_op (gv_ledger g) parent_jti (gs_delegated_budget_reserved s)))
           (\<lambda>reserved.
         rbind (lift_error GovLedgerError (lb_reservation_op (gv_ledger g) parent_jti (dg_request_id a))) (\<lambda>existing.
         Inr (parent_claims, reserved, existing)))) of
       Inl e \<Rightarrow> (Inl e, g)
     | Inr (parent_claims, reserved, existing) \<Rightarrow>
         let request = delegation_request_metadata parent_jti a in
         (case existing of
            Some reservation \<Rightarrow> (replay_delegation ts a request reservation s, g)
          | None \<Rightarrow>
              (case new_child ts a parent_claims reserved s of
                 Inl e \<Rightarrow> (Inl e, g)
               | Inr child \<Rightarrow> reserve_child verifier_id a request child g)))"

section \<open>Steps\<close>

text \<open>What is outside the session: the check of resource paths, the other engines, and the tokens.\<close>

record gov_env =
  en_scope :: scope_check
  en_forbid_rules :: policy_engine
  en_cedar :: "policy_engine option"
  en_tokens :: token_service
  en_verifier_id :: string

definition builtins :: "gov_env \<Rightarrow> builtin_engines" where
  "builtins env = \<lparr>be_native = native_engine (en_scope env), be_forbid_rules = en_forbid_rules env, be_cedar = en_cedar env\<rparr>"

datatype gov_op =
    GovCall tool_call passport_claims approval_terms memory_effect
  | GovSync jv jv
  | GovDelegate delegate_args

datatype gov_outcome =
    GovDecided gov_decision string
  | GovSynced
  | GovDelegated string passport_claims int

fun gov_exec :: "gov_env \<Rightarrow> gov_op \<Rightarrow> gov_state \<Rightarrow> (gov_error + gov_outcome) \<times> gov_state" where
  "gov_exec env (GovCall c policy terms eff) g =
    map_prod (map_sum id (\<lambda>(d, r). GovDecided d r)) id (evaluate_ordinary_tool_policy (builtins env) c policy terms eff g)"
| "gov_exec env (GovSync calls by_class) g =
    map_prod (map_sum id (\<lambda>_. GovSynced)) id (synchronize_external_tool_usage_floor calls by_class g)"
| "gov_exec env (GovDelegate a) g =
    map_prod (map_sum id (\<lambda>(t, c, n). GovDelegated t c n)) id
      (delegate_passport (en_tokens env) (en_verifier_id env) a g)"

end
