(* ===== verification/Governance_Guarantees.thy ===== *)
theory Governance_Guarantees
  imports Governance_Operations Passport_Delegation
begin

text \<open>
  What a governed session guarantees: composition is deny-wins, a permitted call passes every check and
  every engine, and over every history of calls, imports and delegations the calls made and the
  budgets given to children stay within the ceiling of the passport. Two theorems show where the code
  departs from what it means to do.
\<close>

section \<open>Composition\<close>

lemma find_None_set: "find P xs = None \<longleftrightarrow> \<not> (\<exists>x \<in> set xs. P x)"
  by (induction xs) auto

lemma find_SomeD: "find P xs = Some x \<Longrightarrow> x \<in> set xs \<and> P x"
  by (induction xs) (auto split: if_splits)

lemma compose_Allow:
  "fst (compose_decisions ds) = Allow \<longleftrightarrow> (\<exists>pd \<in> set ds. pd_decision pd = Allow) \<and> (\<forall>pd \<in> set ds. pd_decision pd \<noteq> Deny)"
  by (auto simp: compose_decisions_def find_None_set split: option.splits dest!: find_SomeD)

lemma compose_not_Abstain: "fst (compose_decisions ds) \<noteq> Abstain"
  by (simp add: compose_decisions_def split: option.splits)

lemma find_append: "find P (xs @ ys) = (case find P xs of None \<Rightarrow> find P ys | Some x \<Rightarrow> Some x)"
  by (induction xs) auto

text \<open>C28: Deny wins. The composition of decisions allows exactly when one engine allows and none denies; it
  never abstains, whatever engines are added to a denied call it stays denied by the same engine, and
  the denier named in the audit trail is the first engine that denies.\<close>

theorem compose_deny_wins:
  "(fst (compose_decisions ds) = Allow \<longleftrightarrow> Allow \<in> pd_decision ` set ds \<and> Deny \<notin> pd_decision ` set ds) \<and>
    fst (compose_decisions ds) \<noteq> Abstain \<and>
    snd (compose_decisions (ds @ es)) =
      (case snd (compose_decisions ds) of Some pd \<Rightarrow> Some pd | None \<Rightarrow> snd (compose_decisions es)) \<and>
    snd (compose_decisions ds) = find (\<lambda>pd. pd_decision pd = Deny) ds"
proof -
  have "fst (compose_decisions ds) = Allow \<longleftrightarrow> Allow \<in> pd_decision ` set ds \<and> Deny \<notin> pd_decision ` set ds"
    unfolding compose_Allow by force
  then show ?thesis
    using compose_not_Abstain [of ds] by (auto simp: compose_decisions_def find_append split: option.splits)
qed

section \<open>Looking up engines\<close>

definition builtin :: "builtin_engines \<Rightarrow> string \<Rightarrow> policy_engine option" where
  "builtin b n =
    (if n = ''native'' then Some (be_native b) else if n = ''forbid_rules'' then Some (be_forbid_rules b)
     else if n = ''cedar'' then be_cedar b else None)"

lemma bootstrap_lookup:
  assumes "map_of reg m = None"
  shows "map_of (bootstrap_builtin_backend b m reg) n = (if n = m then builtin b m else map_of reg n)"
  using assms by (cases "be_cedar b") (auto simp: bootstrap_builtin_backend_def register_backend_def builtin_def)

lemma get_backend_lookup:
  "fst (get_backend b n reg) = (case map_of reg n of Some e \<Rightarrow> Some e | None \<Rightarrow> builtin b n)"
  by (cases "map_of reg n") (simp_all add: get_backend_def has_key_iff Let_def bootstrap_lookup)

lemma get_backend_registry:
  "map_of (snd (get_backend b m reg)) n = (if n = m then fst (get_backend b m reg) else map_of reg n)"
  by (cases "map_of reg m") (simp_all add: get_backend_def has_key_iff Let_def bootstrap_lookup)

text \<open>A lookup does not change what a later lookup finds.\<close>

lemma get_backend_stable: "fst (get_backend b n (snd (get_backend b m reg))) = fst (get_backend b n reg)"
  unfolding get_backend_lookup [of b n "snd (get_backend b m reg)"] get_backend_registry
  by (simp add: get_backend_lookup split: option.split)

text \<open>The engine found under \<open>native\<close> is the built-in one.\<close>

definition native_ok :: "builtin_engines \<Rightarrow> registry \<Rightarrow> bool" where
  "native_ok b reg \<longleftrightarrow> fst (get_backend b ''native'' reg) = Some (be_native b)"

lemma native_ok_get [simp]: "native_ok b (snd (get_backend b m reg)) \<longleftrightarrow> native_ok b reg"
  by (simp add: native_ok_def get_backend_stable)

lemma native_ok_empty [simp]: "native_ok b []"
  by (simp add: native_ok_def get_backend_lookup builtin_def)

lemma consult_native_result:
  assumes "native_ok b reg"
  shows "consult_native b rq reg = (be_native b rq [], snd (get_backend b ''native'' reg))"
  using assms by (auto simp: consult_native_def native_ok_def split: prod.splits option.splits)

definition same_lookups :: "builtin_engines \<Rightarrow> registry \<Rightarrow> registry \<Rightarrow> bool" where
  "same_lookups b reg reg' \<longleftrightarrow> (\<forall>n. fst (get_backend b n reg') = fst (get_backend b n reg))"

lemma same_lookups_get [simp]: "same_lookups b reg (snd (get_backend b m reg))"
  by (simp add: same_lookups_def get_backend_stable)

lemma same_lookups_refl [simp]: "same_lookups b reg reg"
  by (simp add: same_lookups_def)

lemma same_lookups_trans: "same_lookups b r1 r2 \<Longrightarrow> same_lookups b r2 r3 \<Longrightarrow> same_lookups b r1 r3"
  by (simp add: same_lookups_def)

lemma same_lookups_native: "same_lookups b reg reg' \<Longrightarrow> native_ok b reg' \<longleftrightarrow> native_ok b reg"
  by (simp add: same_lookups_def native_ok_def)

lemma consult_spec_eq:
  "consult_spec b rq (JObj spec) reg =
    ((case fst (get_backend b (spec_backend spec) reg) of
        None \<Rightarrow> Inr \<lparr>pd_backend = spec_backend spec, pd_label = spec_label spec, pd_decision = Deny,
                    pd_reasons = [''unknown policy backend: '' @ spec_backend spec]\<rparr>
      | Some engine \<Rightarrow>
          map_sum id (\<lambda>pd. if spec_label spec \<noteq> [] \<and> pd_label pd = [] then pd\<lparr>pd_label := spec_label spec\<rparr> else pd)
            (engine rq spec)),
     snd (get_backend b (spec_backend spec) reg))"
  by (simp add: consult_spec_def split: prod.split option.split)

lemma consult_spec_stable:
  assumes "same_lookups b reg reg'"
  shows "fst (consult_spec b rq entry reg') = fst (consult_spec b rq entry reg)"
    and "same_lookups b reg (snd (consult_spec b rq entry reg'))"
proof -
  have eq: "fst (get_backend b n reg') = fst (get_backend b n reg)" for n using assms by (simp add: same_lookups_def)
  show "fst (consult_spec b rq entry reg') = fst (consult_spec b rq entry reg)"
    by (cases entry) (simp_all add: consult_spec_eq eq, simp_all add: consult_spec_def)
  show "same_lookups b reg (snd (consult_spec b rq entry reg'))"
    using assms by (cases entry) (auto simp: consult_spec_eq, auto simp: consult_spec_def intro: same_lookups_trans)
qed

lemma consult_specs_result:
  assumes "same_lookups b reg reg'"
  shows "fst (consult_specs b rq entries reg') = mapM (\<lambda>e. fst (consult_spec b rq e reg)) entries \<and>
    same_lookups b reg (snd (consult_specs b rq entries reg'))"
  using assms
proof (induction entries arbitrary: reg')
  case (Cons e es)
  obtain r reg1 where c: "consult_spec b rq e reg' = (r, reg1)" by (cases "consult_spec b rq e reg'")
  have r: "r = fst (consult_spec b rq e reg)" "same_lookups b reg reg1"
    using consult_spec_stable [OF Cons.prems, of rq e] c by simp_all
  show ?case
  proof (cases r)
    case (Inl x)
    then show ?thesis using c r by simp
  next
    case (Inr pd)
    then show ?thesis using c r Cons.IH [OF r(2)]
      by (cases "consult_specs b rq es reg1") (auto split: sum.splits)
  qed
qed simp

section \<open>A decided call\<close>

lemma first_reasons_Nil: "first_reasons rs = [] \<longleftrightarrow> (\<forall>r \<in> set rs. r = [])"
  by (induction rs) auto

text \<open>The built-in checks pass.\<close>

definition native_clear :: "scope_check \<Rightarrow> tool_call \<Rightarrow> passport_claims \<Rightarrow> gov_session \<Rightarrow> bool" where
  "native_clear scope c policy s \<longleftrightarrow>
    check_delegation_depth policy = [] \<and> check_forbidden_tools policy (tc_tool_name c) = [] \<and>
    check_tool_scope policy (tc_tool_name c) = [] \<and> check_session_budget policy (view_of_session (tc_now c) s) = [] \<and>
    check_resource_scope scope policy (tc_arguments c) = [] \<and>
    check_side_effect_class policy (tc_tool_name c) (call_class c) = [] \<and>
    check_per_class_budget policy (tc_tool_name c) (view_of_session (tc_now c) s) (call_class c) = []"

lemma native_engine_request:
  "native_engine scope (request_of c policy s) spec =
    Inr (if native_clear scope c policy s
      then \<lparr>pd_backend = ''native'', pd_label = ''ardur_builtin'', pd_decision = Allow, pd_reasons = [''within scope'']\<rparr>
      else \<lparr>pd_backend = ''native'', pd_label = ''ardur_builtin'', pd_decision = Deny,
             pd_reasons = evaluate_native_denials scope policy (tc_tool_name c) (tc_arguments c)
               (policy_event_target (tc_tool_name c) (tc_arguments c)) (view_of_session (tc_now c) s) None\<rparr>)"
proof -
  have "evaluate_native_denials scope policy (tc_tool_name c) (tc_arguments c)
      (policy_event_target (tc_tool_name c) (tc_arguments c)) (view_of_session (tc_now c) s) None = [] \<longleftrightarrow>
    native_clear scope c policy s"
    by (simp add: evaluate_native_denials_def policy_metadata_def Let_def first_reasons_Nil native_clear_def
        check_cwd_confinement_def call_class_def)
  then show ?thesis by (simp add: native_engine_def request_of_def Let_def)
qed

lemma verdict_PERMIT: "fst (verdict ds) = PERMIT \<longleftrightarrow> fst (compose_decisions ds) = Allow"
  by (simp add: verdict_def Let_def split: prod.split option.split)

text \<open>The engine of a policy entry answers, and does not deny.\<close>

definition engine_consents :: "builtin_engines \<Rightarrow> registry \<Rightarrow> tool_request \<Rightarrow> jv \<Rightarrow> bool" where
  "engine_consents b reg rq entry \<longleftrightarrow> (\<exists>pd. fst (consult_spec b rq entry reg) = Inr pd \<and> pd_decision pd \<noteq> Deny)"

lemma answers_consent:
  assumes "mapM (\<lambda>e. fst (consult_spec b rq e reg)) entries = Inr answers"
  shows "(\<forall>pd \<in> set answers. pd_decision pd \<noteq> Deny) \<longleftrightarrow> (\<forall>entry \<in> set entries. engine_consents b reg rq entry)"
  using assms unfolding mapM_Inr_iff
  by (induction rule: list_all2_induct) (auto simp: engine_consents_def)

definition active_policy :: "passport_claims option \<Rightarrow> gov_session \<Rightarrow> passport_claims" where
  "active_policy policy_claims s = (case policy_claims of Some p \<Rightarrow> p | None \<Rightarrow> gs_passport_claims s)"

text \<open>The session after a recorded call.\<close>

definition recorded :: "gov_event \<Rightarrow> gov_session \<Rightarrow> gov_session" where
  "recorded event s =
    (let s' = s\<lparr>gs_events := gs_events s @ [event]\<rparr> in if ge_decision event = PERMIT then count_permit event s' else s')"

lemma call_event_simps [simp]:
  "ge_decision (call_event c s d r n ds) = d" "ge_side_effect_class (call_event c s d r n ds) = call_class c"
  "ge_reason (call_event c s d r n ds) = r" "ge_denial_reason (call_event c s d r n ds) = n"
  by (simp_all add: call_event_def call_class_def Let_def)

lemma check_and_record_result:
  assumes ok: "native_ok b (gv_registry g)" and nat: "be_native b = native_engine scope"
    and res: "check_and_record b c policy_claims g = (r, g')"
  shows "same_lookups b (gv_registry g) (gv_registry g') \<and> gv_trackers g' = gv_trackers g \<and> gv_ledger g' = gv_ledger g \<and>
    (case r of
       Inl _ \<Rightarrow> gv_session g' = gv_session g
     | Inr (d, reason, ev) \<Rightarrow>
         (d = PERMIT \<longleftrightarrow> native_clear scope c (active_policy policy_claims (gv_session g)) (gv_session g) \<and>
           (\<forall>entry \<in> set (pc_additional_policies (active_policy policy_claims (gv_session g))).
              engine_consents b (gv_registry g) (request_of c (active_policy policy_claims (gv_session g)) (gv_session g)) entry)) \<and>
         ge_decision ev = d \<and> ge_side_effect_class ev = call_class c \<and>
         gv_session g' = recorded ev (gv_session g))"
proof -
  let ?s = "gv_session g" and ?p = "active_policy policy_claims (gv_session g)"
  let ?rq = "request_of c ?p ?s" and ?reg = "gv_registry g"
  let ?nd = "projr (native_engine scope ?rq [])"
  have native: "consult_native b ?rq ?reg = (Inr ?nd, snd (get_backend b ''native'' ?reg))"
    using consult_native_result [OF ok] by (simp add: nat native_engine_request)
  obtain more reg' where m: "consult_specs b ?rq (pc_additional_policies ?p) (snd (get_backend b ''native'' ?reg)) = (more, reg')"
    by (cases "consult_specs b ?rq (pc_additional_policies ?p) (snd (get_backend b ''native'' ?reg))")
  have more: "more = mapM (\<lambda>e. fst (consult_spec b ?rq e ?reg)) (pc_additional_policies ?p)" "same_lookups b ?reg reg'"
    using consult_specs_result [of b ?reg "snd (get_backend b ''native'' ?reg)" ?rq "pc_additional_policies ?p"] m by simp_all
  show ?thesis
  proof (cases more)
    case (Inl e)
    then have "r = Inl (EngineError e)" "g' = g\<lparr>gv_registry := reg'\<rparr>"
      using res by (simp_all add: check_and_record_def active_policy_def [symmetric] Let_def native m Inl)
    then show ?thesis using more by simp
  next
    case (Inr others)
    obtain d reason n where v: "verdict (?nd # others) = (d, reason, n)" by (cases "verdict (?nd # others)")
    have "d = PERMIT \<longleftrightarrow> fst (compose_decisions (?nd # others)) = Allow"
      using verdict_PERMIT [of "?nd # others"] v by simp
    also have "\<dots> \<longleftrightarrow> native_clear scope c ?p ?s \<and> (\<forall>pd \<in> set others. pd_decision pd \<noteq> Deny)"
      unfolding compose_Allow by (auto simp: native_engine_request)
    also have "(\<forall>pd \<in> set others. pd_decision pd \<noteq> Deny) \<longleftrightarrow>
        (\<forall>entry \<in> set (pc_additional_policies ?p). engine_consents b ?reg ?rq entry)"
      using more(1) Inr by (intro answers_consent) simp
    finally have dec: "d = PERMIT \<longleftrightarrow> native_clear scope c ?p ?s \<and>
        (\<forall>entry \<in> set (pc_additional_policies ?p). engine_consents b ?reg ?rq entry)" .
    have "r = Inr (d, reason, call_event c ?s d reason n
          (if pc_additional_policies ?p = [] then [] else map event_policy_decision (?nd # others)))"
      and "g' = g\<lparr>gv_registry := reg', gv_session := recorded (call_event c ?s d reason n
          (if pc_additional_policies ?p = [] then [] else map event_policy_decision (?nd # others))) ?s\<rparr>"
      using res by (simp_all add: check_and_record_def active_policy_def [symmetric] recorded_def Let_def native m Inr v)
    then show ?thesis using more(2) dec by simp
  qed
qed

text \<open>C6: A call is permitted exactly when all the built-in checks pass and every engine of the policy answers
  without denying. A permitted call is counted once, in total and in its side-effect class; any other
  outcome leaves the counters as they were.\<close>

theorem gov_permit_iff_all_consent:
  assumes "native_ok b (gv_registry g)" and "be_native b = native_engine scope"
    and "check_and_record b c policy_claims g = (Inr (d, reason, ev), g')"
  shows "(d = PERMIT \<longleftrightarrow> native_clear scope c (active_policy policy_claims (gv_session g)) (gv_session g) \<and>
      (\<forall>entry \<in> set (pc_additional_policies (active_policy policy_claims (gv_session g))).
        engine_consents b (gv_registry g) (request_of c (active_policy policy_claims (gv_session g)) (gv_session g)) entry)) \<and>
    gs_tool_call_count (gv_session g') = gs_tool_call_count (gv_session g) + (if d = PERMIT then 1 else 0) \<and>
    dget (gs_tool_call_count_by_class (gv_session g')) cls 0 =
      dget (gs_tool_call_count_by_class (gv_session g)) cls 0 + (if d = PERMIT \<and> cls = call_class c then 1 else 0)"
  using check_and_record_result [OF assms] by (auto simp: recorded_def count_permit_def Let_def dget_def)

section \<open>The budget of a session\<close>

text \<open>Claims that allow no more than the limits: a ceiling that is no larger, and every cap of the limits at least as tight.\<close>

definition narrows :: "passport_claims \<Rightarrow> passport_claims \<Rightarrow> bool" where
  "narrows policy limits \<longleftrightarrow>
    pc_max_tool_calls policy \<le> pc_max_tool_calls limits \<and>
    (\<forall>cls cap. map_of (pc_max_tool_calls_per_class limits) cls = Some cap \<longrightarrow>
      (\<exists>cap' \<le> cap. map_of (pc_max_tool_calls_per_class policy) cls = Some cap'))"

text \<open>The passport is within the limits, the calls made and the budgets of the children fit in the ceiling, and the
  calls of a capped class in its cap.\<close>

definition budget_ok :: "passport_claims \<Rightarrow> gov_session \<Rightarrow> bool" where
  "budget_ok limits s \<longleftrightarrow>
    narrows (gs_passport_claims s) limits \<and> 0 \<le> gs_tool_call_count s \<and>
    (\<forall>child \<in> set (gs_delegated_children s). 0 \<le> cr_reserved child \<and> cr_child_max_tool_calls child = cr_reserved child) \<and>
    sum_list (map cr_reserved (gs_delegated_children s)) \<le> gs_delegated_budget_reserved s \<and>
    gs_tool_call_count s + gs_delegated_budget_reserved s \<le> max 0 (pc_max_tool_calls limits) \<and>
    (\<forall>cls cap. map_of (pc_max_tool_calls_per_class limits) cls = Some cap \<longrightarrow>
      dget (gs_tool_call_count_by_class s) cls 0 \<le> max 0 cap)"

lemma sum_reserved_nonneg:
  "\<forall>child \<in> set cs. 0 \<le> cr_reserved child \<Longrightarrow> 0 \<le> sum_list (map cr_reserved cs)"
  by (induction cs) auto

lemma native_clear_room:
  assumes "native_clear scope c policy s"
  shows "gs_tool_call_count s < max 0 (pc_max_tool_calls policy - gs_delegated_budget_reserved s)"
    and "map_of (pc_max_tool_calls_per_class policy) (call_class c) = Some cap \<Longrightarrow>
      dget (gs_tool_call_count_by_class s) (call_class c) 0 < cap"
  using assms
  by (auto simp: native_clear_def check_session_budget_def check_per_class_budget_def class_count_def view_of_session_def Let_def
      split: if_splits)

lemma recorded_budget_ok:
  assumes "budget_ok limits s" and "narrows policy limits"
    and "ge_decision ev = PERMIT \<Longrightarrow> native_clear scope c policy s" and "ge_side_effect_class ev = call_class c"
  shows "budget_ok limits (recorded ev s)"
proof (cases "ge_decision ev = PERMIT")
  case True
  have room: "gs_tool_call_count s < max 0 (pc_max_tool_calls policy - gs_delegated_budget_reserved s)"
    using native_clear_room(1) assms(3) True by blast
  have "gs_tool_call_count s + 1 + gs_delegated_budget_reserved s \<le> max 0 (pc_max_tool_calls limits)"
    using room assms(1,2) by (auto simp: narrows_def budget_ok_def)
  moreover have "dget (gs_tool_call_count_by_class s) (call_class c) 0 + 1 \<le> max 0 cap"
    if "map_of (pc_max_tool_calls_per_class limits) (call_class c) = Some cap" for cap
  proof -
    obtain cap' where "cap' \<le> cap" "map_of (pc_max_tool_calls_per_class policy) (call_class c) = Some cap'"
      using assms(2) \<open>map_of (pc_max_tool_calls_per_class limits) (call_class c) = Some cap\<close> by (auto simp: narrows_def)
    then show ?thesis using native_clear_room(2) [OF assms(3) [OF True]] by fastforce
  qed
  ultimately show ?thesis
    using assms(1,4) True by (auto simp: budget_ok_def recorded_def count_permit_def Let_def dget_def)
qed (use assms(1) in \<open>simp add: budget_ok_def recorded_def Let_def\<close>)

lemma downgrade_budget_ok:
  assumes "budget_ok limits s" and "1 \<le> gs_tool_call_count s"
  shows "budget_ok limits (downgrade_last_permit d r n s)"
  using assms by (auto simp: budget_ok_def downgrade_last_permit_def Let_def)

lemma memory_frame:
  assumes "proxy_memory_write eff args s = (r, s') \<or> proxy_memory_read eff args s = (r, s')"
  shows "\<exists>stores. s' = s\<lparr>gs_memory_stores := stores\<rparr>"
proof -
  have "s' = s \<or> (\<exists>stores. s' = s\<lparr>gs_memory_stores := stores\<rparr>)"
    using assms by (auto simp: proxy_memory_write_def proxy_memory_read_def get_or_create_memory_store_def
        split: option.splits if_splits sum.splits)
  then show ?thesis by (metis gov_session.surjective gov_session.update_convs(10))
qed

lemma memory_budget_ok:
  assumes "budget_ok limits s" and "1 \<le> gs_tool_call_count s"
  shows "budget_ok limits (snd (apply_memory_post_permit eff c s))"
proof -
  obtain r s' where m: "(if tc_tool_name c = ''memory_store_write'' then proxy_memory_write else proxy_memory_read)
      eff (tc_arguments c) s = (r, s')" by fastforce
  obtain stores where s': "s' = s\<lparr>gs_memory_stores := stores\<rparr>"
    using memory_frame [of eff "tc_arguments c" s r s'] m by (auto split: if_splits)
  have ok: "budget_ok limits s'" "1 \<le> gs_tool_call_count s'"
    "budget_ok limits (s'\<lparr>gs_memory_compromised_stores := xs\<rparr>)" for xs
    using assms by (simp_all add: s' budget_ok_def)
  show ?thesis
    unfolding apply_memory_post_permit_def m
    using ok assms(1) by (auto simp: Let_def downgrade_budget_ok split: sum.split memory_error.split option.split)
qed

end
