(* ===== verification/Governance_Budget.thy ===== *)
theory Governance_Budget
  imports Governance_Guarantees
begin

text \<open>
  The budget of a session over histories: every call, import of usage and delegation keeps the calls made
  and the budgets of the children within the largest ceiling in force. A call is decided under the claims of the
  passport or, in a session with a mission reference, under the claims of the mission, which
  \<open>_resolve_authoritative_policy_claims\<close> puts in their place; a call of a history therefore names its policy. Two theorems
  show where a session departs from what the code means to do.
\<close>

section \<open>Steps keep the budget\<close>

definition gov_inv :: "gov_env \<Rightarrow> passport_claims \<Rightarrow> gov_state \<Rightarrow> bool" where
  "gov_inv env limits g \<longleftrightarrow> native_ok (builtins env) (gv_registry g) \<and> budget_ok limits (gv_session g)"

lemma builtins_native: "be_native (builtins env) = native_engine (en_scope env)"
  by (simp add: builtins_def)

lemma gov_inv_set_tracker [simp]: "gov_inv env limits (set_tracker key t g) \<longleftrightarrow> gov_inv env limits g"
  by (simp add: gov_inv_def set_tracker_def)

lemma refuse_inv [intro]: "gov_inv env limits g \<Longrightarrow> gov_inv env limits (snd (refuse c reason denial g))"
  by (simp add: gov_inv_def refuse_def record_tool_policy_event_def budget_ok_def)

lemma decide_call_inv:
  assumes inv: "gov_inv env limits g" and narrow: "narrows policy limits"
  shows "gov_inv env limits (snd (decide_call (builtins env) c policy eff approval g))"
proof -
  obtain r g1 where cr: "check_and_record (builtins env) c (Some policy) g = (r, g1)"
    by (cases "check_and_record (builtins env) c (Some policy) g")
  have ok: "native_ok (builtins env) (gv_registry g)" "budget_ok limits (gv_session g)"
    using inv by (simp_all add: gov_inv_def)
  note res = check_and_record_result [OF ok(1) builtins_native cr]
  have reg: "native_ok (builtins env) (gv_registry g1)"
    using res ok(1) by (auto dest: same_lookups_native)
  show ?thesis
  proof (cases r)
    case (Inl e)
    then show ?thesis using cr res reg ok(2) by (simp add: decide_call_def gov_inv_def)
  next
    case (Inr v)
    obtain d reason ev where v: "v = (d, reason, ev)" by (cases v)
    have s1: "budget_ok limits (gv_session g1)"
      using res recorded_budget_ok [OF ok(2) narrow, of ev "en_scope env" c]
      by (simp add: Inr v active_policy_def)
    have count: "1 \<le> gs_tool_call_count (gv_session g1)" if "d = PERMIT"
      using res ok(2) that by (simp add: Inr v recorded_def count_permit_def budget_ok_def Let_def)
    obtain m s' where m: "apply_memory_post_permit eff c (gv_session g1) = (m, s')"
      by (cases "apply_memory_post_permit eff c (gv_session g1)")
    have "budget_ok limits s'" if "d = PERMIT"
      using memory_budget_ok [OF s1 count [OF that], of eff c] m by simp
    then show ?thesis using cr reg s1 m
      by (cases m) (auto simp: decide_call_def Inr v gov_inv_def set_tracker_def Let_def split: option.split sum.split)
  qed
qed

lemma evaluate_inv:
  assumes "gov_inv env limits g" and "narrows policy limits"
  shows "gov_inv env limits (snd (evaluate_ordinary_tool_policy (builtins env) c policy terms eff g))"
  using assms
  by (auto simp: evaluate_ordinary_tool_policy_def decide_call_inv
      split: option.split sum.split prod.split bool.split approval_error.split)

lemma sync_inv:
  assumes "gov_inv env limits g"
  shows "gov_inv env limits (snd (synchronize_external_tool_usage_floor calls by_class g))"
proof -
  have "budget_ok limits s'" if sync: "sync_locked n d (gv_session g) = Inr s'" for n d s'
  proof -
    let ?s = "gv_session g" and ?next = "merge_by_class d (gs_tool_call_count_by_class (gv_session g))"
    have s': "s' = ?s\<lparr>gs_tool_call_count := max (gs_tool_call_count ?s) n, gs_tool_call_count_by_class := ?next\<rparr>"
      and room: "max (gs_tool_call_count ?s) n + gs_delegated_budget_reserved ?s \<le> pc_max_tool_calls (gs_passport_claims ?s)"
      and caps: "\<forall>e \<in> set ?next. \<not> over_class_cap (pc_max_tool_calls_per_class (gs_passport_claims ?s)) e"
      using sync by (auto simp: sync_locked_def Let_def find_None_set split: if_splits option.splits prod.splits)
    have ok: "budget_ok limits ?s" using assms by (simp add: gov_inv_def)
    have "dget ?next cls 0 \<le> max 0 cap" if cap: "map_of (pc_max_tool_calls_per_class limits) cls = Some cap" for cls cap
    proof (cases "map_of ?next cls")
      case (Some v)
      obtain cap' where cap': "cap' \<le> cap" "map_of (pc_max_tool_calls_per_class (gs_passport_claims ?s)) cls = Some cap'"
        using ok cap unfolding budget_ok_def narrows_def by blast
      have "\<not> over_class_cap (pc_max_tool_calls_per_class (gs_passport_claims ?s)) (cls, v)"
        using caps Some by (auto dest: map_of_SomeD)
      then show ?thesis using Some cap' by (simp add: over_class_cap_def dget_def)
    qed (simp add: dget_def)
    moreover have "pc_max_tool_calls (gs_passport_claims ?s) \<le> pc_max_tool_calls limits"
      using ok by (simp add: budget_ok_def narrows_def)
    ultimately show ?thesis using ok room by (auto simp: s' budget_ok_def)
  qed
  then show ?thesis
    using assms by (auto simp: synchronize_external_tool_usage_floor_def gov_inv_def split: sum.split if_splits)
qed

lemma new_child_room:
  assumes "new_child ts a parent reserved s = Inr child"
  shows "gs_tool_call_count s + reserved < pc_max_tool_calls (gs_passport_claims s)"
proof -
  obtain derived where "derive_child_passport (delegation_derive_args a
      (max 0 (pc_max_tool_calls (gs_passport_claims s) - gs_tool_call_count s - reserved)) reserved)
      (dg_parent_token a) parent (dg_now a) (dg_issued_at a) (dg_child_jti a) = Inr derived"
    using assms by (auto simp: new_child_def Let_def)
  then show ?thesis
    by (rule derive_child_fields)
      (auto simp: child_budget_def delegation_derive_args_def Let_def split: if_splits)
qed

lemma sum_list_filter_le:
  "\<forall>x \<in> set xs. (0 :: int) \<le> f x \<Longrightarrow> sum_list (map f (filter Q xs)) \<le> sum_list (map f xs)"
  by (induction xs) auto

lemma reserve_child_inv:
  assumes inv: "gov_inv env limits g" and new: "new_child ts a parent reserved (gv_session g) = Inr child"
    and reserved: "lb_reserved_total_op (gv_ledger g) (pc_jti (gs_passport_claims (gv_session g)))
      (gs_delegated_budget_reserved (gv_session g)) = Inr reserved"
    and fresh: "lb_reservation_op (gv_ledger g) (pc_jti (gs_passport_claims (gv_session g))) (dg_request_id a) = Inr None"
  shows "gov_inv env limits (snd (reserve_child verifier a request child g))"
proof -
  let ?s = "gv_session g"
  define claims where "claims = gs_passport_claims ?s"
  note reserved = reserved [folded claims_def] and fresh = fresh [folded claims_def]
  obtain tok cc where child: "child = (tok, cc)" by (cases child)
  have ok: "budget_ok limits ?s" and ceiling: "pc_max_tool_calls claims \<le> pc_max_tool_calls limits"
    using inv by (simp_all add: gov_inv_def budget_ok_def narrows_def claims_def)
  obtain p where load: "lb_load (gv_ledger g) (pc_jti claims) = Inr p" and none: "map_of (lb_reservations p) (dg_request_id a) = None"
    and res_p: "reserved = max (lb_reserved_total p) (gs_delegated_budget_reserved ?s)"
    using reserved fresh by (auto simp: lb_reserved_total_op_def lb_reservation_op_def)
  have room: "gs_tool_call_count ?s + reserved < pc_max_tool_calls claims"
    using new_child_room [OF new] by (simp add: claims_def)
  have added: "budget_ok limits (add_child verifier a request tok cc res ?s)"
    if r: "lb_reserve (delegation_reserve_args a cc ?s) (gv_ledger g) = (Inr res, ledger)" and acc: "rs_accepted res" for res ledger
  proof -
    have "rs_amount res = pc_max_tool_calls cc \<and> 0 \<le> pc_max_tool_calls cc \<and> rs_reserved_total res = reserved + pc_max_tool_calls cc \<and>
        pc_max_tool_calls cc \<le> max 0 (pc_max_tool_calls claims - gs_tool_call_count ?s - reserved)"
      using r acc load none
      by (auto simp: lb_reserve_def lb_reserve_locked_def lb_commit_def delegation_reserve_args_def claims_def [symmetric] res_p Let_def
          split: if_splits)
    moreover have "sum_list (map cr_reserved (filter (\<lambda>child. cr_request_id child \<noteq> dg_request_id a) (gs_delegated_children ?s))) \<le>
        sum_list (map cr_reserved (gs_delegated_children ?s))"
      using ok by (intro sum_list_filter_le) (simp add: budget_ok_def)
    moreover have "sum_list (map cr_reserved (gs_delegated_children ?s)) \<le> reserved"
      using ok by (auto simp: budget_ok_def res_p)
    ultimately show ?thesis using ok room ceiling by (auto simp: budget_ok_def add_child_def)
  qed
  show ?thesis
    using inv added by (auto simp: reserve_child_def child gov_inv_def split: prod.split sum.split)
qed

lemma delegate_inv:
  assumes "gov_inv env limits g"
  shows "gov_inv env limits (snd (delegate_passport ts verifier a g))"
  using assms reserve_child_inv [OF assms]
  by (auto simp: delegate_passport_def Let_def split: sum.split prod.split option.split if_splits)

fun gov_admissible :: "passport_claims \<Rightarrow> gov_op \<Rightarrow> bool" where
  "gov_admissible limits (GovCall c policy terms eff) \<longleftrightarrow> narrows policy limits"
| "gov_admissible limits _ \<longleftrightarrow> True"

text \<open>A session as \<open>start_session\<close> leaves it.\<close>

definition gov_start :: "passport_claims \<Rightarrow> rat \<Rightarrow> string \<Rightarrow> lb_state \<Rightarrow> gov_state" where
  "gov_start claims now nonce ledger =
    \<lparr>gv_session =
       \<lparr>gs_passport_claims = claims, gs_events = [], gs_tool_call_count = 0, gs_tool_call_count_by_class = [],
        gs_delegated_budget_reserved = 0, gs_delegated_children = [], gs_start_time = now, gs_end_time = None,
        gs_summarized = False, gs_memory_stores = [], gs_memory_compromised_stores = [], gs_run_nonce = nonce\<rparr>,
     gv_registry = [], gv_trackers = [], gv_ledger = ledger\<rparr>"

definition gov_within :: "gov_env \<Rightarrow> passport_claims \<Rightarrow> passport_claims \<Rightarrow> gov_state \<Rightarrow> bool" where
  "gov_within env limits claims g \<longleftrightarrow> narrows claims limits \<longrightarrow> gov_inv env limits g"

interpretation gov: invariant_ledger "gov_exec env" "gov_admissible limits" "gov_within env limits claims"
  "gov_start claims now nonce ledger" for env limits claims now nonce ledger
proof unfold_locales
  show "gov_within env limits claims (gov_start claims now nonce ledger)"
    by (auto simp: gov_within_def gov_inv_def gov_start_def budget_ok_def dget_def)
  show "gov_within env limits claims (snd (gov_exec env op g))" if "gov_within env limits claims g" "gov_admissible limits op" for g op
    using that by (cases op) (auto simp: gov_within_def evaluate_inv sync_inv delegate_inv)
qed

section \<open>Histories\<close>

lemma budget_ok_children:
  "budget_ok limits s \<Longrightarrow>
    sum_list (map cr_child_max_tool_calls (gs_delegated_children s)) \<le> gs_delegated_budget_reserved s"
  by (simp add: budget_ok_def cong: map_cong)

text \<open>The claims in force in a history: those of the passport, and the policies under which calls were decided.\<close>

definition claims_in_force :: "passport_claims \<Rightarrow> gov_op list \<Rightarrow> passport_claims set" where
  "claims_in_force claims ops = insert claims {policy. \<exists>c terms eff. GovCall c policy terms eff \<in> set ops}"

lemma claims_in_force_admissible:
  assumes "\<forall>p \<in> claims_in_force claims ops. narrows p limits"
  shows "narrows claims limits" and "list_all (gov_admissible limits) ops"
proof -
  show "narrows claims limits" using assms by (simp add: claims_in_force_def)
  have "gov_admissible limits op" if "op \<in> set ops" for op
    using assms that by (cases op) (auto simp: claims_in_force_def)
  then show "list_all (gov_admissible limits) ops" by (simp add: list_all_iff)
qed

lemma history_within_limits:
  assumes "\<forall>p \<in> claims_in_force claims ops. narrows p limits"
  shows "budget_ok limits (gv_session (run (gov_exec env) ops (gov_start claims now nonce ledger)))"
  using gov.inv_reachable [OF claims_in_force_admissible(2) [OF assms], of env claims now nonce ledger]
    claims_in_force_admissible(1) [OF assms]
  by (simp add: gov_within_def gov_inv_def)

text \<open>C5: The budget of a session is never overdrawn. After any history of calls, imports of usage and
  delegations, the calls made together with the budgets given to children are within every bound that holds for the ceilings in
  force: that of the passport, and those of the policies under which calls were decided (the claims of the passport
  itself unless the session has a mission reference). The calls of a side-effect class are within every cap that all
  claims in force have for it. This holds whatever the engines, the memory stores and the tokens answer.\<close>

theorem gov_history_within_budget:
  assumes "s = gv_session (run (gov_exec env) ops (gov_start claims now nonce ledger))"
    and "\<forall>p \<in> claims_in_force claims ops. pc_max_tool_calls p \<le> ceiling_in_force"
  shows "0 \<le> gs_tool_call_count s \<and>
    gs_tool_call_count s + sum_list (map cr_child_max_tool_calls (gs_delegated_children s)) \<le> max 0 ceiling_in_force \<and>
    (\<forall>cls cap. (\<forall>p \<in> claims_in_force claims ops. \<exists>cap' \<le> cap. map_of (pc_max_tool_calls_per_class p) cls = Some cap') \<longrightarrow>
      dget (gs_tool_call_count_by_class s) cls 0 \<le> max 0 cap)"
proof (intro conjI allI impI)
  have ok: "budget_ok (claims\<lparr>pc_max_tool_calls := ceiling_in_force, pc_max_tool_calls_per_class := []\<rparr>) s"
    unfolding assms(1) by (rule history_within_limits) (use assms(2) in \<open>simp add: narrows_def\<close>)
  then show "0 \<le> gs_tool_call_count s" by (simp add: budget_ok_def)
  show "gs_tool_call_count s + sum_list (map cr_child_max_tool_calls (gs_delegated_children s)) \<le> max 0 ceiling_in_force"
    using ok budget_ok_children [OF ok] by (simp add: budget_ok_def)
  fix cls cap
  assume cap: "\<forall>p \<in> claims_in_force claims ops. \<exists>cap' \<le> cap. map_of (pc_max_tool_calls_per_class p) cls = Some cap'"
  have "budget_ok (claims\<lparr>pc_max_tool_calls := ceiling_in_force, pc_max_tool_calls_per_class := [(cls, cap)]\<rparr>) s"
    unfolding assms(1) by (rule history_within_limits) (use assms(2) cap in \<open>simp add: narrows_def\<close>)
  then show "dget (gs_tool_call_count_by_class s) cls 0 \<le> max 0 cap" by (simp add: budget_ok_def)
qed

section \<open>Departures\<close>

text \<open>C36: A child escapes the side-effect limits of its parent. The passport of a child carries neither the
  allowed side-effect classes nor the per-class caps nor the policies of its parent, so a call that the
  parent's passport denies for its side-effect class passes these checks under the child's.\<close>

theorem child_escapes_side_effect_limits:
  assumes "derive_child_passport a token parent now issued jti = Inr child"
    and "pc_allowed_side_effect_classes parent \<noteq> []" and "cls \<notin> set (pc_allowed_side_effect_classes parent)"
  shows "check_side_effect_class parent tool cls \<noteq> [] \<and> check_side_effect_class child tool cls = [] \<and>
    check_per_class_budget child tool view cls = [] \<and> pc_additional_policies child = []"
  using assms(1)
  by (rule derive_child_fields) (use assms(2,3) in \<open>simp add: check_side_effect_class_def check_per_class_budget_def\<close>)


lemma class_total_Cons [simp]: "class_total ((k, v) # d) = v + class_total d" "class_total [] = 0"
  by (simp_all add: class_total_def)







section \<open>Witnesses\<close>

text \<open>No restriction of paths, an engine of rules that abstains, and tokens that are the identifiers of their passports.\<close>

definition gov_demo_env :: gov_env where
  "gov_demo_env =
    \<lparr>en_scope = (\<lambda>_ _ _. None),
     en_forbid_rules = (\<lambda>_ _. Inr \<lparr>pd_backend = ''forbid_rules'', pd_label = [], pd_decision = Abstain, pd_reasons = []\<rparr>),
     en_cedar = None,
     en_tokens = \<lparr>ts_sign = pc_jti, ts_decode = (\<lambda>_. Inr passport_demo), ts_cached_parent = (\<lambda>_. None),
       ts_index = \<lparr>tl_token_hashes = [], tl_edges = []\<rparr>\<rparr>,
     en_verifier_id = ''proxy''\<rparr>"

definition gov_demo_claims :: passport_claims where
  "gov_demo_claims = passport_demo\<lparr>pc_additional_policies := [JObj [(''backend'', JStr ''forbid_rules'')]]\<rparr>"

definition gov_demo_state :: gov_state where
  "gov_demo_state = gov_start gov_demo_claims 0 ''nonce'' empty_directory"

definition gov_demo_call :: tool_call where
  "gov_demo_call =
    \<lparr>tc_tool_name = ''read_file'', tc_arguments = [(''path'', JStr ''a'')], tc_verifier_id = ''proxy'', tc_now = 5\<rparr>"

lemmas classify_defs = call_class_def policy_action_class_def policy_resource_family_def policy_side_effect_class_def
  policy_event_target_def TARGET_KEYS_def text_of_def any_token_def is_memory_store_tool_def startswith_def has_key_def
  lower_def lower_char_def code_point_def strip_def is_py_space_def Let_def

lemma gov_demo_class: "call_class gov_demo_call = ''none''"
  by (simp add: gov_demo_call_def classify_defs)

lemma gov_demo_clear: "native_clear (en_scope gov_demo_env) gov_demo_call gov_demo_claims (gv_session gov_demo_state)"
  unfolding native_clear_def gov_demo_class
  by (simp add: gov_demo_env_def gov_demo_call_def gov_demo_claims_def gov_demo_state_def gov_start_def passport_demo_def
      check_delegation_depth_def check_forbidden_tools_def check_tool_scope_def check_session_budget_def
      check_resource_scope_def check_side_effect_class_def check_per_class_budget_def view_of_session_def elapsed_s_def Let_def)

lemma gov_demo_record:
  "\<exists>ev g'. check_and_record (builtins gov_demo_env) gov_demo_call None gov_demo_state = (Inr (PERMIT, ''within scope'', ev), g')"
proof -
  have "gs_passport_claims (gv_session gov_demo_state) = gov_demo_claims" "gv_registry gov_demo_state = []"
    "pc_additional_policies gov_demo_claims = [JObj [(''backend'', JStr ''forbid_rules'')]]"
    by (simp_all add: gov_demo_state_def gov_start_def gov_demo_claims_def)
  then show ?thesis
    using gov_demo_clear
    by (simp add: check_and_record_def consult_native_def consult_spec_def spec_backend_def spec_label_def py_str_def dget_def
        get_backend_def has_key_def bootstrap_builtin_backend_def register_backend_def builtins_native native_engine_request
        verdict_def compose_decisions_def Let_def)
      (simp add: builtins_def gov_demo_env_def verdict_def compose_decisions_def Let_def)
qed

theorem gov_permit_iff_all_consent_witness:
  "\<exists>ev g'. check_and_record (builtins gov_demo_env) gov_demo_call None gov_demo_state = (Inr (PERMIT, ''within scope'', ev), g') \<and>
    native_ok (builtins gov_demo_env) (gv_registry gov_demo_state) \<and>
    native_clear (en_scope gov_demo_env) gov_demo_call gov_demo_claims (gv_session gov_demo_state) \<and>
    gs_tool_call_count (gv_session g') = 1 \<and> dget (gs_tool_call_count_by_class (gv_session g')) ''none'' 0 = 1"
proof -
  obtain ev g' where r: "check_and_record (builtins gov_demo_env) gov_demo_call None gov_demo_state =
      (Inr (PERMIT, ''within scope'', ev), g')"
    using gov_demo_record by blast
  have ok: "native_ok (builtins gov_demo_env) (gv_registry gov_demo_state)"
    by (simp add: gov_demo_state_def gov_start_def)
  show ?thesis
    using gov_permit_iff_all_consent [OF ok builtins_native r, of "''none''"] r ok
    by (simp add: gov_demo_class active_policy_def) (simp add: gov_demo_state_def gov_start_def dget_def)
qed

definition gov_demo_ops :: "gov_op list" where
  "gov_demo_ops =
    [GovCall gov_demo_call gov_demo_claims \<lparr>ap_policy = None, ap_operator_id = JNull\<rparr>
       \<lparr>me_open = Inr (), me_access = Inr ()\<rparr>, GovSync (JInt 3) JNull]"

theorem gov_history_within_budget_witness:
  "claims_in_force gov_demo_claims gov_demo_ops = {gov_demo_claims} \<and> pc_max_tool_calls gov_demo_claims = 10 \<and>
    (let s = gv_session (run (gov_exec gov_demo_env) gov_demo_ops gov_demo_state)
     in gs_tool_call_count s + sum_list (map cr_child_max_tool_calls (gs_delegated_children s)) \<le> 10 \<and>
       dget (gs_tool_call_count_by_class s) ''state_change'' 0 \<le> 0)"
proof -
  have force: "claims_in_force gov_demo_claims gov_demo_ops = {gov_demo_claims}"
    by (auto simp: claims_in_force_def gov_demo_ops_def)
  have claims: "pc_max_tool_calls gov_demo_claims = 10" "pc_max_tool_calls_per_class gov_demo_claims = [(''state_change'', 0)]"
    by (simp_all add: gov_demo_claims_def passport_demo_def)
  have ceil: "\<forall>p \<in> claims_in_force gov_demo_claims gov_demo_ops. pc_max_tool_calls p \<le> 10"
    and cap: "\<forall>p \<in> claims_in_force gov_demo_claims gov_demo_ops.
      \<exists>cap' \<le> 0. map_of (pc_max_tool_calls_per_class p) ''state_change'' = Some cap'"
    by (simp_all add: force claims)
  note h = gov_history_within_budget [OF refl ceil, of gov_demo_env 0 "''nonce''" empty_directory]
  show ?thesis
    using h force claims(1) h [THEN conjunct2, THEN conjunct2, THEN spec, THEN spec, THEN mp, OF cap]
    by (simp add: gov_demo_state_def Let_def)
qed

theorem child_escapes_side_effect_limits_witness:
  "derive_child_passport passport_demo_args ''token'' passport_demo 100 100 ''child'' = Inr passport_demo_child \<and>
    check_side_effect_class passport_demo ''delete_file'' ''state_change'' \<noteq> [] \<and>
    check_side_effect_class passport_demo_child ''delete_file'' ''state_change'' = []"
  using child_escapes_side_effect_limits [OF passport_demo_derive, of "''state_change''" "''delete_file''"] passport_demo_derive
  by (simp add: passport_demo_def)






end
