(* ===== verification/Glob.thy ===== *)
theory Glob
  imports Prelude
begin

text \<open>
  Shell patterns as Go's \<open>filepath.Match\<close> reads them on Unix, which the pattern constraints of
  \<open>pkg/aat/constraints.go\<close> use: chunks between stars, character classes and escapes; a star and a
  question mark do not match a slash. Strings are lists of characters, not of bytes.
\<close>

section \<open>Matching\<close>

datatype glob_error = ErrBadPattern

abbreviation "star_char \<equiv> CHR ''*''"
abbreviation "query_char \<equiv> CHR ''?''"
abbreviation "class_char \<equiv> CHR ''[''"
abbreviation "escape_mark \<equiv> CHR 0x5C"
abbreviation "separator \<equiv> CHR ''/''"

text \<open>\<open>getEsc\<close>: a character of a class, possibly escaped; more must follow it.\<close>

definition get_esc :: "string \<Rightarrow> glob_error + char \<times> string" where
  "get_esc chunk =
    (case chunk of
       [] \<Rightarrow> Inl ErrBadPattern
     | c # cs \<Rightarrow>
         if c = CHR ''-'' \<or> c = CHR '']'' then Inl ErrBadPattern
         else if c = escape_mark
         then (case cs of [] \<Rightarrow> Inl ErrBadPattern | d # ds \<Rightarrow> if ds = [] then Inl ErrBadPattern else Inr (d, ds))
         else if cs = [] then Inl ErrBadPattern else Inr (c, cs))"

lemma get_esc_shorter: "get_esc chunk = Inr (c, rest) \<Longrightarrow> length rest < length chunk \<and> rest \<noteq> []"
  by (auto simp: get_esc_def split: list.splits if_splits)

function class_ranges :: "char \<Rightarrow> bool \<Rightarrow> bool \<Rightarrow> string \<Rightarrow> glob_error + bool \<times> string" where
  "class_ranges r begun matched chunk =
    (if begun \<and> chunk \<noteq> [] \<and> hd chunk = CHR '']'' then Inr (matched, tl chunk)
     else
       (case get_esc chunk of
          Inl e \<Rightarrow> Inl e
        | Inr (lo, rest) \<Rightarrow>
            (case (if hd rest = CHR ''-'' then get_esc (tl rest) else Inr (lo, rest)) of
               Inl e \<Rightarrow> Inl e
             | Inr (hi, rest') \<Rightarrow>
                 class_ranges r True (matched \<or> code_point lo \<le> code_point r \<and> code_point r \<le> code_point hi) rest')))"
  by pat_completeness auto
termination
proof (relation "measure (\<lambda>(_, _, _, chunk). length chunk)", goal_cases)
  case (2 r begun matched chunk lorest lo rest hirest hi rest')
  then have "length rest < length chunk \<and> rest \<noteq> []" using get_esc_shorter [of chunk lo rest] by simp
  moreover have "hd rest = CHR ''-'' \<Longrightarrow> length rest' < length (tl rest)"
    using 2 get_esc_shorter [of "tl rest" hi rest'] by simp
  moreover have "hd rest \<noteq> CHR ''-'' \<Longrightarrow> rest' = rest" using 2 by auto
  ultimately show ?case by (cases rest; cases "hd rest = CHR ''-''") auto
qed simp

declare class_ranges.simps [simp del]

lemma class_ranges_shorter: "class_ranges r begun matched chunk = Inr (m, rest) \<Longrightarrow> length rest < length chunk"
proof (induction r begun matched chunk rule: class_ranges.induct)
  case (1 r begun matched chunk)
  show ?case
  proof (cases "begun \<and> chunk \<noteq> [] \<and> hd chunk = CHR '']''")
    case True
    then have "rest = tl chunk" using "1.prems" by (subst (asm) class_ranges.simps) simp
    then show ?thesis using True by (cases chunk) simp_all
  next
    case False
    then obtain lo rest1 where lo: "get_esc chunk = Inr (lo, rest1)"
      using "1.prems" by (auto simp: class_ranges.simps [of r begun matched chunk] split: sum.splits prod.splits)
    then obtain hi rest2 where hi: "(if hd rest1 = CHR ''-'' then get_esc (tl rest1) else Inr (lo, rest1)) = Inr (hi, rest2)"
      using "1.prems" False
      by (cases "if hd rest1 = CHR ''-'' then get_esc (tl rest1) else Inr (lo, rest1)")
        (auto simp: class_ranges.simps [of r begun matched chunk] split: sum.splits prod.splits if_splits)
    have "length rest2 \<le> length rest1"
      using hi get_esc_shorter [of "tl rest1" hi rest2] by (cases rest1) (auto split: if_splits)
    moreover have "length rest < length rest2"
      using "1.IH" [OF False lo refl hi refl] "1.prems" False lo hi by (simp add: class_ranges.simps [of r begun matched chunk])
    ultimately show ?thesis using get_esc_shorter [OF lo] by linarith
  qed
qed

text \<open>\<open>matchChunk\<close>: what is left of the name, or \<^term>\<open>None\<close> when it does not match; a chunk is read to its end
  in any case.\<close>

function match_chunk :: "bool \<Rightarrow> string \<Rightarrow> string \<Rightarrow> glob_error + string option" where
  "match_chunk failed [] s = Inr (if failed then None else Some s)"
| "match_chunk failed (c # cs) s =
    (let failed' = (failed \<or> s = []); s' = (if failed' then s else tl s) in
     if c = class_char then
       (let negated = (cs \<noteq> [] \<and> hd cs = CHR ''^'') in
        case class_ranges (if failed' then CHR 0x00 else hd s) False False (if negated then tl cs else cs) of
          Inl e \<Rightarrow> Inl e
        | Inr (matched, rest) \<Rightarrow> match_chunk (failed' \<or> matched = negated) rest s')
     else if c = query_char then match_chunk (failed' \<or> hd s = separator) cs s'
     else if c = escape_mark then
       (case cs of
          [] \<Rightarrow> Inl ErrBadPattern
        | d # ds \<Rightarrow> match_chunk (failed' \<or> d \<noteq> hd s) ds s')
     else match_chunk (failed' \<or> c \<noteq> hd s) cs s')"
  by pat_completeness auto
termination
proof (relation "measure (\<lambda>(_, chunk, _). length chunk)", goal_cases)
  case (2 failed c cs s failed' s' negated res matched rest)
  have "length rest < length (if negated then tl cs else cs)"
    using class_ranges_shorter 2 by metis
  then show ?case by (auto split: if_splits)
qed auto

text \<open>\<open>scanChunk\<close>: a run of stars, and the text up to the next star outside a class.\<close>

fun scan_text :: "bool \<Rightarrow> string \<Rightarrow> string \<times> string" where
  "scan_text in_class [] = ([], [])"
| "scan_text in_class (c # cs) =
    (if c = escape_mark then
       (case cs of
          [] \<Rightarrow> ([c], [])
        | d # ds \<Rightarrow> (let (chunk, rest) = scan_text in_class ds in (c # d # chunk, rest)))
     else if c = star_char \<and> \<not> in_class then ([], c # cs)
     else
       let (chunk, rest) = scan_text (c = class_char \<or> c \<noteq> CHR '']'' \<and> in_class) cs
       in (c # chunk, rest))"

definition scan_chunk :: "string \<Rightarrow> bool \<times> string \<times> string" where
  "scan_chunk p = (let q = dropWhile (\<lambda>c. c = star_char) p in (q \<noteq> p, scan_text False q))"

lemma scan_text_append: "fst (scan_text k p) @ snd (scan_text k p) = p"
proof (induction k p rule: scan_text.induct)
  case (2 in_class c cs)
  show ?case
  proof (cases "c = escape_mark")
    case True
    then show ?thesis using 2(1) by (cases cs) (simp_all add: case_prod_beta Let_def)
  next
    case False
    then show ?thesis using 2(2) by (simp add: case_prod_beta Let_def)
  qed
qed simp

lemma scan_chunk_shorter: "p \<noteq> [] \<Longrightarrow> scan_chunk p = (star, chunk, rest) \<Longrightarrow> length rest < length p"
proof -
  assume "p \<noteq> []" and sc: "scan_chunk p = (star, chunk, rest)"
  obtain c cs where p: "p = c # cs" using \<open>p \<noteq> []\<close> by (cases p) auto
  have "length (dropWhile (\<lambda>c. c = star_char) cs) \<le> length cs" by (rule length_dropWhile_le)
  moreover have "length (snd (scan_text False q)) \<le> length q" for q
    using scan_text_append [of False q] by (metis le_add2 length_append)
  moreover have "length (snd (scan_text False p)) < length p" if "c \<noteq> star_char"
  proof -
    have "fst (scan_text False p) \<noteq> []" using that by (cases cs) (simp_all add: p case_prod_beta Let_def)
    then show ?thesis using scan_text_append [of False p] by (metis length_append length_greater_0_conv less_add_same_cancel2)
  qed
  moreover have "rest = snd (scan_text False (dropWhile (\<lambda>c. c = star_char) p))"
    using sc by (simp add: scan_chunk_def Let_def)
  ultimately show "length rest < length p"
    by (cases "c = star_char") (auto simp: p less_Suc_eq_le intro: order_trans)
qed

text \<open>The loop after a star: the chunk at later places, not beyond a slash.\<close>

fun star_search :: "string \<Rightarrow> bool \<Rightarrow> string \<Rightarrow> glob_error + string option" where
  "star_search chunk is_last [] = Inr None"
| "star_search chunk is_last (c # cs) =
    (if c = separator then Inr None
     else
       (case match_chunk False chunk cs of
          Inl e \<Rightarrow> Inl e
        | Inr None \<Rightarrow> star_search chunk is_last cs
        | Inr (Some t) \<Rightarrow> if is_last \<and> t \<noteq> [] then star_search chunk is_last cs else Inr (Some t)))"

text \<open>The rest of a pattern that did not match is still checked.\<close>

function check_rest :: "string \<Rightarrow> glob_error + bool" where
  "check_rest p =
    (if p = [] then Inr False
     else (case scan_chunk p of
       (star, chunk, rest) \<Rightarrow>
         (case match_chunk False chunk [] of
            Inl e \<Rightarrow> Inl e
          | Inr _ \<Rightarrow> check_rest rest)))"
  by pat_completeness auto
termination
  by (relation "measure length") (auto intro: scan_chunk_shorter [OF _ sym])

function glob_match :: "string \<Rightarrow> string \<Rightarrow> glob_error + bool" where
  "glob_match p name =
    (if p = [] then Inr (name = [])
     else (case scan_chunk p of
       (star, chunk, rest) \<Rightarrow>
         if star \<and> chunk = [] then Inr (separator \<notin> set name)
         else (case match_chunk False chunk name of
           Inl e \<Rightarrow> Inl e
         | Inr r \<Rightarrow>
             if r \<noteq> None \<and> (the r = [] \<or> rest \<noteq> []) then glob_match rest (the r)
             else (case (if star then star_search chunk (rest = []) name else Inr None) of
               Inl e \<Rightarrow> Inl e
             | Inr None \<Rightarrow> check_rest rest
             | Inr (Some t) \<Rightarrow> glob_match rest t))))"
  by pat_completeness auto
termination
  by (relation "measure (\<lambda>(p, _). length p)") (auto intro: scan_chunk_shorter [OF _ sym])

declare check_rest.simps [simp del] glob_match.simps [simp del]

section \<open>Patterns without classes and escapes\<close>

definition literal :: "string \<Rightarrow> bool" where
  "literal p \<longleftrightarrow> set p \<inter> {star_char, query_char, class_char, escape_mark} = {}"

definition within_segment :: "string \<Rightarrow> bool" where
  "within_segment p \<longleftrightarrow> set p \<inter> {class_char, escape_mark, separator} = {}"

lemma literal_simps [simp]:
  "literal []"
  "literal (c # p) \<longleftrightarrow> c \<notin> {star_char, query_char, class_char, escape_mark} \<and> literal p"
  by (auto simp: literal_def)

lemma within_segment_simps [simp]:
  "within_segment []"
  "within_segment (c # p) \<longleftrightarrow> c \<notin> {class_char, escape_mark, separator} \<and> within_segment p"
  "within_segment (p @ q) \<longleftrightarrow> within_segment p \<and> within_segment q"
  by (auto simp: within_segment_def)

lemma match_chunk_failed: "match_chunk True chunk s \<noteq> Inr (Some t)"
  by (induction "True" chunk s rule: match_chunk.induct) (auto simp: Let_def split: sum.splits list.splits if_splits)

lemma match_chunk_literal:
  "literal p \<Longrightarrow> match_chunk False (p @ q) s = Inr (Some t) \<longleftrightarrow>
    (\<exists>s'. s = p @ s' \<and> match_chunk False q s' = Inr (Some t))"
proof (induction p arbitrary: s)
  case (Cons c p)
  show ?case
  proof (cases "s \<noteq> [] \<and> hd s = c")
    case True
    then obtain s1 where "s = c # s1" by (cases s) auto
    then show ?thesis using Cons by (simp add: Let_def)
  next
    case False
    then show ?thesis using Cons.prems by (auto simp: Let_def match_chunk_failed)
  qed
qed simp

lemma match_chunk_within_segment:
  "within_segment chunk \<Longrightarrow> match_chunk False chunk s = Inr (Some t) \<Longrightarrow>
    \<exists>u. s = u @ t \<and> separator \<notin> set u"
proof (induction chunk arbitrary: s)
  case (Cons c chunk)
  show ?case
  proof (cases s)
    case Nil
    then show ?thesis using Cons.prems by (auto simp: Let_def match_chunk_failed split: if_splits)
  next
    case (Cons d s')
    have "d \<noteq> separator \<and> match_chunk False chunk s' = Inr (Some t)"
      using Cons.prems Cons by (cases "d = separator"; cases "c = d") (auto simp: Let_def match_chunk_failed split: if_splits)
    then show ?thesis using Cons.IH [of s'] Cons.prems Cons by (auto intro: exI [of _ "d # _"])
  qed
qed (auto intro: exI [of _ "[]"])

lemma star_search_within_segment:
  "within_segment chunk \<Longrightarrow> star_search chunk is_last s = Inr (Some t) \<Longrightarrow>
    \<exists>u. s = u @ t \<and> separator \<notin> set u"
proof (induction s)
  case (Cons c s)
  have c: "c \<noteq> separator" using Cons.prems by (auto split: if_splits)
  have "\<exists>u. s = u @ t \<and> separator \<notin> set u"
    using Cons.prems Cons.IH c match_chunk_within_segment [OF Cons.prems(1)]
    by (auto split: sum.splits option.splits if_splits)
  then show ?case using c by (auto intro: exI [of _ "c # _"])
qed simp

lemma check_rest_not_true: "check_rest p \<noteq> Inr True"
  by (induction p rule: check_rest.induct) (subst check_rest.simps, auto split: sum.splits prod.splits)

lemma scan_chunk_append: "scan_chunk p = (star, chunk, rest) \<Longrightarrow> set chunk \<union> set rest \<subseteq> set p"
proof -
  assume "scan_chunk p = (star, chunk, rest)"
  then have "chunk @ rest = dropWhile (\<lambda>c. c = star_char) p"
    using scan_text_append [of False "dropWhile (\<lambda>c. c = star_char) p"] by (simp add: scan_chunk_def Let_def)
  then have "set chunk \<union> set rest = set (dropWhile (\<lambda>c. c = star_char) p)" by (metis set_append)
  then show ?thesis using set_dropWhileD [of _ "\<lambda>c. c = star_char" p] by simp blast
qed

text \<open>A pattern without classes, escapes and slashes only matches names without a slash.\<close>

lemma glob_match_within_segment:
  "within_segment p \<Longrightarrow> glob_match p s = Inr True \<Longrightarrow> separator \<notin> set s"
proof (induction p s rule: glob_match.induct)
  case (1 p s)
  show ?case
  proof (cases "p = []")
    case True
    then show ?thesis using "1.prems" by (simp add: glob_match.simps [of "[]"])
  next
    case False
    obtain star chunk rest where sc: "scan_chunk p = (star, chunk, rest)" by (metis prod_cases3)
    then have seg: "within_segment chunk" "within_segment rest"
      using "1.prems"(1) scan_chunk_append [OF sc] by (auto simp: within_segment_def)
    show ?thesis
    proof (cases "star \<and> chunk = []")
      case True
      then show ?thesis using "1.prems" sc False by (simp add: glob_match.simps [of p])
    next
      case nostar: False
      then obtain r where r: "match_chunk False chunk s = Inr r"
        using "1.prems" sc False by (auto simp: glob_match.simps [of p] split: sum.splits)
      show ?thesis
      proof (cases "r \<noteq> None \<and> (the r = [] \<or> rest \<noteq> [])")
        case True
        then have "separator \<notin> set (the r)"
          using "1.IH"(1) [OF False sc [symmetric] refl nostar r True seg(2)] "1.prems" sc False nostar r
          by (simp add: glob_match.simps [of p])
        then show ?thesis using match_chunk_within_segment [OF seg(1)] r True by fastforce
      next
        case later: False
        then obtain t where t: "(if star then star_search chunk (rest = []) s else Inr None) = Inr (Some t)"
          and m: "glob_match rest t = Inr True"
          using "1.prems" sc False nostar r
          by (auto simp: glob_match.simps [of p] check_rest_not_true split: sum.splits option.splits if_splits)
        have "separator \<notin> set t" using "1.IH"(2) [OF False sc [symmetric] refl nostar r later t refl seg(2) m] .
        then show ?thesis using star_search_within_segment [OF seg(1)] t by (fastforce split: if_splits)
      qed
    qed
  qed
qed

text \<open>A literal beginning of a pattern is matched by itself.\<close>

lemma scan_text_literal:
  "literal p \<Longrightarrow> scan_text False (p @ r) = (p @ fst (scan_text False r), snd (scan_text False r))"
  by (induction p) auto

lemma scan_chunk_literal:
  "literal p \<Longrightarrow> p \<noteq> [] \<Longrightarrow> scan_chunk (p @ r) = (False, p @ fst (scan_text False r), snd (scan_text False r))"
  by (cases p) (auto simp: scan_chunk_def Let_def scan_text_literal)

lemma glob_match_no_star:
  assumes "p \<noteq> []" "scan_chunk p = (False, chunk, rest)"
  shows "glob_match p s = Inr True \<longleftrightarrow>
    (\<exists>t. match_chunk False chunk s = Inr (Some t) \<and> (t = [] \<or> rest \<noteq> []) \<and> glob_match rest t = Inr True)"
  using assms by (auto simp: glob_match.simps [of p] check_rest_not_true split: sum.splits)

lemma scan_chunk_star_free:
  "r \<noteq> [] \<Longrightarrow> hd r \<noteq> star_char \<Longrightarrow> scan_chunk r = (False, fst (scan_text False r), snd (scan_text False r))"
  by (cases r) (auto simp: scan_chunk_def Let_def)

lemma glob_match_literal:
  assumes "literal p" "glob_match (p @ r) s = Inr True"
  obtains s' where "s = p @ s'" "glob_match r s' = Inr True"
proof (cases "p = []")
  case False
  obtain t where t: "match_chunk False (p @ fst (scan_text False r)) s = Inr (Some t)"
      "t = [] \<or> snd (scan_text False r) \<noteq> []" "glob_match (snd (scan_text False r)) t = Inr True"
    using assms False by (auto simp: glob_match_no_star [OF _ scan_chunk_literal])
  then obtain s' where s': "s = p @ s'" "match_chunk False (fst (scan_text False r)) s' = Inr (Some t)"
    using match_chunk_literal [OF assms(1)] by blast
  have "glob_match r s' = Inr True"
  proof (cases "r = [] \<or> hd r = star_char")
    case True
    then have "scan_text False r = ([], r)" by (cases r) auto
    then show ?thesis using t s' by simp
  next
    case False
    then show ?thesis using t s' by (simp add: glob_match_no_star [OF _ scan_chunk_star_free])
  qed
  then show ?thesis using that s' by blast
qed (use that assms in simp)

lemma glob_match_prefix:
  assumes "literal p" "separator \<notin> set s"
  shows "glob_match (p @ [star_char]) (p @ s) = Inr True"
proof -
  have star: "glob_match [star_char] s = Inr True"
    using assms(2) by (simp add: glob_match.simps scan_chunk_def)
  show ?thesis
  proof (cases "p = []")
    case False
    have "match_chunk False p (p @ s) = Inr (Some s)"
      using match_chunk_literal [OF assms(1), of "[]"] by simp
    then show ?thesis using star assms(1) False by (simp add: glob_match_no_star [OF _ scan_chunk_literal])
  qed (use star in simp)
qed

text \<open>Extending a literal prefix within one path segment narrows the pattern.\<close>

lemma glob_match_narrowing:
  assumes "literal p" "within_segment q" "glob_match (p @ q @ [star_char]) s = Inr True"
  shows "glob_match (p @ [star_char]) s = Inr True"
proof -
  obtain s' where s': "s = p @ s'" "glob_match (q @ [star_char]) s' = Inr True"
    using glob_match_literal [OF assms(1,3)] by blast
  then have "separator \<notin> set s'"
    using glob_match_within_segment [of "q @ [star_char]"] assms(2) by simp
  then show ?thesis using glob_match_prefix [OF assms(1)] s' by simp
qed

end
