(* ===== verification/Clause_Matching.thy ===== *)
theory Clause_Matching
  imports Prelude "HOL-Library.Multiset"
begin

text \<open>
  The bipartite matching inside \<open>matchAllClauses\<close> (\<open>pkg/aat/constraints.go\<close>): every parent clause
  needs a child clause of its own. The search for augmenting paths finds a matching exactly when there is one.
\<close>

section \<open>The search\<close>

text \<open>How many children a search has not seen yet.\<close>

definition unseen :: "bool list \<Rightarrow> nat" where
  "unseen seen = length (filter Not seen)"

lemma unseen_update: "j < length seen \<Longrightarrow> \<not> seen ! j \<Longrightarrow> unseen (seen[j := True]) < unseen seen"
proof (induction seen arbitrary: j)
  case (Cons b seen)
  then show ?case by (cases j) (auto simp: unseen_def)
qed simp

text \<open>The closure \<open>augment\<close>: the slices \<open>seen\<close> and \<open>matchedParent\<close> that it changes are passed along; \<open>-1\<close> is
  \<^term>\<open>None\<close>. The argument \<open>js\<close> is what is left of \<open>edges[parentIndex]\<close>. Edges are indices of \<open>seen\<close>; others
  are skipped here.\<close>

function augment ::
  "nat list list \<Rightarrow> nat \<Rightarrow> nat list \<Rightarrow> bool list \<Rightarrow> nat option list \<Rightarrow> bool \<times> bool list \<times> nat option list" where
  "augment edges i [] seen matched = (False, seen, matched)"
| "augment edges i (j # js) seen matched =
    (if length seen \<le> j \<or> seen ! j then augment edges i js seen matched
     else
       let seen' = seen[j := True] in
       case matched ! j of
         None \<Rightarrow> (True, seen', matched[j := Some i])
       | Some k \<Rightarrow>
           (case augment edges k (edges ! k) seen' matched of
              (ok, seen'', matched') \<Rightarrow>
                if ok then (True, seen'', matched'[j := Some i])
                else augment edges i js seen'' matched'))"
  by pat_completeness auto

termination
proof -
  have partial: "augment_dom (edges, i, js, seen, matched) \<Longrightarrow>
      unseen (fst (snd (augment edges i js seen matched))) \<le> unseen seen" for edges i js seen matched
  proof (induction edges i js seen matched rule: augment.pinduct)
    case (2 edges i j js seen matched)
    show ?case
    proof (cases "length seen \<le> j \<or> seen ! j")
      case False
      obtain ok seen2 matched2 where aug: "augment edges (the (matched ! j)) (edges ! the (matched ! j)) (seen[j := True]) matched
          = (ok, seen2, matched2)"
        by (metis prod_cases3)
      have le: "unseen (seen[j := True]) \<le> unseen seen" using False unseen_update [of j seen] by simp
      have IH2: "matched ! j = Some k \<Longrightarrow> unseen seen2 \<le> unseen (seen[j := True])" for k
        using 2(3) [OF False refl] aug by simp
      have IH3: "matched ! j = Some k \<Longrightarrow> \<not> ok \<Longrightarrow> unseen (fst (snd (augment edges i js seen2 matched2))) \<le> unseen seen2" for k
        using 2(4) [OF False refl _ _ refl] aug by simp
      show ?thesis
        using False le IH2 IH3 aug
        by (cases "matched ! j"; cases ok) (auto simp: augment.psimps(2) [OF 2(1)] Let_def intro: le_trans)
    qed (use 2 in \<open>simp add: augment.psimps\<close>)
  qed (simp add: augment.psimps)
  show ?thesis
  proof (relation "measures [\<lambda>(_, _, _, seen, _). unseen seen, \<lambda>(_, _, js, _, _). length js]", goal_cases)
    case (4 edges i j js seen matched seen' k ok y seen'' matched')
    then have "unseen seen'' \<le> unseen seen'"
      using partial [of edges k "edges ! k" seen' matched]
      by (cases "augment edges k (edges ! k) seen' matched") simp
    then show ?case using 4 unseen_update [of j seen] by auto
  qed (use unseen_update in \<open>simp_all\<close>)
qed

fun match_parents :: "nat list list \<Rightarrow> nat option list \<Rightarrow> nat list \<Rightarrow> bool" where
  "match_parents edges matched [] = True"
| "match_parents edges matched (i # is) =
    (case augment edges i (edges ! i) (replicate (length matched) False) matched of
       (ok, _, matched') \<Rightarrow> ok \<and> match_parents edges matched' is)"

definition match_edges :: "nat list list \<Rightarrow> nat \<Rightarrow> bool" where
  "match_edges edges n = match_parents edges (replicate n None) [0..<length edges]"

section \<open>What one search does\<close>

text \<open>A search that fails changes no assignment, and everything it has newly seen is assigned to a parent
  whose edges have all been seen.\<close>

definition closed_seen :: "nat list list \<Rightarrow> nat option list \<Rightarrow> bool list \<Rightarrow> bool list \<Rightarrow> bool" where
  "closed_seen edges matched seen seen' \<longleftrightarrow> length seen' = length seen \<and>
    (\<forall>j<length seen. (seen ! j \<longrightarrow> seen' ! j) \<and>
      (seen' ! j \<longrightarrow> \<not> seen ! j \<longrightarrow> (\<exists>p. matched ! j = Some p \<and>
        (\<forall>j'\<in>set (edges ! p). j' < length seen \<longrightarrow> seen' ! j'))))"

lemma augment_failed:
  "augment edges i js seen matched = (False, seen', matched') \<Longrightarrow>
    matched' = matched \<and> closed_seen edges matched seen seen' \<and> (\<forall>j\<in>set js. j < length seen \<longrightarrow> seen' ! j)"
proof (induction edges i js seen matched arbitrary: seen' matched' rule: augment.induct)
  case (1 edges i seen matched)
  then show ?case by (simp add: closed_seen_def)
next
  case (2 edges i j js seen matched)
  show ?case
  proof (cases "length seen \<le> j \<or> seen ! j")
    case True
    then have "augment edges i js seen matched = (False, seen', matched')" using "2.prems" by simp
    from "2.IH"(1) [OF True this] show ?thesis using True by (auto simp: closed_seen_def)
  next
    case False
    obtain k where k: "matched ! j = Some k" using "2.prems" False by (auto simp: Let_def split: option.splits)
    obtain seen2 matched2 where aug: "augment edges k (edges ! k) (seen[j := True]) matched = (False, seen2, matched2)"
      and rest: "augment edges i js seen2 matched2 = (False, seen', matched')"
      using "2.prems" False k by (auto simp: Let_def split: prod.splits if_splits)
    have a: "matched2 = matched" "closed_seen edges matched (seen[j := True]) seen2"
        "\<forall>j'\<in>set (edges ! k). j' < length seen \<longrightarrow> seen2 ! j'"
      using "2.IH"(2) [OF False refl k aug] by auto
    have b: "matched' = matched2" "closed_seen edges matched2 seen2 seen'" "\<forall>j'\<in>set js. j' < length seen2 \<longrightarrow> seen' ! j'"
      using "2.IH"(3) [OF False refl k aug [symmetric] refl _ rest] by auto
    have len: "length seen2 = length seen" using a(2) by (simp add: closed_seen_def)
    have grows: "seen2 ! j' \<Longrightarrow> j' < length seen \<Longrightarrow> seen' ! j'" for j'
      using b(2) len by (simp add: closed_seen_def)
    have j2: "seen2 ! j" using a(2) False by (auto simp: closed_seen_def)
    have "closed_seen edges matched seen seen'"
      unfolding closed_seen_def
    proof (intro conjI allI impI)
      show "length seen' = length seen" using b(2) len by (simp add: closed_seen_def)
    next
      fix l assume "l < length seen" "seen ! l"
      then have "seen[j := True] ! l" by (cases "l = j") simp_all
      then show "seen' ! l" using a(2) grows [of l] \<open>l < length seen\<close> by (simp add: closed_seen_def)
    next
      fix l assume l: "l < length seen" "seen' ! l" "\<not> seen ! l"
      show "\<exists>p. matched ! l = Some p \<and> (\<forall>j'\<in>set (edges ! p). j' < length seen \<longrightarrow> seen' ! j')"
      proof (cases "seen2 ! l")
        case True
        then show ?thesis using a(2,3) k grows l by (cases "l = j") (auto simp: closed_seen_def)
      next
        case False
        then show ?thesis using b(2) a(1) l len by (auto simp: closed_seen_def)
      qed
    qed
    then show ?thesis using a(1) b(1,3) len grows j2 by auto
  qed
qed

text \<open>A search that succeeds keeps what was seen before, and assigns one free child more.\<close>

lemma mset_update_swap: "j < length xs \<Longrightarrow> mset (xs[j := y]) + {#xs ! j#} = mset xs + {#y#}"
  by (simp add: mset_update)

lemma augment_found:
  "augment edges i js seen matched = (True, seen', matched') \<Longrightarrow> length seen = length matched \<Longrightarrow>
    length matched' = length matched \<and> mset matched' + {#None#} = mset matched + {#Some i#} \<and>
    (\<forall>j<length matched. seen ! j \<longrightarrow> matched' ! j = matched ! j)"
proof (induction edges i js seen matched arbitrary: seen' matched' rule: augment.induct)
  case (2 edges i j js seen matched)
  show ?case
  proof (cases "length seen \<le> j \<or> seen ! j")
    case True
    then have "augment edges i js seen matched = (True, seen', matched')" using "2.prems"(1) by simp
    from "2.IH"(1) [OF True this "2.prems"(2)] show ?thesis .
  next
    case False
    show ?thesis
    proof (cases "matched ! j")
      case None
      then have "matched' = matched[j := Some i]" using "2.prems" False by (simp add: Let_def)
      then show ?thesis using mset_update_swap [of j matched "Some i"] None False "2.prems"(2)
        by (auto simp: nth_list_update)
    next
      case (Some k)
      obtain ok seen2 matched2 where aug: "augment edges k (edges ! k) (seen[j := True]) matched = (ok, seen2, matched2)"
        by (metis prod_cases3)
      show ?thesis
      proof (cases ok)
        case True
        then have m: "matched' = matched2[j := Some i]" using "2.prems" False Some aug by (simp add: Let_def)
        have a: "length matched2 = length matched" "mset matched2 + {#None#} = mset matched + {#Some k#}"
            "\<forall>l<length matched. seen[j := True] ! l \<longrightarrow> matched2 ! l = matched ! l"
          using "2.IH"(2) [OF False refl Some, of seen2 matched2] aug True "2.prems"(2) by auto
        then have j: "matched2 ! j = Some k" using Some False "2.prems"(2) by auto
        have "mset matched' + {#Some k#} + {#None#} = mset matched + {#Some i#} + {#Some k#}"
          using mset_update_swap [of j matched2 "Some i"] a(1,2) j m False "2.prems"(2)
          by (simp add: union_commute union_lcomm add_mset_commute)
        then show ?thesis using a m False "2.prems"(2) by (auto simp: nth_list_update)
      next
        case False2: False
        then have rest: "augment edges i js seen2 matched2 = (True, seen', matched')"
          using "2.prems" False Some aug by (simp add: Let_def)
        have f: "matched2 = matched" "closed_seen edges matched (seen[j := True]) seen2"
          using augment_failed [of edges k "edges ! k" "seen[j := True]" matched seen2 matched2] aug False2 by simp_all
        have "length matched' = length matched2 \<and> mset matched' + {#None#} = mset matched2 + {#Some i#} \<and>
            (\<forall>l<length matched2. seen2 ! l \<longrightarrow> matched' ! l = matched2 ! l)"
          using "2.IH"(3) [OF False refl Some aug [symmetric] refl False2 rest] f "2.prems"(2) by (simp add: closed_seen_def)
        moreover have "seen2 ! l" if "seen ! l" "l < length matched" for l
          using f(2) that "2.prems"(2) by (cases "l = j") (auto simp: closed_seen_def)
        ultimately show ?thesis using f(1) by auto
      qed
    qed
  qed
qed simp

definition along_edges :: "nat list list \<Rightarrow> nat option list \<Rightarrow> bool" where
  "along_edges edges matched \<longleftrightarrow> (\<forall>j<length matched. \<forall>p. matched ! j = Some p \<longrightarrow> j \<in> set (edges ! p))"

lemma along_edges_update:
  "along_edges edges matched \<Longrightarrow> j \<in> set (edges ! i) \<Longrightarrow> along_edges edges (matched[j := Some i])"
  by (auto simp: along_edges_def) (metis nth_list_update_eq nth_list_update_neq option.inject)

lemma augment_along_edges:
  "augment edges i js seen matched = (ok, seen', matched') \<Longrightarrow> set js \<subseteq> set (edges ! i) \<Longrightarrow>
    along_edges edges matched \<Longrightarrow> along_edges edges matched'"
proof (induction edges i js seen matched arbitrary: ok seen' matched' rule: augment.induct)
  case (2 edges i j js seen matched)
  show ?case
  proof (cases "length seen \<le> j \<or> seen ! j")
    case True
    then have "augment edges i js seen matched = (ok, seen', matched')" using "2.prems"(1) by simp
    from "2.IH"(1) [OF True this] show ?thesis using "2.prems" by simp
  next
    case False
    show ?thesis
    proof (cases "matched ! j")
      case None
      then show ?thesis using "2.prems" False along_edges_update by (auto simp: Let_def)
    next
      case (Some k)
      obtain ok2 seen2 matched2 where aug: "augment edges k (edges ! k) (seen[j := True]) matched = (ok2, seen2, matched2)"
        by (metis prod_cases3)
      have m2: "along_edges edges matched2"
        using "2.IH"(2) [OF False refl Some aug] "2.prems"(3) by simp
      show ?thesis
      proof (cases ok2)
        case True
        then show ?thesis using "2.prems" False Some aug m2 along_edges_update by (auto simp: Let_def)
      next
        case no: False
        then have "augment edges i js seen2 matched2 = (ok, seen', matched')"
          using "2.prems"(1) False Some aug by (simp add: Let_def)
        from "2.IH"(3) [OF False refl Some aug [symmetric] refl no this] show ?thesis using "2.prems" m2 by simp
      qed
    qed
  qed
qed simp

section \<open>The search decides whether there is a matching\<close>

definition matching :: "nat list list \<Rightarrow> (nat \<Rightarrow> nat) \<Rightarrow> bool" where
  "matching edges f \<longleftrightarrow> inj_on f {..<length edges} \<and> (\<forall>i<length edges. f i \<in> set (edges ! i))"

definition assigned_upto :: "nat \<Rightarrow> nat option list \<Rightarrow> bool" where
  "assigned_upto k matched \<longleftrightarrow> (\<forall>p. count (mset matched) (Some p) = (if p < k then 1 else 0))"

lemma count_nth_unique:
  assumes "count (mset xs) x \<le> 1" "j < length xs" "xs ! j = x" "j' < length xs" "xs ! j' = x"
  shows "j = j'"
proof -
  have "count (mset xs) x = card {i. i < length xs \<and> xs ! i = x}"
    by (simp add: count_mset count_list_eq_length_filter length_filter_conv_card eq_commute)
  then show ?thesis using assms card_le_Suc0_iff_eq [of "{i. i < length xs \<and> xs ! i = x}"] by auto
qed

lemma assigned_upto_step:
  assumes "assigned_upto k matched" "mset matched' + {#None#} = mset matched + {#Some k#}"
  shows "assigned_upto (Suc k) matched'"
  unfolding assigned_upto_def
proof
  fix p
  have "count (mset matched') (Some p) = count (mset matched' + {#None#}) (Some p)" by simp
  then show "count (mset matched') (Some p) = (if p < Suc k then 1 else 0)"
    using assms(1) by (simp only: assms(2)) (auto simp: assigned_upto_def)
qed

lemma augment_failed_no_matching:
  assumes failed: "augment edges k (edges ! k) (replicate (length matched) False) matched = (False, seen', matched')"
    and upto: "assigned_upto k matched" and k: "k < length edges"
    and edges_ok: "\<forall>p<length edges. set (edges ! p) \<subseteq> {..<length matched}"
  shows "\<not> matching edges f"
proof
  assume f: "matching edges f"
  define T where "T = {j. j < length matched \<and> seen' ! j}"
  define g where "g j = the (matched ! j)" for j
  have T: "matched ! j = Some (g j) \<and> g j < k \<and> (\<forall>j'\<in>set (edges ! g j). j' < length matched \<longrightarrow> j' \<in> T)" if jT: "j \<in> T" for j
  proof -
    obtain p where p: "matched ! j = Some p" "\<forall>j'\<in>set (edges ! p). j' < length matched \<longrightarrow> seen' ! j'"
      using augment_failed [OF failed] jT by (auto simp: closed_seen_def T_def)
    then have "count (mset matched) (Some p) > 0" using jT by (metis (mono_tags, lifting) T_def count_greater_zero_iff mem_Collect_eq nth_mem_mset)
    then have "p < k" using upto by (auto simp: assigned_upto_def split: if_splits)
    then show ?thesis using p by (auto simp: T_def g_def)
  qed
  have inj: "inj_on g T"
  proof (rule inj_onI)
    fix j j' assume "j \<in> T" "j' \<in> T" "g j = g j'"
    then show "j = j'"
      using T [of j] T [of j'] upto count_nth_unique [of matched "Some (g j)" j j']
      by (auto simp: assigned_upto_def T_def)
  qed
  have "f ` insert k (g ` T) \<subseteq> T"
  proof
    fix x assume "x \<in> f ` insert k (g ` T)"
    then consider "x = f k" | j where "j \<in> T" "x = f (g j)" by auto
    then show "x \<in> T"
    proof cases
      case 1
      then have "x \<in> set (edges ! k)" using f k by (simp add: matching_def)
      then show ?thesis using augment_failed [OF failed] edges_ok k by (auto simp: T_def)
    next
      case 2
      then have "x \<in> set (edges ! g j)" "g j < length edges" using f k T [of j] by (auto simp: matching_def)
      then show ?thesis using T [OF 2(1)] edges_ok by auto
    qed
  qed
  moreover have "finite T" by (simp add: T_def)
  ultimately have "card (f ` insert k (g ` T)) \<le> card T" by (rule card_mono [rotated])
  moreover have "card (f ` insert k (g ` T)) = card (insert k (g ` T))"
  proof (rule card_image)
    have "insert k (g ` T) \<subseteq> {..<length edges}" using T k by fastforce
    moreover have "inj_on f {..<length edges}" using f by (simp add: matching_def)
    ultimately show "inj_on f (insert k (g ` T))" by (rule inj_on_subset [rotated])
  qed
  moreover have "card (insert k (g ` T)) = Suc (card T)"
  proof (subst card_insert_disjoint)
    show "k \<notin> g ` T" using T by blast
  qed (use \<open>finite T\<close> inj in \<open>simp_all add: card_image\<close>)
  ultimately show False by simp
qed

lemma match_parents_iff:
  assumes "along_edges edges matched" "assigned_upto k matched" "k \<le> length edges"
    and "\<forall>p<length edges. set (edges ! p) \<subseteq> {..<length matched}"
  shows "match_parents edges matched [k..<length edges] \<longleftrightarrow> (\<exists>f. matching edges f)"
  using assms
proof (induction "length edges - k" arbitrary: k matched)
  case 0
  then have k: "k = length edges" by simp
  define f where "f i = (SOME j. j < length matched \<and> matched ! j = Some i)" for i
  have f: "f i < length matched \<and> matched ! f i = Some i" if "i < length edges" for i
  proof -
    have "count (mset matched) (Some i) = 1" using 0(3) that k by (simp add: assigned_upto_def)
    then have "Some i \<in># mset matched" by (simp only: flip: count_greater_zero_iff)
    then have "\<exists>j. j < length matched \<and> matched ! j = Some i" by (auto simp: in_set_conv_nth)
    then show ?thesis unfolding f_def by (rule someI_ex)
  qed
  have "inj_on f {..<length edges}"
    by (rule inj_onI) (metis f lessThan_iff option.inject)
  then have "matching edges f" using f 0(2) by (simp add: matching_def along_edges_def)
  then show ?case using k by auto
next
  case (Suc d)
  then have k: "k < length edges" by simp
  obtain ok seen' matched' where aug: "augment edges k (edges ! k) (replicate (length matched) False) matched = (ok, seen', matched')"
    by (metis prod_cases3)
  show ?case
  proof (cases ok)
    case True
    then have found: "length matched' = length matched" "mset matched' + {#None#} = mset matched + {#Some k#}"
      using augment_found aug by force+
    have "match_parents edges matched' [Suc k..<length edges] \<longleftrightarrow> (\<exists>f. matching edges f)"
      using Suc found augment_along_edges [OF aug] assigned_upto_step k by (intro Suc(1)) auto
    then show ?thesis using aug True k by (simp add: upt_rec [of k])
  next
    case False
    then show ?thesis using aug k augment_failed_no_matching [of edges k matched seen' matched'] Suc
      by (simp add: upt_rec [of k])
  qed
qed

lemma match_edges_iff:
  assumes "\<forall>p<length edges. set (edges ! p) \<subseteq> {..<n}"
  shows "match_edges edges n \<longleftrightarrow> (\<exists>f. matching edges f)"
  unfolding match_edges_def
  using assms by (intro match_parents_iff) (auto simp: along_edges_def assigned_upto_def)

end
