(* ===== verification/AAT_Constraints.thy ===== *)
theory AAT_Constraints
  imports Prelude Glob Clause_Matching Python_Text "HOL-Library.Finite_Map"
begin

text \<open>
  The argument constraints of attenuating tokens (\<open>pkg/aat/constraints.go\<close>, \<open>types.go\<close>): what a value
  must satisfy, and when a child constraint is subsumed by a parent constraint. The clauses of two
  \<open>all\<close> constraints are compared by a bipartite matching. Values are those that JSON decoding yields;
  a nil pointer is \<^term>\<open>None\<close>. The regular-expression engine and the canonical JSON library are arguments.
\<close>

section \<open>Values and constraints\<close>

datatype go_value =
    GoNil
  | GoBool bool
  | GoNum rat
  | GoStr string
  | GoArr "go_value list"
  | GoObj "(string, go_value) fmap"

datatype constraint_type =
    ConstraintTypeExact
  | ConstraintTypePattern
  | ConstraintTypeRange
  | ConstraintTypeOneOf
  | ConstraintTypeNotOneOf
  | ConstraintTypeContains
  | ConstraintTypeSubset
  | ConstraintTypeRegex
  | ConstraintTypeCEL
  | ConstraintTypeWildcard
  | ConstraintTypeAll
  | ConstraintTypeAny
  | ConstraintTypeNot
  | ConstraintTypeUnknown string

datatype constraint = Constraint
  (con_type: constraint_type)
  (con_value: go_value)
  (con_min: "rat option")
  (con_max: "rat option")
  (con_min_inclusive: "bool option")
  (con_max_inclusive: "bool option")
  (con_values: "go_value list")
  (con_excluded: "go_value list")
  (con_required: "go_value list")
  (con_allowed: "go_value list")
  (con_pattern: string)
  (con_expression: string)
  (con_children: "constraint option list")
  (con_inner: "constraint option")

datatype constraint_error =
    ErrNilConstraint
  | ErrUnknownConstraintType
  | ErrConstraintCheckNotImplemented
  | ErrConstraintSubsumptionNotImplemented
  | ExactMismatch
  | PatternNotString
  | PatternValueNotString
  | PatternBad
  | PatternMismatch
  | RangeNotNumber
  | RangeBelow
  | RangeAbove
  | OneOfMismatch
  | NotOneOfExcluded
  | ContainsNotArray
  | ContainsMissing
  | SubsetNotArray
  | SubsetNotAllowed
  | RegexNotString
  | RegexBad
  | RegexMismatch
  | AnyNoClause
  | NotWithoutInner
  | NotMatched
  | CanonicalizeFailed

text \<open>\<open>regexp.Compile\<close> and \<open>MatchString\<close>: \<^term>\<open>None\<close> for a pattern that does not compile.\<close>

type_synonym regex_engine = "string \<Rightarrow> (string \<Rightarrow> bool) option"

type_synonym canonicalizer = "constraint \<Rightarrow> string option"

lemma size_con_children [termination_simp]:
  "size_list (size_option size) (con_children c) < size c"
  "size_list (size_option size) (con_children c) < Suc (size c)"
  by (cases c; simp)+

lemma size_con_inner [termination_simp]: "con_inner c = Some d \<Longrightarrow> size d < size c"
  by (cases c) simp

section \<open>Helpers\<close>

text \<open>\<open>reflect.DeepEqual\<close> on decoded JSON is equality of values.\<close>

definition slice_contains :: "go_value list \<Rightarrow> go_value \<Rightarrow> bool" where
  "slice_contains items v = list_ex (\<lambda>item. item = v) items"

definition is_subset_any :: "go_value list \<Rightarrow> go_value list \<Rightarrow> bool" where
  "is_subset_any child parent = list_all (\<lambda>item. slice_contains parent item) child"

definition is_superset_any :: "go_value list \<Rightarrow> go_value list \<Rightarrow> bool" where
  "is_superset_any child parent = list_all (\<lambda>item. slice_contains child item) parent"

definition to_slice :: "go_value \<Rightarrow> go_value list option" where
  "to_slice v = (case v of GoArr xs \<Rightarrow> Some xs | _ \<Rightarrow> None)"

definition to_float64 :: "go_value \<Rightarrow> rat option" where
  "to_float64 v = (case v of GoNum n \<Rightarrow> Some n | _ \<Rightarrow> None)"

lemma slice_simps [simp]:
  "slice_contains items v \<longleftrightarrow> v \<in> set items"
  "is_subset_any child parent \<longleftrightarrow> set child \<subseteq> set parent"
  "is_superset_any child parent \<longleftrightarrow> set parent \<subseteq> set child"
  by (auto simp: slice_contains_def is_subset_any_def is_superset_any_def list_ex_iff list_all_iff)

section \<open>Leaf predicates\<close>

definition check_exact :: "go_value \<Rightarrow> constraint \<Rightarrow> constraint_error + unit" where
  "check_exact v c = ensure (v = con_value c) ExactMismatch"

definition check_pattern :: "go_value \<Rightarrow> constraint \<Rightarrow> constraint_error + unit" where
  "check_pattern v c =
    (case con_value c of
       GoStr pattern \<Rightarrow>
         (case v of
            GoStr actual \<Rightarrow>
              (case glob_match pattern actual of
                 Inl _ \<Rightarrow> Inl PatternBad
               | Inr matched \<Rightarrow> ensure matched PatternMismatch)
          | _ \<Rightarrow> Inl PatternValueNotString)
     | _ \<Rightarrow> Inl PatternNotString)"

definition below_min :: "constraint \<Rightarrow> rat \<Rightarrow> bool" where
  "below_min c n =
    (case con_min c of
       None \<Rightarrow> False
     | Some m \<Rightarrow> if con_min_inclusive c = Some False then n \<le> m else n < m)"

definition above_max :: "constraint \<Rightarrow> rat \<Rightarrow> bool" where
  "above_max c n =
    (case con_max c of
       None \<Rightarrow> False
     | Some m \<Rightarrow> if con_max_inclusive c = Some False then n \<ge> m else n > m)"

definition check_range :: "go_value \<Rightarrow> constraint \<Rightarrow> constraint_error + unit" where
  "check_range v c =
    (case to_float64 v of
       None \<Rightarrow> Inl RangeNotNumber
     | Some n \<Rightarrow> if below_min c n then Inl RangeBelow else if above_max c n then Inl RangeAbove else Inr ())"

definition check_one_of :: "go_value \<Rightarrow> constraint \<Rightarrow> constraint_error + unit" where
  "check_one_of v c = ensure (slice_contains (con_values c) v) OneOfMismatch"

definition check_not_one_of :: "go_value \<Rightarrow> constraint \<Rightarrow> constraint_error + unit" where
  "check_not_one_of v c = ensure (\<not> slice_contains (con_excluded c) v) NotOneOfExcluded"

definition check_contains :: "go_value \<Rightarrow> constraint \<Rightarrow> constraint_error + unit" where
  "check_contains v c =
    (case to_slice v of
       None \<Rightarrow> Inl ContainsNotArray
     | Some arr \<Rightarrow> ensure (list_all (\<lambda>req. slice_contains arr req) (con_required c)) ContainsMissing)"

definition check_subset :: "go_value \<Rightarrow> constraint \<Rightarrow> constraint_error + unit" where
  "check_subset v c =
    (case to_slice v of
       None \<Rightarrow> Inl SubsetNotArray
     | Some arr \<Rightarrow> ensure (list_all (\<lambda>elem. slice_contains (con_allowed c) elem) arr) SubsetNotAllowed)"

definition check_regex :: "regex_engine \<Rightarrow> go_value \<Rightarrow> constraint \<Rightarrow> constraint_error + unit" where
  "check_regex rx v c =
    (case v of
       GoStr actual \<Rightarrow>
         (case rx (con_pattern c) of
            None \<Rightarrow> Inl RegexBad
          | Some re \<Rightarrow> ensure (re actual) RegexMismatch)
     | _ \<Rightarrow> Inl RegexNotString)"

section \<open>Checking a value\<close>

fun check_constraint :: "regex_engine \<Rightarrow> go_value \<Rightarrow> constraint option \<Rightarrow> constraint_error + unit"
  and check_all :: "regex_engine \<Rightarrow> go_value \<Rightarrow> constraint option list \<Rightarrow> constraint_error + unit"
  and check_any :: "regex_engine \<Rightarrow> go_value \<Rightarrow> constraint option list \<Rightarrow> constraint_error + unit"
  where
  "check_constraint rx v None = Inl ErrNilConstraint"
| "check_constraint rx v (Some c) =
    (case con_type c of
       ConstraintTypeExact \<Rightarrow> check_exact v c
     | ConstraintTypePattern \<Rightarrow> check_pattern v c
     | ConstraintTypeRange \<Rightarrow> check_range v c
     | ConstraintTypeOneOf \<Rightarrow> check_one_of v c
     | ConstraintTypeNotOneOf \<Rightarrow> check_not_one_of v c
     | ConstraintTypeContains \<Rightarrow> check_contains v c
     | ConstraintTypeSubset \<Rightarrow> check_subset v c
     | ConstraintTypeRegex \<Rightarrow> check_regex rx v c
     | ConstraintTypeCEL \<Rightarrow> Inl ErrConstraintCheckNotImplemented
     | ConstraintTypeWildcard \<Rightarrow> Inr ()
     | ConstraintTypeAll \<Rightarrow> check_all rx v (con_children c)
     | ConstraintTypeAny \<Rightarrow> check_any rx v (con_children c)
     | ConstraintTypeNot \<Rightarrow>
         (case con_inner c of
            None \<Rightarrow> Inl NotWithoutInner
          | Some d \<Rightarrow> (case check_constraint rx v (Some d) of Inl _ \<Rightarrow> Inr () | Inr _ \<Rightarrow> Inl NotMatched))
     | ConstraintTypeUnknown _ \<Rightarrow> Inl ErrUnknownConstraintType)"
| "check_all rx v [] = Inr ()"
| "check_all rx v (c # cs) =
    (case check_constraint rx v c of Inl e \<Rightarrow> Inl e | Inr _ \<Rightarrow> check_all rx v cs)"
| "check_any rx v [] = Inl AnyNoClause"
| "check_any rx v (c # cs) =
    (case check_constraint rx v c of Inl _ \<Rightarrow> check_any rx v cs | Inr _ \<Rightarrow> Inr ())"

abbreviation accepts :: "regex_engine \<Rightarrow> constraint option \<Rightarrow> go_value \<Rightarrow> bool" where
  "accepts rx c v \<equiv> check_constraint rx v c = Inr ()"

lemma check_all_iff: "check_all rx v cs = Inr () \<longleftrightarrow> (\<forall>c\<in>set cs. accepts rx c v)"
  by (induction cs) (auto split: sum.splits)

lemma check_any_iff: "check_any rx v cs = Inr () \<longleftrightarrow> (\<exists>c\<in>set cs. accepts rx c v)"
  by (induction cs) (auto split: sum.splits)

section \<open>Subsumption\<close>

definition subsumes_exact :: "regex_engine \<Rightarrow> constraint \<Rightarrow> constraint \<Rightarrow> bool" where
  "subsumes_exact rx parent child =
    (case con_type parent of
       ConstraintTypeExact \<Rightarrow> con_value parent = con_value child
     | ConstraintTypeWildcard \<Rightarrow> True
     | ConstraintTypeOneOf \<Rightarrow> slice_contains (con_values parent) (con_value child)
     | ConstraintTypePattern \<Rightarrow> check_pattern (con_value child) parent = Inr ()
     | ConstraintTypeRange \<Rightarrow> check_range (con_value child) parent = Inr ()
     | ConstraintTypeRegex \<Rightarrow> check_regex rx (con_value child) parent = Inr ()
     | _ \<Rightarrow> False)"

definition ends_with_star :: "string \<Rightarrow> bool" where
  "ends_with_star p \<longleftrightarrow> p \<noteq> [] \<and> last p = star_char"

definition pattern_narrows :: "string \<Rightarrow> string \<Rightarrow> bool" where
  "pattern_narrows p c =
    (if contains_str ''**'' p \<or> contains_str ''**'' c then False
     else p = c \<or>
       ends_with_star p \<and> ends_with_star c \<and> startswith (butlast c) (butlast p))"

definition subsumes_pattern :: "constraint \<Rightarrow> constraint \<Rightarrow> bool" where
  "subsumes_pattern parent child =
    (case con_type parent of
       ConstraintTypeWildcard \<Rightarrow> True
     | ConstraintTypePattern \<Rightarrow>
         (case (con_value parent, con_value child) of
            (GoStr p, GoStr c) \<Rightarrow> pattern_narrows p c
          | _ \<Rightarrow> False)
     | _ \<Rightarrow> False)"

definition range_narrower_or_equal :: "constraint \<Rightarrow> constraint \<Rightarrow> bool" where
  "range_narrower_or_equal parent child \<longleftrightarrow>
    (case con_min parent of
       None \<Rightarrow> True
     | Some pm \<Rightarrow>
         (case con_min child of
            None \<Rightarrow> False
          | Some cm \<Rightarrow> \<not> cm < pm \<and>
              \<not> (cm = pm \<and> con_min_inclusive parent = Some False \<and> con_min_inclusive child \<noteq> Some False))) \<and>
    (case con_max parent of
       None \<Rightarrow> True
     | Some pm \<Rightarrow>
         (case con_max child of
            None \<Rightarrow> False
          | Some cm \<Rightarrow> \<not> cm > pm \<and>
              \<not> (cm = pm \<and> con_max_inclusive parent = Some False \<and> con_max_inclusive child \<noteq> Some False)))"

text \<open>A parent that is a wildcard subsumes; one of another type than those listed does not.\<close>

definition subsumes_same ::
  "constraint_type \<Rightarrow> (constraint \<Rightarrow> constraint \<Rightarrow> bool) \<Rightarrow> constraint \<Rightarrow> constraint \<Rightarrow> bool" where
  "subsumes_same t compare parent child =
    (con_type parent = ConstraintTypeWildcard \<or> con_type parent = t \<and> compare parent child)"

definition subsumes_not :: "canonicalizer \<Rightarrow> constraint \<Rightarrow> constraint \<Rightarrow> constraint_error + bool" where
  "subsumes_not canon parent child =
    (if con_type parent \<noteq> ConstraintTypeNot \<or> con_type child \<noteq> ConstraintTypeNot then Inr False
     else (case canon parent of
       None \<Rightarrow> Inl CanonicalizeFailed
     | Some p \<Rightarrow>
         (case canon child of
            None \<Rightarrow> Inl CanonicalizeFailed
          | Some c \<Rightarrow> Inr (p = c))))"

text \<open>The loops over clauses, for the comparison of two clauses given to them: \<open>edge_row\<close> and \<open>edge_rows\<close> build
  the table of \<open>matchAllClauses\<close>, \<open>any_parent\<close> and \<open>any_clauses\<close> are the loops of \<open>SubsumesAny\<close>.\<close>

type_synonym clause_comparison = "constraint option \<Rightarrow> constraint option \<Rightarrow> constraint_error + bool"

fun edge_row :: "clause_comparison \<Rightarrow> nat \<Rightarrow> constraint option \<Rightarrow> constraint option list \<Rightarrow> constraint_error + nat list" where
  "edge_row sub j p [] = Inr []"
| "edge_row sub j p (c # cs) =
    (if p = None \<or> c = None \<or> map_option con_type c \<noteq> map_option con_type p
     then edge_row sub (Suc j) p cs
     else (case sub p c of
       Inl e \<Rightarrow> Inl e
     | Inr ok \<Rightarrow>
         (case edge_row sub (Suc j) p cs of
            Inl e \<Rightarrow> Inl e
          | Inr js \<Rightarrow> Inr (if ok then j # js else js))))"

fun edge_rows ::
  "clause_comparison \<Rightarrow> constraint option list \<Rightarrow> constraint option list \<Rightarrow> constraint_error + nat list list" where
  "edge_rows sub [] cs = Inr []"
| "edge_rows sub (p # ps) cs =
    (case edge_row sub 0 p cs of
       Inl e \<Rightarrow> Inl e
     | Inr row \<Rightarrow> (case edge_rows sub ps cs of Inl e \<Rightarrow> Inl e | Inr rows \<Rightarrow> Inr (row # rows)))"

definition match_all_clauses ::
  "clause_comparison \<Rightarrow> constraint option list \<Rightarrow> constraint option list \<Rightarrow> constraint_error + bool" where
  "match_all_clauses sub parent child =
    (case edge_rows sub parent child of
       Inl e \<Rightarrow> Inl e
     | Inr edges \<Rightarrow> Inr (match_edges edges (length child)))"

fun any_parent :: "clause_comparison \<Rightarrow> constraint option list \<Rightarrow> constraint option \<Rightarrow> constraint_error + bool" where
  "any_parent sub [] c = Inr False"
| "any_parent sub (p # ps) c =
    (case sub p c of
       Inl e \<Rightarrow> Inl e
     | Inr ok \<Rightarrow> if ok then Inr True else any_parent sub ps c)"

fun any_clauses :: "clause_comparison \<Rightarrow> constraint option list \<Rightarrow> constraint option list \<Rightarrow> constraint_error + bool" where
  "any_clauses sub ps [] = Inr True"
| "any_clauses sub ps (c # cs) =
    (case any_parent sub ps c of
       Inl e \<Rightarrow> Inl e
     | Inr found \<Rightarrow> if found then any_clauses sub ps cs else Inr False)"

lemma edge_row_cong: "(\<And>c. c \<in> set cs \<Longrightarrow> sub p c = sub' p c) \<Longrightarrow> edge_row sub j p cs = edge_row sub' j p cs"
  by (induction cs arbitrary: j) (auto split: sum.splits)

lemma edge_rows_cong:
  "(\<And>p c. p \<in> set ps \<Longrightarrow> c \<in> set cs \<Longrightarrow> sub p c = sub' p c) \<Longrightarrow> edge_rows sub ps cs = edge_rows sub' ps cs"
proof (induction ps)
  case (Cons p ps)
  then have "edge_row sub 0 p cs = edge_row sub' 0 p cs" by (intro edge_row_cong) simp
  moreover have "edge_rows sub ps cs = edge_rows sub' ps cs" using Cons by simp
  ultimately show ?case by (simp only: edge_rows.simps)
qed simp

lemma match_all_clauses_cong [fundef_cong]:
  "ps = ps' \<Longrightarrow> cs = cs' \<Longrightarrow> (\<And>p c. p \<in> set ps' \<Longrightarrow> c \<in> set cs' \<Longrightarrow> sub p c = sub' p c) \<Longrightarrow>
    match_all_clauses sub ps cs = match_all_clauses sub' ps' cs'"
  using edge_rows_cong [of ps cs sub sub'] by (simp add: match_all_clauses_def)

lemma any_parent_cong: "(\<And>p. p \<in> set ps \<Longrightarrow> sub p c = sub' p c) \<Longrightarrow> any_parent sub ps c = any_parent sub' ps c"
  by (induction ps) (auto split: sum.splits)

lemma any_clauses_cong [fundef_cong]:
  "ps = ps' \<Longrightarrow> cs = cs' \<Longrightarrow> (\<And>p c. p \<in> set ps' \<Longrightarrow> c \<in> set cs' \<Longrightarrow> sub p c = sub' p c) \<Longrightarrow>
    any_clauses sub ps cs = any_clauses sub' ps' cs'"
proof (induction cs arbitrary: cs')
  case (Cons c cs)
  then have "any_parent sub ps c = any_parent sub' ps c" by (intro any_parent_cong) auto
  then show ?case using Cons by (auto split: sum.splits)
qed simp

text \<open>\<open>_subsumesConstraint\<close> looks up the handler of the child's type.\<close>

lemma size_child: "x \<in> set (con_children c) \<Longrightarrow> size_option size x < size c"
proof -
  assume "x \<in> set (con_children c)"
  then have "size_option size x \<le> size_list (size_option size) (con_children c)" by (rule size_list_estimation') simp
  then show ?thesis using size_con_children(1) [of c] by simp
qed

function subsumes_constraint :: "regex_engine \<Rightarrow> canonicalizer \<Rightarrow> clause_comparison" where
  "subsumes_constraint rx canon None child = Inl ErrNilConstraint"
| "subsumes_constraint rx canon (Some parent) None = Inl ErrNilConstraint"
| "subsumes_constraint rx canon (Some parent) (Some child) =
    (case con_type child of
       ConstraintTypeExact \<Rightarrow> Inr (subsumes_exact rx parent child)
     | ConstraintTypePattern \<Rightarrow> Inr (subsumes_pattern parent child)
     | ConstraintTypeRange \<Rightarrow>
         Inr (subsumes_same ConstraintTypeRange range_narrower_or_equal parent child)
     | ConstraintTypeOneOf \<Rightarrow>
         Inr (subsumes_same ConstraintTypeOneOf (\<lambda>p c. is_subset_any (con_values c) (con_values p)) parent child)
     | ConstraintTypeNotOneOf \<Rightarrow>
         Inr (subsumes_same ConstraintTypeNotOneOf (\<lambda>p c. is_superset_any (con_excluded c) (con_excluded p)) parent child)
     | ConstraintTypeContains \<Rightarrow>
         Inr (subsumes_same ConstraintTypeContains (\<lambda>p c. is_superset_any (con_required c) (con_required p)) parent child)
     | ConstraintTypeSubset \<Rightarrow>
         Inr (subsumes_same ConstraintTypeSubset (\<lambda>p c. is_subset_any (con_allowed c) (con_allowed p)) parent child)
     | ConstraintTypeRegex \<Rightarrow>
         Inr (subsumes_same ConstraintTypeRegex (\<lambda>p c. con_pattern p = con_pattern c) parent child)
     | ConstraintTypeCEL \<Rightarrow> Inl ErrConstraintSubsumptionNotImplemented
     | ConstraintTypeWildcard \<Rightarrow> Inr (con_type parent = ConstraintTypeWildcard)
     | ConstraintTypeAll \<Rightarrow>
         if con_type parent = ConstraintTypeWildcard then Inr True
         else if con_type parent = ConstraintTypeAll
         then match_all_clauses (\<lambda>p c. subsumes_constraint rx canon p c) (con_children parent) (con_children child)
         else Inr False
     | ConstraintTypeAny \<Rightarrow>
         if con_type parent = ConstraintTypeWildcard then Inr True
         else if con_type parent = ConstraintTypeAny
         then if con_children child = [] then Inr False
           else any_clauses (\<lambda>p c. subsumes_constraint rx canon p c) (con_children parent) (con_children child)
         else Inr False
     | ConstraintTypeNot \<Rightarrow> subsumes_not canon parent child
     | ConstraintTypeUnknown _ \<Rightarrow> Inl ErrUnknownConstraintType)"
  by pat_completeness auto
termination
  by (relation "measure (\<lambda>(_, _, _, child). size_option size child)") (auto dest: size_child)

text \<open>\<open>constraintDepth\<close> (\<open>chain_verify.go\<close>).\<close>

fun constraint_depth :: "constraint option \<Rightarrow> nat"
  and max_depth :: "constraint option list \<Rightarrow> nat" where
  "constraint_depth None = 0"
| "constraint_depth (Some c) =
    1 + max (max_depth (con_children c)) (case con_inner c of None \<Rightarrow> 0 | Some d \<Rightarrow> constraint_depth (Some d))"
| "max_depth [] = 0"
| "max_depth (c # cs) = max (constraint_depth c) (max_depth cs)"

end
