(* ===== verification/AAT_Chain.thy ===== *)
theory AAT_Chain
  imports AAT_Constraints Sha256
begin

text \<open>
  Chains of attenuating authorization tokens (\<open>pkg/aat\<close>: \<open>chain_verify.go\<close>, \<open>profile_v02.go\<close>, \<open>pop.go\<close>):
  the claims of a token, the verification of the root, of every link and of the invocation at the leaf. The
  JOSE library, the JSON grammar, the decoding of a constraint object into its struct, URIs, regular expressions
  and canonical JSON are functions of an environment. Maps are finite maps, read in the order of their keys: the
  order of a Go map only decides which of several errors is reported.
\<close>

section \<open>Tokens and their environment\<close>

datatype aat_type = AATTypeNone | AATTypeDelegation | AATTypeExecution

type_synonym argument_constraint_map = "(string, constraint option) fmap"
type_synonym tool_map = "(string, argument_constraint_map) fmap"
type_synonym claims = "(string, go_value) fmap"

record authorization_detail =
  ad_type :: string
  ad_tools :: tool_map

record 'k token =
  tk_compact :: string
  tk_signing_input :: string
  tk_jwt_id :: string
  tk_issuer :: string
  tk_issued_at :: int
  tk_expires_at :: int
  tk_confirmation :: "'k option"
  tk_token_type :: aat_type
  tk_delegation_depth :: int
  tk_delegation_max_depth :: int
  tk_parent_hash :: string
  tk_authorization :: "authorization_detail list"
  tk_profile :: string
  tk_mission_ref :: go_value
  tk_approval_refs :: "string list"

text \<open>A JSON document before duplicate members are looked at; numbers are the doubles that are read.\<close>

datatype json_tree =
    TreeNull
  | TreeBool bool
  | TreeNum rat
  | TreeStr string
  | TreeArr "json_tree list"
  | TreeObj "(string \<times> json_tree) list"

text \<open>
  The environment: the payload segment of a compact token decoded from base64 and read as JSON; whether
  a compact token is well formed with the algorithm EdDSA; signature checks under a JWK and under a raw anchor;
  the public key that a JWK object denotes, if valid; the thumbprint of a key; the constraint struct that an
  object decodes to; whether a text is a URI with a scheme; the conversion of a double to \<open>int64\<close>, which
  is left open by the language outside the range; the regular expressions; canonical JSON of a
  constraint, of a value and of a text; the payload of a proof whose signature holds.
\<close>

record 'k aat_env =
  ae_payload :: "string \<Rightarrow> json_tree option"
  ae_parse_signed :: "string \<Rightarrow> bool"
  ae_verify :: "'k \<Rightarrow> string \<Rightarrow> bool"
  ae_verify_anchor :: "byte list \<Rightarrow> string \<Rightarrow> bool"
  ae_public_jwk :: "claims \<Rightarrow> 'k option"
  ae_thumbprint :: "'k \<Rightarrow> byte list option"
  ae_decode_constraint :: "claims \<Rightarrow> constraint option"
  ae_uri_with_scheme :: "string \<Rightarrow> bool"
  ae_int64 :: "rat \<Rightarrow> int"
  ae_regex :: regex_engine
  ae_canonical_constraint :: canonicalizer
  ae_canonical_value :: "go_value \<Rightarrow> string option"
  ae_canonical_text :: "string \<Rightarrow> string option"
  ae_pop_payload :: "'k \<Rightarrow> string \<Rightarrow> string option"
  ae_unmarshal :: "string \<Rightarrow> claims option"

datatype profile_error =
    ErrUnsupportedDraftRevision
  | ErrUnknownDGProfile
  | ErrMixedDraftWire
  | ErrProfileMismatch
  | ErrDraft01Constraint
  | ErrDraft01HolderKeyReuse
  | ErrReceiptSignerKeyReuse
  | ErrApprovalRefInvalid
  | ErrApprovalRefDropped
  | ErrApprovalUnsatisfied string
  | ErrMissionRefInvalid
  | ErrMissionRefChanged
  | ErrPoPAudienceRequired
  | ErrPoPAudienceMismatch

datatype structure_error =
    ErrDenyStep1EmptyChain
  | ErrDenyStep2ATokenTooLarge nat
  | ErrDenyStep2BChainTooLarge
  | ErrDenyStep2CInvalidPayload
  | ErrDenyStep2CMissingJTI
  | ErrDenyStep2CDuplicateJTI

datatype root_error =
    ErrDenyStep3AInvalidRootAlg
  | ErrDenyStep3BRootSignature
  | ErrDenyStep3CInvalidRootType
  | ErrDenyStep3DInvalidRootDepth
  | ErrDenyStep3ERootParentHash
  | ErrDenyStep3FRootExpired
  | ErrDenyStep3GRootIATSkew
  | ErrDenyStep3HRootLifetimeOrder
  | ErrDenyStep3IRootLifetimeBound
  | ErrDenyStep3JRootMaxDepth
  | ErrDenyStep3KRootJTI
  | ErrDenyStep3LRootIssuer
  | ErrDenyStep3MRootCNF
  | ErrDenyStep3NRootAuthorization

datatype link_error =
    ErrDenyStep4AInvalidChildAlg
  | ErrDenyStep4BChildSignature
  | ErrDenyStep4B1ChildJTI
  | ErrDenyStep4B2ChildCNF
  | ErrDenyStep4B3ChildAuthorization
  | ErrDenyStep4B4ChildDepthClaims
  | ErrDenyStep4B5ChildRequiredClaims
  | ErrDenyStep4CIssuerMismatch
  | ErrDenyStep4DInvalidChildType
  | ErrDenyStep4EInvalidDepthIncrement
  | ErrDenyStep4FDepthExceedsParentMax
  | ErrDenyStep4GDepthExceedsImplementationMax
  | ErrDenyStep4HChildMaxDepth
  | ErrDenyStep4IChildExpAfterParent
  | ErrDenyStep4JChildExpired
  | ErrDenyStep4KChildIATBeforeParent
  | ErrDenyStep4LChildIATSkew
  | ErrDenyStep4MChildLifetimeOrder
  | ErrDenyStep4NChildDepthWindow
  | ErrDenyStep4OMultipleAATEntries
  | ErrDenyStep4PConstraintDepth
  | ErrDenyStep4Q1ToolExpansion string
  | ErrDenyStep4Q2ArgumentShape string
  | ErrDenyStep4Q4ConstraintSubsume string
  | ErrDenyStep4RParentHash
  | ErrDenyStep4STypeTransitionKeyReuse

datatype leaf_error =
    ErrDenyStep5ChainLengthMismatch
  | ErrDenyStep6ALeafAuthorization
  | ErrDenyStep6BLeafToolUnauthorized
  | ErrDenyStep6BLeafUnknownArgument string
  | ErrDenyStep6BLeafMissingArgument string
  | ErrDenyStep6BLeafConstraintViolation constraint_error
  | ErrDenyStep6CDelegationLeaf

datatype pop_error =
    ErrDenyStep7PoPRequired
  | ErrDenyStep7APoPSignature
  | ErrDenyStep7AMissingJTI
  | ErrDenyStep7ANonCanonical
  | ErrDenyStep7BAATID
  | ErrDenyStep7CPoPTool
  | ErrDenyStep7DHTAMismatch
  | ErrDenyStep7DCanonicalize
  | ErrDenyStep7EPopIAT

datatype aat_error =
    ProfileError profile_error
  | DenyStructure structure_error
  | DenyRoot root_error
  | DenyLink link_error
  | DenyLeaf leaf_error
  | DenyPoP pop_error
  | LinkError nat aat_error

definition MAX_TOKEN_SIZE :: nat where "MAX_TOKEN_SIZE = 65536"
definition MAX_STACK_SIZE :: nat where "MAX_STACK_SIZE = 128"
definition MAX_CONSTRAINT_DEPTH :: nat where "MAX_CONSTRAINT_DEPTH = 32"
definition AAT_MAX_DELEGATION_DEPTH :: int where "AAT_MAX_DELEGATION_DEPTH = 10"
definition MAX_IAT_SKEW_S :: int where "MAX_IAT_SKEW_S = 300"
definition MAX_TOKEN_LIFETIME_S :: int where "MAX_TOKEN_LIFETIME_S = 86400"

abbreviation "AuthorizationDetailType \<equiv> ''attenuating_agent_token''"
abbreviation "DGProfileV02 \<equiv> ''ardur.dg.aat-draft-01.v0.2''"

text \<open>\<open>int64\<close> arithmetic wraps around.\<close>

definition wrap64 :: "int \<Rightarrow> int" where
  "wrap64 n = (n + 2 ^ 63) mod 2 ^ 64 - 2 ^ 63"

section \<open>Encodings\<close>

definition b64_alphabet :: string where
  "b64_alphabet = ''ABCDEFGHIJKLMNOPQRSTUVWXYZabcdefghijklmnopqrstuvwxyz0123456789-_''"

definition b64_digits :: "nat \<Rightarrow> string" where
  "b64_digits n = map (\<lambda>d. b64_alphabet ! (n div d mod 64)) [262144, 4096, 64, 1]"

text \<open>\<open>base64.RawURLEncoding.EncodeToString\<close>.\<close>

fun raw_url_encode :: "byte list \<Rightarrow> string" where
  "raw_url_encode [] = []"
| "raw_url_encode [a] = take 2 (b64_digits (65536 * unat a))"
| "raw_url_encode [a, b] = take 3 (b64_digits (65536 * unat a + 256 * unat b))"
| "raw_url_encode (a # b # c # rest) =
    b64_digits (65536 * unat a + 256 * unat b + unat c) @ raw_url_encode rest"

text \<open>\<open>strings.SplitN\<close> at dots, into at most three parts.\<close>

definition cut_dot :: "string \<Rightarrow> string \<times> string option" where
  "cut_dot s =
    (let a = takeWhile (\<lambda>c. c \<noteq> CHR ''.'') s; r = dropWhile (\<lambda>c. c \<noteq> CHR ''.'') s
     in (a, if r = [] then None else Some (tl r)))"

definition split_compact :: "string \<Rightarrow> string list" where
  "split_compact s =
    (case cut_dot s of
       (a, None) \<Rightarrow> [a]
     | (a, Some r) \<Rightarrow> (case cut_dot r of (b, None) \<Rightarrow> [a, b] | (b, Some c) \<Rightarrow> [a, b, c]))"

text \<open>\<open>decodeUniqueJSONValue\<close>: a member that occurs twice is an error, at every depth.\<close>

fun decode_unique :: "json_tree \<Rightarrow> go_value option"
  and decode_unique_list :: "json_tree list \<Rightarrow> go_value list option"
  and decode_unique_members :: "(string \<times> json_tree) list \<Rightarrow> claims \<Rightarrow> claims option" where
  "decode_unique TreeNull = Some GoNil"
| "decode_unique (TreeBool b) = Some (GoBool b)"
| "decode_unique (TreeNum q) = Some (GoNum q)"
| "decode_unique (TreeStr s) = Some (GoStr s)"
| "decode_unique (TreeArr ts) = map_option GoArr (decode_unique_list ts)"
| "decode_unique (TreeObj ms) = map_option GoObj (decode_unique_members ms fmempty)"
| "decode_unique_list [] = Some []"
| "decode_unique_list (t # ts) =
    (case decode_unique t of
       None \<Rightarrow> None
     | Some v \<Rightarrow> (case decode_unique_list ts of None \<Rightarrow> None | Some vs \<Rightarrow> Some (v # vs)))"
| "decode_unique_members [] object = Some object"
| "decode_unique_members ((key, t) # ms) object =
    (if fmlookup object key \<noteq> None then None
     else (case decode_unique t of None \<Rightarrow> None | Some v \<Rightarrow> decode_unique_members ms (fmupd key v object)))"

definition parse_claims :: "'k aat_env \<Rightarrow> string \<Rightarrow> aat_error + claims" where
  "parse_claims env jws =
    (case split_compact jws of
       _ # payload # _ \<Rightarrow>
         (case Option.bind (ae_payload env payload) decode_unique of
            Some (GoObj m) \<Rightarrow> Inr m
          | _ \<Rightarrow> Inl (DenyStructure ErrDenyStep2CInvalidPayload))
     | _ \<Rightarrow> Inl (DenyStructure ErrDenyStep2CInvalidPayload))"

text \<open>\<open>extractUntrustedJTI\<close>: only the member \<open>jti\<close> may not occur twice.\<close>

definition extract_untrusted_jti :: "'k aat_env \<Rightarrow> string \<Rightarrow> aat_error + string" where
  "extract_untrusted_jti env jws =
    (case split_compact jws of
       [_, payload, _] \<Rightarrow>
         (case ae_payload env payload of
            Some (TreeObj ms) \<Rightarrow>
              (case filter (\<lambda>(k, _). k = ''jti'') ms of
                 [] \<Rightarrow> Inl (DenyStructure ErrDenyStep2CMissingJTI)
               | (_, v) # more_members \<Rightarrow>
                   (case v of
                      TreeStr jti \<Rightarrow>
                        if jti = [] then Inl (DenyStructure ErrDenyStep2CMissingJTI)
                        else if more_members \<noteq> [] then Inl (DenyStructure ErrDenyStep2CInvalidPayload)
                        else Inr jti
                    | _ \<Rightarrow> Inl (DenyStructure ErrDenyStep2CMissingJTI)))
          | _ \<Rightarrow> Inl (DenyStructure ErrDenyStep2CInvalidPayload))
     | _ \<Rightarrow> Inl (DenyStructure ErrDenyStep2CInvalidPayload))"

definition string_claim :: "claims \<Rightarrow> string \<Rightarrow> string" where
  "string_claim m k = (case fmlookup m k of Some (GoStr s) \<Rightarrow> s | _ \<Rightarrow> [])"

definition float_claim :: "claims \<Rightarrow> string \<Rightarrow> rat option" where
  "float_claim m k = (case fmlookup m k of Some (GoNum q) \<Rightarrow> Some q | _ \<Rightarrow> None)"

definition integral_claim :: "'k aat_env \<Rightarrow> claims \<Rightarrow> string \<Rightarrow> int option" where
  "integral_claim env m k =
    (case float_claim m k of
       None \<Rightarrow> None
     | Some q \<Rightarrow> if of_int \<lfloor>q\<rfloor> = q \<and> of_int (ae_int64 env q) = q then Some (ae_int64 env q) else None)"

text \<open>The \<open>cnf.jwk\<close> member, when it is a valid public key.\<close>

definition confirmation_claim :: "'k aat_env \<Rightarrow> claims \<Rightarrow> 'k option" where
  "confirmation_claim env m =
    (case fmlookup m ''cnf'' of
       Some (GoObj cnf) \<Rightarrow> (case fmlookup cnf ''jwk'' of Some (GoObj jwk) \<Rightarrow> ae_public_jwk env jwk | _ \<Rightarrow> None)
     | _ \<Rightarrow> None)"

definition compute_parent_hash :: "'k token \<Rightarrow> string" where
  "compute_parent_hash parent = raw_url_encode (sha256 (utf8 (tk_signing_input parent)))"

definition thumbprint_issuer :: "byte list \<Rightarrow> string" where
  "thumbprint_issuer tp = ''urn:ietf:params:oauth:jwk-thumbprint:sha-256:'' @ raw_url_encode tp"

definition jwk_thumbprints_equal :: "'k aat_env \<Rightarrow> 'k \<Rightarrow> 'k \<Rightarrow> bool" where
  "jwk_thumbprints_equal env l r \<longleftrightarrow> ae_thumbprint env l \<noteq> None \<and> ae_thumbprint env l = ae_thumbprint env r"

end
