(* ===== verification/AAT_Verify.thy ===== *)
theory AAT_Verify
  imports AAT_Chain
begin

text \<open>
  Verification of a chain of tokens (\<open>pkg/aat/chain_verify.go\<close>, with \<open>profile_v02.go\<close> and \<open>pop.go\<close>): the
  steps in the order of the code, each with the error it denies with. A token that passes is returned with the
  fields its claims give it.
\<close>

section \<open>Profiles\<close>

definition draft00_token_type :: "claims \<Rightarrow> aat_error + aat_type" where
  "draft00_token_type m =
    (case fmlookup m ''aat_type'' of
       None \<Rightarrow> Inl (ProfileError ErrUnsupportedDraftRevision)
     | Some (GoStr v) \<Rightarrow>
         if v = ''delegation'' then Inr AATTypeDelegation
         else if v = ''execution'' then Inr AATTypeExecution
         else Inl (DenyLink ErrDenyStep4DInvalidChildType)
     | Some _ \<Rightarrow> Inl (DenyLink ErrDenyStep4DInvalidChildType))"

definition detect_token_profile :: "claims \<Rightarrow> aat_error + string \<times> aat_type" where
  "detect_token_profile m =
    (case fmlookup m ''ardur_dg_profile'' of
       None \<Rightarrow>
         if fmlookup m ''aat_type'' = None then Inl (ProfileError ErrUnsupportedDraftRevision)
         else rbind (draft00_token_type m) (\<lambda>t. Inr ([], t))
     | Some profile \<Rightarrow>
         if profile \<noteq> GoStr DGProfileV02 then Inl (ProfileError ErrUnknownDGProfile)
         else if fmlookup m ''aat_type'' \<noteq> None then Inl (ProfileError ErrMixedDraftWire)
         else Inr (DGProfileV02, AATTypeNone))"

text \<open>\<open>strings.TrimSpace\<close> and \<open>unicode.IsControl\<close> below code point 256.\<close>

definition is_go_space :: "char \<Rightarrow> bool" where
  "is_go_space c \<longleftrightarrow> (let n = code_point c in 9 \<le> n \<and> n \<le> 13 \<or> n = 32 \<or> n = 133 \<or> n = 160)"

definition trim_space :: "string \<Rightarrow> string" where
  "trim_space s = rev (dropWhile is_go_space (rev (dropWhile is_go_space s)))"

definition is_control :: "char \<Rightarrow> bool" where
  "is_control c \<longleftrightarrow> (let n = code_point c in n < 32 \<or> 127 \<le> n \<and> n < 160)"

definition valid_mission_ref_uri :: "'k aat_env \<Rightarrow> string \<Rightarrow> bool" where
  "valid_mission_ref_uri env raw \<longleftrightarrow> raw \<noteq> [] \<and> trim_space raw = raw \<and> ae_uri_with_scheme env raw"

definition valid_mission_digest :: "string \<Rightarrow> bool" where
  "valid_mission_digest t \<longleftrightarrow> length (utf8 t) = 72 \<and> startswith t ''sha-256:'' \<and> list_all is_lower_hex (drop 8 t)"

definition validate_mission_ref :: "'k aat_env \<Rightarrow> go_value \<Rightarrow> aat_error + unit" where
  "validate_mission_ref env v =
    (case v of
       GoStr s \<Rightarrow> ensure (valid_mission_ref_uri env s) (ProfileError ErrMissionRefInvalid)
     | GoObj m \<Rightarrow>
         rbind (ensure (case fmlookup m ''uri'' of Some (GoStr u) \<Rightarrow> valid_mission_ref_uri env u | _ \<Rightarrow> False)
                  (ProfileError ErrMissionRefInvalid)) (\<lambda>_.
         rbind (ensure (case fmlookup m ''mission_digest'' of
                    None \<Rightarrow> True | Some (GoStr t) \<Rightarrow> valid_mission_digest t | Some _ \<Rightarrow> False)
                  (ProfileError ErrMissionRefInvalid)) (\<lambda>_.
         ensure (case fmlookup m ''mission_id'' of
             None \<Rightarrow> True | Some (GoStr t) \<Rightarrow> t \<noteq> [] \<and> trim_space t = t | Some _ \<Rightarrow> False)
           (ProfileError ErrMissionRefInvalid)))
     | _ \<Rightarrow> Inl (ProfileError ErrMissionRefInvalid))"

definition mission_refs_equal :: "'k aat_env \<Rightarrow> go_value \<Rightarrow> go_value \<Rightarrow> bool" where
  "mission_refs_equal env parent child \<longleftrightarrow>
    ae_canonical_value env parent \<noteq> None \<and> ae_canonical_value env parent = ae_canonical_value env child"

definition valid_approval_ref :: "string \<Rightarrow> bool" where
  "valid_approval_ref r \<longleftrightarrow>
    r \<noteq> [] \<and> length (utf8 r) \<le> 256 \<and> trim_space r = r \<and> \<not> list_ex is_control r"

definition normalize_approval_refs :: "string list \<Rightarrow> aat_error + string list" where
  "normalize_approval_refs refs =
    (if length refs > 64 \<or> \<not> list_all valid_approval_ref refs \<or> \<not> distinct refs
     then Inl (ProfileError ErrApprovalRefInvalid)
     else Inr (sort refs))"

definition approval_refs_from_claims :: "claims \<Rightarrow> aat_error + string list" where
  "approval_refs_from_claims m =
    (case fmlookup m ''ardur_approval_refs'' of
       None \<Rightarrow> Inr []
     | Some (GoArr items) \<Rightarrow>
         (case those (map (\<lambda>v. case v of GoStr s \<Rightarrow> Some s | _ \<Rightarrow> None) items) of
            None \<Rightarrow> Inl (ProfileError ErrApprovalRefInvalid)
          | Some refs \<Rightarrow>
              rbind (normalize_approval_refs refs) (\<lambda>normalized.
              rbind (ensure (refs = normalized) (ProfileError ErrApprovalRefInvalid)) (\<lambda>_.
              Inr normalized)))
     | Some _ \<Rightarrow> Inl (ProfileError ErrApprovalRefInvalid))"

definition approval_refs_preserved :: "string list \<Rightarrow> string list \<Rightarrow> bool" where
  "approval_refs_preserved parent child = list_all (\<lambda>r. r \<in> set child) parent"

definition validate_satisfied_approvals :: "string list \<Rightarrow> string list \<Rightarrow> aat_error + unit" where
  "validate_satisfied_approvals required satisfied =
    checkM (\<lambda>r. ensure (r \<in> set satisfied) (ProfileError (ErrApprovalUnsatisfied r))) required"

text \<open>The constraints of the draft-01 core vocabulary.\<close>

fun draft01_constraint :: "constraint option \<Rightarrow> bool"
  and draft01_constraints :: "constraint option list \<Rightarrow> bool" where
  "draft01_constraint None = False"
| "draft01_constraint (Some c) =
    (case con_type c of
       ConstraintTypeExact \<Rightarrow> True
     | ConstraintTypeRange \<Rightarrow> True
     | ConstraintTypeOneOf \<Rightarrow> True
     | ConstraintTypeNotOneOf \<Rightarrow> True
     | ConstraintTypeContains \<Rightarrow> True
     | ConstraintTypeSubset \<Rightarrow> True
     | ConstraintTypeWildcard \<Rightarrow> True
     | ConstraintTypeAll \<Rightarrow> con_children c \<noteq> [] \<and> draft01_constraints (con_children c)
     | ConstraintTypeAny \<Rightarrow> con_children c \<noteq> [] \<and> draft01_constraints (con_children c)
     | _ \<Rightarrow> False)"
| "draft01_constraints [] = True"
| "draft01_constraints (c # cs) = (draft01_constraint c \<and> draft01_constraints cs)"

definition all_constraints_of :: "authorization_detail list \<Rightarrow> constraint option list" where
  "all_constraints_of details =
    concat (map (\<lambda>d. concat (map (\<lambda>(_, arguments). map snd (sorted_list_of_fmap arguments))
      (sorted_list_of_fmap (ad_tools d)))) details)"

definition validate_draft01_authorization :: "authorization_detail list \<Rightarrow> bool" where
  "validate_draft01_authorization details = list_all draft01_constraint (all_constraints_of details)"

definition validate_receipt_signer_separation :: "'k aat_env \<Rightarrow> 'k token list \<Rightarrow> 'k option \<Rightarrow> aat_error + unit" where
  "validate_receipt_signer_separation env chain receipt_signer =
    (case receipt_signer of
       None \<Rightarrow> Inl (ProfileError ErrReceiptSignerKeyReuse)
     | Some key \<Rightarrow>
         checkM (\<lambda>t. ensure (case tk_confirmation t of None \<Rightarrow> True | Some k \<Rightarrow> \<not> jwk_thumbprints_equal env k key)
           (ProfileError ErrReceiptSignerKeyReuse)) chain)"

section \<open>Authorization claims\<close>

definition object_with_type :: "go_value \<Rightarrow> bool" where
  "object_with_type v = (case v of GoObj m \<Rightarrow> string_claim m ''type'' \<noteq> [] | _ \<Rightarrow> False)"

definition is_aat_entry :: "go_value \<Rightarrow> bool" where
  "is_aat_entry v = (case v of GoObj m \<Rightarrow> string_claim m ''type'' = AuthorizationDetailType | _ \<Rightarrow> False)"

definition validate_authorization :: "claims \<Rightarrow> bool \<Rightarrow> bool" where
  "validate_authorization m require_non_empty =
    (case fmlookup m ''authorization_details'' of
       Some (GoArr items) \<Rightarrow>
         (require_non_empty \<longrightarrow> items \<noteq> []) \<and> list_all object_with_type items \<and> length (filter is_aat_entry items) \<le> 1
     | _ \<Rightarrow> False)"

definition parse_constraint :: "'k aat_env \<Rightarrow> go_value \<Rightarrow> constraint option" where
  "parse_constraint env raw =
    (case raw of
       GoObj m \<Rightarrow>
         (case ae_decode_constraint env m of
            None \<Rightarrow> None
          | Some c \<Rightarrow> if con_type c = ConstraintTypeUnknown [] then None else Some c)
     | _ \<Rightarrow> None)"

definition parse_argument_map :: "'k aat_env \<Rightarrow> go_value \<Rightarrow> argument_constraint_map option" where
  "parse_argument_map env raw =
    (case raw of
       GoObj m \<Rightarrow>
         map_option fmap_of_list (those (map (\<lambda>(argument, v). map_option (\<lambda>c. (argument, Some c)) (parse_constraint env v))
           (sorted_list_of_fmap m)))
     | _ \<Rightarrow> None)"

definition parse_tool_map :: "'k aat_env \<Rightarrow> claims \<Rightarrow> tool_map option" where
  "parse_tool_map env tools =
    map_option fmap_of_list (those (map (\<lambda>(tool, v). map_option (Pair tool) (parse_argument_map env v))
      (sorted_list_of_fmap tools)))"

definition extract_detail :: "'k aat_env \<Rightarrow> claims \<Rightarrow> authorization_detail option" where
  "extract_detail env m =
    (case fmlookup m ''tools'' of
       None \<Rightarrow> Some \<lparr>ad_type = AuthorizationDetailType, ad_tools = fmempty\<rparr>
     | Some (GoObj tools) \<Rightarrow>
         map_option (\<lambda>t. \<lparr>ad_type = AuthorizationDetailType, ad_tools = t\<rparr>) (parse_tool_map env tools)
     | Some _ \<Rightarrow> None)"

definition extract_authorization :: "'k aat_env \<Rightarrow> claims \<Rightarrow> authorization_detail list option" where
  "extract_authorization env m =
    (case fmlookup m ''authorization_details'' of
       Some (GoArr items) \<Rightarrow>
         if list_all (\<lambda>v. case v of GoObj _ \<Rightarrow> True | _ \<Rightarrow> False) items then
           (case those (map (\<lambda>v. case v of GoObj d \<Rightarrow> extract_detail env d | _ \<Rightarrow> None) (filter is_aat_entry items)) of
              None \<Rightarrow> None
            | Some result \<Rightarrow> if length result > 1 then None else Some result)
         else None
     | _ \<Rightarrow> None)"

section \<open>Root\<close>

definition required :: "'e \<Rightarrow> 'a option \<Rightarrow> 'e + 'a" where
  "required e x = (case x of None \<Rightarrow> Inl e | Some y \<Rightarrow> Inr y)"

lemma required_simps [simp, result_simps]:
  "required e None = Inl e" "required e (Some y) = Inr y"
  "required e x = Inr y \<longleftrightarrow> x = Some y"
  by (auto simp: required_def split: option.splits)

text \<open>The claims that only the profile v0.2 has, at the end of \<open>verifyRoot\<close>.\<close>

definition root_profile_claims :: "'k aat_env \<Rightarrow> claims \<Rightarrow> 'k token \<Rightarrow> aat_error + 'k token" where
  "root_profile_claims env m t =
    (if tk_profile t \<noteq> DGProfileV02 then Inr t
     else
       rbind (ensure (length (tk_authorization t) = 1) (DenyRoot ErrDenyStep3NRootAuthorization)) (\<lambda>_.
       rbind (ensure (validate_draft01_authorization (tk_authorization t)) (DenyRoot ErrDenyStep3NRootAuthorization)) (\<lambda>_.
       let mission_ref = (case fmlookup m ''mission_ref'' of None \<Rightarrow> GoNil | Some v \<Rightarrow> v) in
       rbind (validate_mission_ref env mission_ref) (\<lambda>_.
       rbind (approval_refs_from_claims m) (\<lambda>refs.
       Inr (t\<lparr>tk_mission_ref := mission_ref, tk_approval_refs := refs\<rparr>))))))"

definition verify_root :: "'k aat_env \<Rightarrow> byte list list \<Rightarrow> rat \<Rightarrow> 'k token \<Rightarrow> aat_error + 'k token" where
  "verify_root env trust_anchors now root_token =
    (let jws = tk_compact root_token; now_unix = \<lfloor>now\<rfloor> in
     rbind (ensure (ae_parse_signed env jws) (DenyRoot ErrDenyStep3AInvalidRootAlg)) (\<lambda>_.
     rbind (ensure (list_ex (\<lambda>anchor. length anchor = 32 \<and> ae_verify_anchor env anchor jws) trust_anchors)
              (DenyRoot ErrDenyStep3BRootSignature)) (\<lambda>_.
     rbind (parse_claims env jws) (\<lambda>m.
     rbind (case detect_token_profile m of
         Inl e \<Rightarrow> Inl (if e = DenyLink ErrDenyStep4DInvalidChildType then DenyRoot ErrDenyStep3CInvalidRootType else e)
       | Inr p \<Rightarrow> Inr p) (\<lambda>(profile, typ).
     rbind (ensure (integral_claim env m ''del_depth'' = Some 0) (DenyRoot ErrDenyStep3DInvalidRootDepth)) (\<lambda>_.
     rbind (ensure (fmlookup m ''par_hash'' = None) (DenyRoot ErrDenyStep3ERootParentHash)) (\<lambda>_.
     rbind (required (DenyRoot ErrDenyStep3FRootExpired) (map_option (ae_int64 env) (float_claim m ''exp''))) (\<lambda>expires.
     rbind (ensure (expires > now_unix) (DenyRoot ErrDenyStep3FRootExpired)) (\<lambda>_.
     rbind (required (DenyRoot ErrDenyStep3GRootIATSkew) (map_option (ae_int64 env) (float_claim m ''iat''))) (\<lambda>issued.
     rbind (ensure (issued \<le> wrap64 (now_unix + MAX_IAT_SKEW_S)) (DenyRoot ErrDenyStep3GRootIATSkew)) (\<lambda>_.
     rbind (ensure (expires > issued) (DenyRoot ErrDenyStep3HRootLifetimeOrder)) (\<lambda>_.
     rbind (ensure (wrap64 (expires - issued) \<le> MAX_TOKEN_LIFETIME_S) (DenyRoot ErrDenyStep3IRootLifetimeBound)) (\<lambda>_.
     rbind (required (DenyRoot ErrDenyStep3JRootMaxDepth) (integral_claim env m ''del_max_depth'')) (\<lambda>max_depth_claim.
     rbind (ensure (0 \<le> max_depth_claim \<and> max_depth_claim \<le> AAT_MAX_DELEGATION_DEPTH) (DenyRoot ErrDenyStep3JRootMaxDepth)) (\<lambda>_.
     rbind (ensure (string_claim m ''jti'' \<noteq> []) (DenyRoot ErrDenyStep3KRootJTI)) (\<lambda>_.
     rbind (ensure (string_claim m ''iss'' \<noteq> [] \<and> ae_uri_with_scheme env (string_claim m ''iss''))
              (DenyRoot ErrDenyStep3LRootIssuer)) (\<lambda>_.
     rbind (required (DenyRoot ErrDenyStep3MRootCNF) (confirmation_claim env m)) (\<lambda>jwk.
     rbind (ensure (validate_authorization m True) (DenyRoot ErrDenyStep3NRootAuthorization)) (\<lambda>_.
     rbind (required (DenyRoot ErrDenyStep3NRootAuthorization) (extract_authorization env m)) (\<lambda>authorization.
     root_profile_claims env m (root_token\<lparr>tk_profile := profile, tk_token_type := typ, tk_delegation_depth := 0,
       tk_expires_at := expires, tk_issued_at := issued, tk_delegation_max_depth := max_depth_claim,
       tk_jwt_id := string_claim m ''jti'', tk_issuer := string_claim m ''iss'', tk_confirmation := Some jwk,
       tk_authorization := authorization\<rparr>)))))))))))))))))))))"

section \<open>Links\<close>

definition tools_of :: "'k token \<Rightarrow> tool_map" where
  "tools_of t = (case tk_authorization t of [d] \<Rightarrow> ad_tools d | _ \<Rightarrow> fmempty)"

text \<open>One tool of the child against the parent, the body of the loop in \<open>verifyCapabilityMonotonicity\<close>.\<close>

definition argument_subsumed ::
  "'k aat_env \<Rightarrow> string \<Rightarrow> argument_constraint_map \<Rightarrow> string \<times> constraint option \<Rightarrow> aat_error + unit" where
  "argument_subsumed env tool child_args e =
    (case subsumes_constraint (ae_regex env) (ae_canonical_constraint env) (snd e)
        (case fmlookup child_args (fst e) of None \<Rightarrow> None | Some c \<Rightarrow> c) of
       Inl _ \<Rightarrow> Inl (DenyLink (ErrDenyStep4Q4ConstraintSubsume tool))
     | Inr subsumes \<Rightarrow> ensure subsumes (DenyLink (ErrDenyStep4Q4ConstraintSubsume tool)))"

definition tool_narrows ::
  "'k aat_env \<Rightarrow> tool_map \<Rightarrow> string \<times> argument_constraint_map \<Rightarrow> aat_error + unit" where
  "tool_narrows env parent_tools e =
    (case e of (tool, child_args) \<Rightarrow>
       rbind (required (DenyLink (ErrDenyStep4Q1ToolExpansion tool)) (fmlookup parent_tools tool)) (\<lambda>parent_args.
       rbind (ensure (\<not> (fcard (fmdom parent_args) > 0 \<and> fcard (fmdom child_args) \<noteq> fcard (fmdom parent_args)))
                (DenyLink (ErrDenyStep4Q2ArgumentShape tool))) (\<lambda>_.
       rbind (checkM (\<lambda>(argument, _). ensure (fmlookup child_args argument \<noteq> None) (DenyLink (ErrDenyStep4Q2ArgumentShape tool)))
                (sorted_list_of_fmap parent_args)) (\<lambda>_.
       checkM (argument_subsumed env tool child_args) (sorted_list_of_fmap parent_args)))))"

definition verify_capability_monotonicity :: "'k aat_env \<Rightarrow> 'k token \<Rightarrow> 'k token \<Rightarrow> aat_error + unit" where
  "verify_capability_monotonicity env parent child =
    checkM (tool_narrows env (tools_of parent)) (sorted_list_of_fmap (tools_of child))"

text \<open>Steps 4b3 of \<open>verifyLink\<close> that only the profile v0.2 has.\<close>

definition link_profile_claims :: "'k aat_env \<Rightarrow> claims \<Rightarrow> 'k token \<Rightarrow> 'k token \<Rightarrow> aat_error + 'k token" where
  "link_profile_claims env m parent child =
    (if tk_profile child \<noteq> DGProfileV02 then Inr child
     else
       rbind (ensure (validate_draft01_authorization (tk_authorization child)) (DenyLink ErrDenyStep4B3ChildAuthorization)) (\<lambda>_.
       let mission_ref = (case fmlookup m ''mission_ref'' of None \<Rightarrow> GoNil | Some v \<Rightarrow> v) in
       rbind (validate_mission_ref env mission_ref) (\<lambda>_.
       rbind (ensure (mission_refs_equal env (tk_mission_ref parent) mission_ref) (ProfileError ErrMissionRefChanged)) (\<lambda>_.
       rbind (approval_refs_from_claims m) (\<lambda>refs.
       rbind (ensure (approval_refs_preserved (tk_approval_refs parent) refs) (ProfileError ErrApprovalRefDropped)) (\<lambda>_.
       Inr (child\<lparr>tk_mission_ref := mission_ref, tk_approval_refs := refs\<rparr>)))))))"

text \<open>Steps 4a to 4b5 read the claims of the child.\<close>

definition read_child :: "'k aat_env \<Rightarrow> 'k token \<Rightarrow> 'k token \<Rightarrow> aat_error + 'k token" where
  "read_child env parent child =
    (let jws = tk_compact child in
     rbind (ensure (ae_parse_signed env jws) (DenyLink ErrDenyStep4AInvalidChildAlg)) (\<lambda>_.
     rbind (required (DenyLink ErrDenyStep4B2ChildCNF) (tk_confirmation parent)) (\<lambda>parent_jwk.
     rbind (ensure (ae_verify env parent_jwk jws) (DenyLink ErrDenyStep4BChildSignature)) (\<lambda>_.
     rbind (parse_claims env jws) (\<lambda>m.
     rbind (detect_token_profile m) (\<lambda>(profile, typ).
     rbind (ensure (profile = tk_profile parent) (ProfileError ErrProfileMismatch)) (\<lambda>_.
     rbind (ensure (string_claim m ''jti'' \<noteq> []) (DenyLink ErrDenyStep4B1ChildJTI)) (\<lambda>_.
     rbind (required (DenyLink ErrDenyStep4B2ChildCNF) (confirmation_claim env m)) (\<lambda>jwk.
     rbind (ensure (validate_authorization m False) (DenyLink ErrDenyStep4B3ChildAuthorization)) (\<lambda>_.
     rbind (required (DenyLink ErrDenyStep4B3ChildAuthorization) (extract_authorization env m)) (\<lambda>authorization.
     rbind (link_profile_claims env m parent (child\<lparr>tk_profile := profile, tk_token_type := typ,
              tk_jwt_id := string_claim m ''jti'', tk_confirmation := Some jwk, tk_authorization := authorization\<rparr>)) (\<lambda>child1.
     rbind (required (DenyLink ErrDenyStep4B4ChildDepthClaims) (integral_claim env m ''del_depth'')) (\<lambda>depth.
     rbind (required (DenyLink ErrDenyStep4B4ChildDepthClaims) (integral_claim env m ''del_max_depth'')) (\<lambda>max_depth_claim.
     rbind (required (DenyLink ErrDenyStep4B5ChildRequiredClaims) (map_option (ae_int64 env) (float_claim m ''iat''))) (\<lambda>issued.
     rbind (required (DenyLink ErrDenyStep4B5ChildRequiredClaims) (map_option (ae_int64 env) (float_claim m ''exp''))) (\<lambda>expires.
     Inr (child1\<lparr>tk_delegation_depth := depth, tk_delegation_max_depth := max_depth_claim, tk_issued_at := issued,
       tk_expires_at := expires, tk_issuer := string_claim m ''iss'', tk_parent_hash := string_claim m ''par_hash''\<rparr>)))))))))))))))))"

text \<open>Steps 4c to 4s compare the child with its parent. Step 4o repeats the check of 4b3 on the same claims.\<close>

definition key_separation :: "'k aat_env \<Rightarrow> 'k token \<Rightarrow> 'k token \<Rightarrow> aat_error + unit" where
  "key_separation env parent child =
    (case (tk_confirmation parent, tk_confirmation child) of
       (Some parent_jwk, Some child_jwk) \<Rightarrow>
         if tk_profile child = DGProfileV02
         then ensure (\<not> jwk_thumbprints_equal env parent_jwk child_jwk) (ProfileError ErrDraft01HolderKeyReuse)
         else if tk_token_type parent \<noteq> tk_token_type child
         then rbind (required (DenyLink ErrDenyStep4STypeTransitionKeyReuse) (ae_thumbprint env child_jwk)) (\<lambda>child_thumbprint.
           ensure (ae_thumbprint env parent_jwk \<noteq> Some child_thumbprint) (DenyLink ErrDenyStep4STypeTransitionKeyReuse))
         else Inr ()
     | _ \<Rightarrow> Inl (DenyLink ErrDenyStep4B2ChildCNF))"

definition compare_link :: "'k aat_env \<Rightarrow> rat \<Rightarrow> 'k token \<Rightarrow> 'k token \<Rightarrow> aat_error + unit" where
  "compare_link env now parent child =
    (let now_unix = \<lfloor>now\<rfloor> in
     rbind (required (DenyLink ErrDenyStep4CIssuerMismatch) (Option.bind (tk_confirmation parent) (ae_thumbprint env))) (\<lambda>parent_thumbprint.
     rbind (ensure (tk_issuer child = thumbprint_issuer parent_thumbprint) (DenyLink ErrDenyStep4CIssuerMismatch)) (\<lambda>_.
     rbind (ensure (tk_delegation_depth child = tk_delegation_depth parent + 1) (DenyLink ErrDenyStep4EInvalidDepthIncrement)) (\<lambda>_.
     rbind (ensure (tk_delegation_depth child \<le> tk_delegation_max_depth parent) (DenyLink ErrDenyStep4FDepthExceedsParentMax)) (\<lambda>_.
     rbind (ensure (tk_delegation_depth child \<le> AAT_MAX_DELEGATION_DEPTH) (DenyLink ErrDenyStep4GDepthExceedsImplementationMax)) (\<lambda>_.
     rbind (ensure (tk_delegation_max_depth child \<le> tk_delegation_max_depth parent) (DenyLink ErrDenyStep4HChildMaxDepth)) (\<lambda>_.
     rbind (ensure (tk_expires_at child \<le> tk_expires_at parent) (DenyLink ErrDenyStep4IChildExpAfterParent)) (\<lambda>_.
     rbind (ensure (tk_expires_at child > now_unix) (DenyLink ErrDenyStep4JChildExpired)) (\<lambda>_.
     rbind (ensure (tk_issued_at child \<ge> tk_issued_at parent) (DenyLink ErrDenyStep4KChildIATBeforeParent)) (\<lambda>_.
     rbind (ensure (tk_issued_at child \<le> wrap64 (now_unix + MAX_IAT_SKEW_S)) (DenyLink ErrDenyStep4LChildIATSkew)) (\<lambda>_.
     rbind (ensure (tk_expires_at child > tk_issued_at child) (DenyLink ErrDenyStep4MChildLifetimeOrder)) (\<lambda>_.
     rbind (ensure (tk_delegation_depth child \<le> tk_delegation_max_depth child) (DenyLink ErrDenyStep4NChildDepthWindow)) (\<lambda>_.
     rbind (ensure (list_all (\<lambda>c. constraint_depth c \<le> MAX_CONSTRAINT_DEPTH) (all_constraints_of (tk_authorization child)))
              (DenyLink ErrDenyStep4PConstraintDepth)) (\<lambda>_.
     rbind (verify_capability_monotonicity env parent child) (\<lambda>_.
     rbind (ensure (tk_parent_hash child = compute_parent_hash parent) (DenyLink ErrDenyStep4RParentHash)) (\<lambda>_.
     key_separation env parent child))))))))))))))))"

definition verify_link :: "'k aat_env \<Rightarrow> rat \<Rightarrow> nat \<Rightarrow> 'k token \<Rightarrow> 'k token \<Rightarrow> aat_error + 'k token" where
  "verify_link env now link_index parent child =
    (case rbind (read_child env parent child) (\<lambda>child1. rbind (compare_link env now parent child1) (\<lambda>_. Inr child1)) of
       Inl e \<Rightarrow> Inl (LinkError link_index e)
     | Inr child1 \<Rightarrow> Inr child1)"

fun verify_links :: "'k aat_env \<Rightarrow> rat \<Rightarrow> nat \<Rightarrow> 'k token \<Rightarrow> 'k token list \<Rightarrow> aat_error + 'k token list" where
  "verify_links env now i parent [] = Inr []"
| "verify_links env now i parent (child # rest) =
    rbind (verify_link env now i parent child) (\<lambda>child1.
    rbind (verify_links env now (Suc i) child1 rest) (\<lambda>verified.
    Inr (child1 # verified)))"

section \<open>Invocation at the leaf\<close>

definition check_argument :: "'k aat_env \<Rightarrow> claims \<Rightarrow> string \<times> constraint option \<Rightarrow> aat_error + unit" where
  "check_argument env arguments e =
    (case fmlookup arguments (fst e) of
       None \<Rightarrow> Inl (DenyLeaf (ErrDenyStep6BLeafMissingArgument (fst e)))
     | Some v \<Rightarrow>
         (case check_constraint (ae_regex env) v (snd e) of
            Inl err \<Rightarrow> Inl (DenyLeaf (ErrDenyStep6BLeafConstraintViolation err))
          | Inr _ \<Rightarrow> Inr ()))"

definition check_invocation :: "'k aat_env \<Rightarrow> argument_constraint_map \<Rightarrow> claims \<Rightarrow> aat_error + unit" where
  "check_invocation env tool_constraints arguments =
    rbind (checkM (check_argument env arguments) (sorted_list_of_fmap tool_constraints)) (\<lambda>_.
    if fcard (fmdom tool_constraints) > 0
    then checkM (\<lambda>(argument, _). ensure (fmlookup tool_constraints argument \<noteq> None)
      (DenyLeaf (ErrDenyStep6BLeafUnknownArgument argument))) (sorted_list_of_fmap arguments)
    else Inr ())"

definition verify_leaf_invocation :: "'k aat_env \<Rightarrow> 'k token \<Rightarrow> string \<Rightarrow> claims \<Rightarrow> aat_error + unit" where
  "verify_leaf_invocation env leaf tool arguments =
    (case tk_authorization leaf of
       [auth] \<Rightarrow>
         if ad_type auth \<noteq> AuthorizationDetailType then Inl (DenyLeaf ErrDenyStep6ALeafAuthorization)
         else if tk_profile leaf = [] \<and> tk_token_type leaf \<noteq> AATTypeExecution then Inl (DenyLeaf ErrDenyStep6CDelegationLeaf)
         else rbind (required (DenyLeaf ErrDenyStep6BLeafToolUnauthorized) (fmlookup (ad_tools auth) tool)) (\<lambda>tool_constraints.
           check_invocation env tool_constraints arguments)
     | _ \<Rightarrow> Inl (DenyLeaf ErrDenyStep6ALeafAuthorization))"

section \<open>Proof of possession\<close>

record pop_jwt =
  pj_jwt_id :: string
  pj_issued_at :: int
  pj_aat_id :: string
  pj_aat_tool :: string
  pj_aat_audience :: string
  pj_hta :: claims

definition check_audience :: "bool \<Rightarrow> string \<Rightarrow> string \<Rightarrow> aat_error + unit" where
  "check_audience require_audience expected actual =
    (if require_audience
     then if expected = [] \<or> actual = [] then Inl (ProfileError ErrPoPAudienceRequired)
       else ensure (actual = expected) (ProfileError ErrPoPAudienceMismatch)
     else ensure (actual = []) (ProfileError ErrMixedDraftWire))"

definition check_hta :: "'k aat_env \<Rightarrow> claims \<Rightarrow> claims \<Rightarrow> aat_error + claims" where
  "check_hta env arguments m =
    rbind (required (DenyPoP ErrDenyStep7DCanonicalize) (ae_canonical_value env (GoObj arguments))) (\<lambda>expected.
    (case fmlookup m ''hta'' of
       Some (GoObj hta) \<Rightarrow>
         rbind (required (DenyPoP ErrDenyStep7DCanonicalize) (ae_canonical_value env (GoObj hta))) (\<lambda>actual.
         rbind (ensure (expected = actual) (DenyPoP ErrDenyStep7DHTAMismatch)) (\<lambda>_. Inr hta))
     | _ \<Rightarrow> Inl (DenyPoP ErrDenyStep7DHTAMismatch)))"

definition verify_pop_jwt ::
  "'k aat_env \<Rightarrow> 'k token \<Rightarrow> string \<Rightarrow> claims \<Rightarrow> string \<Rightarrow> rat \<Rightarrow> string \<Rightarrow> bool \<Rightarrow> aat_error + pop_jwt" where
  "verify_pop_jwt env leaf tool arguments pop now expected_audience require_audience =
    rbind (required (DenyLink ErrDenyStep4B2ChildCNF) (tk_confirmation leaf)) (\<lambda>jwk.
    rbind (required (DenyPoP ErrDenyStep7APoPSignature) (ae_pop_payload env jwk pop)) (\<lambda>payload.
    rbind (ensure (ae_canonical_text env payload = Some payload) (DenyPoP ErrDenyStep7ANonCanonical)) (\<lambda>_.
    rbind (required (DenyPoP ErrDenyStep7APoPSignature) (ae_unmarshal env payload)) (\<lambda>m.
    rbind (ensure (string_claim m ''jti'' \<noteq> []) (DenyPoP ErrDenyStep7AMissingJTI)) (\<lambda>_.
    let issued = (case float_claim m ''iat'' of None \<Rightarrow> 0 | Some q \<Rightarrow> ae_int64 env q) in
    rbind (ensure (string_claim m ''aat_id'' = tk_jwt_id leaf) (DenyPoP ErrDenyStep7BAATID)) (\<lambda>_.
    rbind (check_audience require_audience expected_audience (string_claim m ''aat_aud'')) (\<lambda>_.
    rbind (ensure (string_claim m ''aat_tool'' = tool) (DenyPoP ErrDenyStep7CPoPTool)) (\<lambda>_.
    rbind (check_hta env arguments m) (\<lambda>hta.
    rbind (ensure (\<not> (now - of_int issued > of_int MAX_IAT_SKEW_S \<or> of_int issued - now > of_int MAX_IAT_SKEW_S))
             (DenyPoP ErrDenyStep7EPopIAT)) (\<lambda>_.
    Inr \<lparr>pj_jwt_id = string_claim m ''jti'', pj_issued_at = issued, pj_aat_id = string_claim m ''aat_id'',
         pj_aat_tool = string_claim m ''aat_tool'', pj_aat_audience = string_claim m ''aat_aud'', pj_hta = hta\<rparr>))))))))))"

section \<open>The whole chain\<close>

record 'k verify_chain_opts =
  vo_now :: rat
  vo_audience :: string
  vo_receipt_signer :: "'k option"
  vo_satisfied_approval_refs :: "string list"

text \<open>\<open>validateStructure\<close>; a nil token is \<^term>\<open>None\<close>.\<close>

definition token_sizes_ok :: "nat \<Rightarrow> 'k token option list \<Rightarrow> aat_error + 'k token list" where
  "token_sizes_ok i chain =
    mapM (\<lambda>(i, t). case t of
        None \<Rightarrow> Inl (DenyStructure ErrDenyStep2CInvalidPayload)
      | Some tok \<Rightarrow>
          rbind (ensure (length (utf8 (tk_compact tok)) \<le> MAX_TOKEN_SIZE) (DenyStructure (ErrDenyStep2ATokenTooLarge i))) (\<lambda>_.
          Inr tok)) (List.enumerate i chain)"

fun unique_jtis :: "'k aat_env \<Rightarrow> string list \<Rightarrow> 'k token list \<Rightarrow> aat_error + unit" where
  "unique_jtis env seen [] = Inr ()"
| "unique_jtis env seen (t # ts) =
    rbind (if tk_compact t = [] then Inr (tk_jwt_id t) else extract_untrusted_jti env (tk_compact t)) (\<lambda>jti.
    rbind (ensure (jti \<noteq> []) (DenyStructure ErrDenyStep2CMissingJTI)) (\<lambda>_.
    rbind (ensure (jti \<notin> set seen) (DenyStructure ErrDenyStep2CDuplicateJTI)) (\<lambda>_.
    unique_jtis env (jti # seen) ts)))"

definition validate_structure :: "'k aat_env \<Rightarrow> 'k token option list \<Rightarrow> aat_error + 'k token list" where
  "validate_structure env chain =
    rbind (ensure (length chain \<le> MAX_STACK_SIZE) (DenyStructure ErrDenyStep2BChainTooLarge)) (\<lambda>_.
    rbind (token_sizes_ok 0 chain) (\<lambda>tokens.
    rbind (unique_jtis env [] tokens) (\<lambda>_.
    Inr tokens)))"

definition blank_token :: "string \<Rightarrow> string \<Rightarrow> 'k token" where
  "blank_token jws signing_input =
    \<lparr>tk_compact = jws, tk_signing_input = signing_input, tk_jwt_id = [], tk_issuer = [], tk_issued_at = 0,
     tk_expires_at = 0, tk_confirmation = None, tk_token_type = AATTypeNone, tk_delegation_depth = 0,
     tk_delegation_max_depth = 0, tk_parent_hash = [], tk_authorization = [], tk_profile = [],
     tk_mission_ref = GoNil, tk_approval_refs = []\<rparr>"

definition prepare_compact_token :: "'k token \<Rightarrow> aat_error + 'k token" where
  "prepare_compact_token t =
    (if tk_compact t = [] then Inr t
     else (case split_compact (tk_compact t) of
       [protected, payload, signature] \<Rightarrow>
         if protected = [] \<or> payload = [] \<or> signature = [] then Inl (DenyStructure ErrDenyStep2CInvalidPayload)
         else Inr (blank_token (tk_compact t) (protected @ ''.'' @ payload))
     | _ \<Rightarrow> Inl (DenyStructure ErrDenyStep2CInvalidPayload)))"

definition profile_v02_checks :: "'k aat_env \<Rightarrow> 'k verify_chain_opts \<Rightarrow> 'k token list \<Rightarrow> aat_error + unit" where
  "profile_v02_checks env opts verified =
    (if tk_profile (hd verified) \<noteq> DGProfileV02 then Inr ()
     else
       rbind (ensure (vo_audience opts \<noteq> []) (ProfileError ErrPoPAudienceRequired)) (\<lambda>_.
       validate_receipt_signer_separation env verified (vo_receipt_signer opts)))"

definition at_step :: "string \<Rightarrow> aat_error + 'a \<Rightarrow> string \<times> aat_error + 'a" where
  "at_step step r = (case r of Inl e \<Rightarrow> Inl (step, e) | Inr x \<Rightarrow> Inr x)"

text \<open>\<open>VerifyChainWithOpts\<close>: the failed step and its cause, or the verified tokens and the proof. The time is
  that of the options.\<close>

definition verify_chain ::
  "'k aat_env \<Rightarrow> byte list list \<Rightarrow> string \<Rightarrow> claims \<Rightarrow> string \<Rightarrow> 'k verify_chain_opts \<Rightarrow> 'k token option list \<Rightarrow>
    string \<times> aat_error + 'k token list \<times> pop_jwt" where
  "verify_chain env trust_anchors tool arguments pop opts chain =
    rbind (at_step ''step-1'' (ensure (chain \<noteq> []) (DenyStructure ErrDenyStep1EmptyChain))) (\<lambda>_.
    rbind (at_step ''step-2'' (validate_structure env chain)) (\<lambda>tokens.
    rbind (at_step ''step-2c'' (mapM prepare_compact_token tokens)) (\<lambda>parsed.
    rbind (at_step ''step-3'' (verify_root env trust_anchors (vo_now opts) (hd parsed))) (\<lambda>root_token.
    rbind (at_step ''step-4'' (verify_links env (vo_now opts) 0 root_token (tl parsed))) (\<lambda>rest.
    let verified = root_token # rest; leaf = last verified in
    rbind (at_step ''profile-v0.2'' (profile_v02_checks env opts verified)) (\<lambda>_.
    rbind (at_step ''step-5'' (ensure (int (length verified) = tk_delegation_depth leaf + 1)
             (DenyLeaf ErrDenyStep5ChainLengthMismatch))) (\<lambda>_.
    rbind (at_step ''step-6'' (verify_leaf_invocation env leaf tool arguments)) (\<lambda>_.
    rbind (at_step ''profile-v0.2-approvals'' (if tk_profile leaf = DGProfileV02
             then validate_satisfied_approvals (tk_approval_refs leaf) (vo_satisfied_approval_refs opts) else Inr ())) (\<lambda>_.
    rbind (at_step ''step-7'' (ensure (pop \<noteq> []) (DenyPoP ErrDenyStep7PoPRequired))) (\<lambda>_.
    rbind (at_step ''step-7'' (verify_pop_jwt env leaf tool arguments pop (vo_now opts) (vo_audience opts)
             (tk_profile leaf = DGProfileV02))) (\<lambda>proof_jwt.
    Inr (verified, proof_jwt))))))))))))"

end
