(* ===== verification/AAT_Subsumption.thy ===== *)
theory AAT_Subsumption
  imports AAT_Constraints
begin

text \<open>
  What subsumption means: a value that a subsumed constraint accepts is accepted by the parent
  constraint, except where two different patterns are compared by their prefix.
\<close>

section \<open>The clauses of two all-constraints\<close>

definition clause_pair :: "clause_comparison \<Rightarrow> constraint option \<Rightarrow> constraint option \<Rightarrow> bool" where
  "clause_pair sub p c \<longleftrightarrow> p \<noteq> None \<and> c \<noteq> None \<and> map_option con_type c = map_option con_type p \<and> sub p c = Inr True"

lemma edge_row_spec:
  "edge_row sub k p cs = Inr js \<Longrightarrow> set js = {k + j |j. j < length cs \<and> clause_pair sub p (cs ! j)}"
proof (induction cs arbitrary: k js)
  case (Cons c cs)
  have shift: "{k + j |j. j < length (c # cs) \<and> clause_pair sub p ((c # cs) ! j)} =
      (if clause_pair sub p c then {k} else {}) \<union> {Suc k + j |j. j < length cs \<and> clause_pair sub p (cs ! j)}"
    (is "?A = ?B")
  proof (rule set_eqI)
    fix x
    have "(\<exists>j. x = k + j \<and> j < Suc (length cs) \<and> clause_pair sub p ((c # cs) ! j)) \<longleftrightarrow>
        x = k \<and> clause_pair sub p c \<or> (\<exists>j. x = Suc k + j \<and> j < length cs \<and> clause_pair sub p (cs ! j))"
      by (auto simp: less_Suc_eq_0_disj)
    then show "x \<in> ?A \<longleftrightarrow> x \<in> ?B" by auto
  qed
  show ?case
  proof (cases "p = None \<or> c = None \<or> map_option con_type c \<noteq> map_option con_type p")
    case True
    then show ?thesis using Cons.prems Cons.IH [of "Suc k" js] unfolding shift by (auto simp: clause_pair_def)
  next
    case False
    then obtain ok js' where ok: "sub p c = Inr ok" "edge_row sub (Suc k) p cs = Inr js'" "js = (if ok then k # js' else js')"
      using Cons.prems by (auto split: sum.splits)
    then show ?thesis using Cons.IH [OF ok(2)] False unfolding shift by (auto simp: clause_pair_def)
  qed
qed simp

lemma edge_rows_spec:
  "edge_rows sub ps cs = Inr edges \<Longrightarrow> length edges = length ps \<and>
    (\<forall>i<length ps. set (edges ! i) = {j. j < length cs \<and> clause_pair sub (ps ! i) (cs ! j)})"
proof (induction ps arbitrary: edges)
  case (Cons p ps)
  then obtain row rows where "edge_row sub 0 p cs = Inr row" "edge_rows sub ps cs = Inr rows" "edges = row # rows"
    by (auto split: sum.splits)
  then show ?case using Cons.IH [of rows] edge_row_spec [of sub 0 p cs row] by (auto simp: nth_Cons split: nat.splits)
qed simp

lemma match_all_clauses_iff:
  assumes "edge_rows sub ps cs = Inr edges"
  shows "match_all_clauses sub ps cs = Inr (\<exists>f. inj_on f {..<length ps} \<and>
    (\<forall>i<length ps. f i < length cs \<and> clause_pair sub (ps ! i) (cs ! f i)))"
proof -
  have e: "length edges = length ps"
      "\<And>i. i < length ps \<Longrightarrow> set (edges ! i) = {j. j < length cs \<and> clause_pair sub (ps ! i) (cs ! j)}"
    using edge_rows_spec [OF assms] by auto
  have "match_edges edges (length cs) \<longleftrightarrow> (\<exists>f. matching edges f)"
    using e by (intro match_edges_iff) auto
  also have "\<dots> \<longleftrightarrow> (\<exists>f. inj_on f {..<length ps} \<and> (\<forall>i<length ps. f i < length cs \<and> clause_pair sub (ps ! i) (cs ! f i)))"
    using e by (simp add: matching_def)
  finally show ?thesis using assms by (simp add: match_all_clauses_def)
qed

lemma match_all_clauses_covers:
  assumes "match_all_clauses sub ps cs = Inr True" "p \<in> set ps"
  obtains c where "c \<in> set cs" "sub p c = Inr True"
proof -
  obtain edges where "edge_rows sub ps cs = Inr edges"
    using assms(1) by (auto simp: match_all_clauses_def split: sum.splits)
  from match_all_clauses_iff [OF this] assms(1)
  obtain f where f: "\<forall>i<length ps. f i < length cs \<and> clause_pair sub (ps ! i) (cs ! f i)" by auto
  obtain i where "i < length ps" "ps ! i = p" using assms(2) by (auto simp: in_set_conv_nth)
  then show ?thesis using f that [of "cs ! f i"] by (auto simp: clause_pair_def)
qed

lemma any_parent_found: "any_parent sub ps c = Inr True \<Longrightarrow> \<exists>p\<in>set ps. sub p c = Inr True"
  by (induction ps) (auto split: sum.splits if_splits)

lemma any_clauses_covers:
  "any_clauses sub ps cs = Inr True \<Longrightarrow> c \<in> set cs \<Longrightarrow> \<exists>p\<in>set ps. sub p c = Inr True"
  by (induction cs) (auto split: sum.splits if_splits dest: any_parent_found)

section \<open>Soundness\<close>

text \<open>The patterns of a constraint, and the pairs of patterns whose prefix comparison is right.\<close>

fun patterns_of :: "constraint option \<Rightarrow> string list" and patterns_of_all :: "constraint option list \<Rightarrow> string list" where
  "patterns_of None = []"
| "patterns_of (Some c) =
    (if con_type c = ConstraintTypePattern then (case con_value c of GoStr p \<Rightarrow> [p] | _ \<Rightarrow> [])
     else if con_type c = ConstraintTypeAll \<or> con_type c = ConstraintTypeAny then patterns_of_all (con_children c)
     else [])"
| "patterns_of_all [] = []"
| "patterns_of_all (c # cs) = patterns_of c @ patterns_of_all cs"

lemma set_patterns_of_all: "set (patterns_of_all cs) = (\<Union>c\<in>set cs. set (patterns_of c))"
  by (induction cs) auto

definition prefix_comparable :: "string \<Rightarrow> string \<Rightarrow> bool" where
  "prefix_comparable p c \<longleftrightarrow> p = c \<or> literal (butlast p) \<and> within_segment (drop (length p - 1) (butlast c))"

definition patterns_comparable :: "constraint option \<Rightarrow> constraint option \<Rightarrow> bool" where
  "patterns_comparable parent child \<longleftrightarrow>
    list_all (\<lambda>p. list_all (\<lambda>c. pattern_narrows p c \<longrightarrow> prefix_comparable p c) (patterns_of child)) (patterns_of parent)"

lemma patterns_comparable_children:
  assumes "patterns_comparable (Some parent) (Some child)" "p \<in> set (con_children parent)" "c \<in> set (con_children child)"
    and "con_type parent \<in> {ConstraintTypeAll, ConstraintTypeAny}" "con_type child \<in> {ConstraintTypeAll, ConstraintTypeAny}"
  shows "patterns_comparable p c"
  using assms by (auto simp: patterns_comparable_def list_all_iff set_patterns_of_all)

lemma pattern_narrows_sound:
  assumes "pattern_narrows p c" "prefix_comparable p c" "glob_match c s = Inr True"
  shows "glob_match p s = Inr True"
proof (cases "p = c")
  case False
  obtain p1 c1 where pc: "p = p1 @ [star_char]" "c = c1 @ [star_char]" "startswith c1 p1"
    using assms(1) False unfolding pattern_narrows_def ends_with_star_def
    by (metis append_butlast_last_id)
  then obtain q where q: "c1 = p1 @ q" by (auto simp: startswith_def prefix_def)
  then have "literal p1" "within_segment q" using assms(2) False pc by (simp_all add: prefix_comparable_def butlast_append)
  then show ?thesis using glob_match_narrowing [of p1 q s] assms(3) pc q by simp
qed (use assms in simp)

lemma subsumes_pattern_sound:
  assumes "subsumes_pattern p c" "patterns_comparable (Some p) (Some c)" "con_type c = ConstraintTypePattern"
    and "accepts rx (Some c) v"
  shows "accepts rx (Some p) v"
proof (cases "con_type p = ConstraintTypeWildcard")
  case False
  then obtain pp pc where p: "con_type p = ConstraintTypePattern" "con_value p = GoStr pp" "con_value c = GoStr pc"
      "pattern_narrows pp pc"
    using assms(1) by (auto simp: subsumes_pattern_def split: constraint_type.splits go_value.splits)
  then have "prefix_comparable pp pc" using assms(2,3) by (simp add: patterns_comparable_def)
  then show ?thesis
    using pattern_narrows_sound [OF p(4)] assms(3,4) p
    by (auto simp: check_pattern_def ensure_def split: go_value.splits sum.splits if_splits)
qed simp

lemma subsumes_exact_sound:
  "subsumes_exact rx p c \<Longrightarrow> con_type c = ConstraintTypeExact \<Longrightarrow> accepts rx (Some c) v \<Longrightarrow> accepts rx (Some p) v"
  by (auto simp: subsumes_exact_def check_exact_def check_one_of_def ensure_def
      split: constraint_type.splits if_splits)

lemma range_sound:
  assumes "range_narrower_or_equal p c" "check_range v c = Inr ()"
  shows "check_range v p = Inr ()"
proof -
  obtain n where n: "to_float64 v = Some n" "\<not> below_min c n" "\<not> above_max c n"
    using assms(2) by (auto simp: check_range_def split: option.splits if_splits)
  have "\<not> below_min p n"
    using assms(1) n(2) by (auto simp: range_narrower_or_equal_def below_min_def split: option.splits if_splits)
  moreover have "\<not> above_max p n"
    using assms(1) n(3) by (auto simp: range_narrower_or_equal_def above_max_def split: option.splits if_splits)
  ultimately show ?thesis using n(1) by (simp add: check_range_def)
qed

definition canonicalizer_injective :: "canonicalizer \<Rightarrow> bool" where
  "canonicalizer_injective canon \<longleftrightarrow> (\<forall>a b. canon a \<noteq> None \<longrightarrow> canon a = canon b \<longrightarrow> a = b)"

lemma canonicalizer_injectiveD:
  "canonicalizer_injective canon \<Longrightarrow> canon a = Some x \<Longrightarrow> canon b = Some x \<Longrightarrow> a = b"
  unfolding canonicalizer_injective_def by (metis option.distinct(1))

lemma subsumes_constraint_sound:
  "canonicalizer_injective canon \<Longrightarrow> subsumes_constraint rx canon p c = Inr True \<Longrightarrow> patterns_comparable p c \<Longrightarrow> accepts rx c v \<Longrightarrow> accepts rx p v"
proof (induction rx canon p c rule: subsumes_constraint.induct)
  case (3 rx canon p c)
  show ?case
  proof (cases "con_type c")
    case ConstraintTypeExact
    then show ?thesis using 3 subsumes_exact_sound by simp
  next
    case ConstraintTypePattern
    then show ?thesis using 3 subsumes_pattern_sound by simp
  next
    case ConstraintTypeRange
    then show ?thesis using 3(4-) range_sound by (auto simp: subsumes_same_def)
  next
    case ConstraintTypeAll
    show ?thesis
    proof (cases "con_type p = ConstraintTypeWildcard")
      case False
      then have t: "con_type p = ConstraintTypeAll"
        and m: "match_all_clauses (subsumes_constraint rx canon) (con_children p) (con_children c) = Inr True"
        using 3(4) ConstraintTypeAll by (auto split: if_splits)
      have "accepts rx x v" if xp: "x \<in> set (con_children p)" for x
      proof -
        obtain y where y: "y \<in> set (con_children c)" "subsumes_constraint rx canon x y = Inr True"
          using match_all_clauses_covers [OF m xp] by blast
        then show ?thesis
          using 3(1) [OF ConstraintTypeAll False t xp y(1) 3(3) y(2)] 3(5,6) ConstraintTypeAll t xp
            patterns_comparable_children [of p c x y]
          by (simp add: check_all_iff)
      qed
      then show ?thesis using t by (simp add: check_all_iff)
    qed simp
  next
    case ConstraintTypeAny
    show ?thesis
    proof (cases "con_type p = ConstraintTypeWildcard")
      case False
      then have t: "con_type p = ConstraintTypeAny" "con_children c \<noteq> []"
        and m: "any_clauses (subsumes_constraint rx canon) (con_children p) (con_children c) = Inr True"
        using 3(4) ConstraintTypeAny by (auto split: if_splits)
      obtain y where y: "y \<in> set (con_children c)" "accepts rx y v"
        using 3(6) ConstraintTypeAny by (auto simp: check_any_iff)
      obtain x where x: "x \<in> set (con_children p)" "subsumes_constraint rx canon x y = Inr True"
        using any_clauses_covers [OF m y(1)] by blast
      have "accepts rx x v"
        using 3(2) [OF ConstraintTypeAny False t x(1) y(1) 3(3) x(2) _ y(2)] 3(5) ConstraintTypeAny t x(1) y(1)
          patterns_comparable_children [of p c x y]
        by simp
      then show ?thesis using t x(1) by (auto simp: check_any_iff)
    qed simp
  next
    case ConstraintTypeNot
    then have "p = c"
      using 3(3,4) by (auto simp: subsumes_not_def split: if_splits option.splits intro: canonicalizer_injectiveD)
    then show ?thesis using 3(6) by simp
  qed (use 3(4-6) in \<open>auto simp: subsumes_same_def check_one_of_def check_not_one_of_def check_contains_def
      check_subset_def check_regex_def ensure_def list_all_iff subset_iff split: if_splits option.splits go_value.splits\<close>)
qed simp_all

section \<open>Properties\<close>

text \<open>C14: A value that a subsumed child constraint accepts is accepted by the parent constraint, when the
  canonical text of a constraint determines it (it is compared for negations only) and every pair of different patterns that the
  code compares by prefix has a literal parent prefix (no wildcard, class or escape in it) that the child extends
  without a slash, class or escape.\<close>

theorem subsumption_sound:
  assumes "canonicalizer_injective canon"
    and "subsumes_constraint rx canon parent child = Inr True"
    and "patterns_comparable parent child"
    and "check_constraint rx v child = Inr ()"
  shows "check_constraint rx v parent = Inr ()"
  using subsumes_constraint_sound [OF assms] .

definition pattern_constraint :: "string \<Rightarrow> constraint" where
  "pattern_constraint p = Constraint ConstraintTypePattern (GoStr p) None None None None [] [] [] [] [] [] [] None"

definition range_constraint :: "rat \<Rightarrow> rat \<Rightarrow> constraint" where
  "range_constraint lo hi = Constraint ConstraintTypeRange GoNil (Some lo) (Some hi) None None [] [] [] [] [] [] [] None"

lemma no_canonicalizer_injective: "canonicalizer_injective (\<lambda>_. None)"
  by (simp add: canonicalizer_injective_def)

lemma glob_examples:
  "glob_match ''docs/gui*'' ''docs/guide.txt'' = Inr True"
  "glob_match ''docs*'' ''docs/private/key'' = Inr False"
  "glob_match ''docs/private/*'' ''docs/private/key'' = Inr True"
  by code_simp+

theorem subsumption_sound_witness:
  "check_constraint (\<lambda>_. None) (GoStr ''docs/guide.txt'') (Some (pattern_constraint ''docs/*'')) = Inr ()"
proof (rule subsumption_sound [OF no_canonicalizer_injective])
  show "subsumes_constraint (\<lambda>_. None) (\<lambda>_. None) (Some (pattern_constraint ''docs/*'')) (Some (pattern_constraint ''docs/gui*''))
      = Inr True"
    by (simp add: pattern_constraint_def subsumes_pattern_def pattern_narrows_def ends_with_star_def startswith_def)
  show "patterns_comparable (Some (pattern_constraint ''docs/*'')) (Some (pattern_constraint ''docs/gui*''))"
    by (simp add: pattern_constraint_def patterns_comparable_def prefix_comparable_def)
  show "check_constraint (\<lambda>_. None) (GoStr ''docs/guide.txt'') (Some (pattern_constraint ''docs/gui*'')) = Inr ()"
    by (simp add: pattern_constraint_def check_pattern_def ensure_def glob_examples)
qed

text \<open>C16: The search for augmenting paths compares two all-constraints correctly: when no comparison of clauses
  fails, the child is accepted exactly when every parent clause can be given a child clause of its own, of the
  same type and subsumed by it.\<close>

theorem match_all_clauses_finds_matching:
  assumes "edge_rows sub parent child = Inr edges"
  shows "match_all_clauses sub parent child =
    Inr (\<exists>f. inj_on f {..<length parent} \<and>
      (\<forall>i<length parent. f i < length child \<and> clause_pair sub (parent ! i) (child ! f i)))"
  using match_all_clauses_iff [OF assms] .

theorem match_all_clauses_finds_matching_witness:
  "let sub = subsumes_constraint (\<lambda>_. None) (\<lambda>_. None);
       parent = [Some (range_constraint 0 10), Some (range_constraint 0 5)];
       child = [Some (range_constraint 1 4), Some (range_constraint 2 9)]
   in match_all_clauses sub parent child =
     Inr (\<exists>f. inj_on f {..<length parent} \<and>
       (\<forall>i<length parent. f i < length child \<and> clause_pair sub (parent ! i) (child ! f i)))"
  unfolding Let_def
proof (rule match_all_clauses_finds_matching)
  show "edge_rows (subsumes_constraint (\<lambda>_. None) (\<lambda>_. None))
      [Some (range_constraint 0 10), Some (range_constraint 0 5)]
      [Some (range_constraint 1 4), Some (range_constraint 2 9)] = Inr [[0, 1], [0]]"
    by (simp add: range_constraint_def subsumes_same_def range_narrower_or_equal_def)
qed

section \<open>How far the comparison by prefix is right\<close>

lemma glob_match_prefix_iff:
  assumes "literal p" shows "glob_match (p @ [star_char]) s = Inr True \<longleftrightarrow> (\<exists>r. s = p @ r \<and> separator \<notin> set r)"
proof
  assume "glob_match (p @ [star_char]) s = Inr True"
  then obtain r where r: "s = p @ r" "glob_match [star_char] r = Inr True" using glob_match_literal [OF assms] by blast
  then show "\<exists>r. s = p @ r \<and> separator \<notin> set r" using glob_match_within_segment [of "[star_char]" r] by simp
qed (use glob_match_prefix [OF assms] in auto)

lemma accepts_prefix_pattern:
  "literal p \<Longrightarrow> check_constraint rx (GoStr s) (Some (pattern_constraint (p @ ''*''))) = Inr () \<longleftrightarrow>
    (\<exists>r. s = p @ r \<and> separator \<notin> set r)"
  using glob_match_prefix_iff [of p s]
  by (auto simp: pattern_constraint_def check_pattern_def ensure_def split: sum.split)

lemma no_double_star: "literal p \<Longrightarrow> \<not> contains_str ''**'' (p @ ''*'')"
  by (induction p) (auto simp: startswith_def)

lemma subsumes_prefix_pattern:
  assumes "literal p" "literal c"
  shows "subsumes_constraint rx canon (Some (pattern_constraint (p @ ''*''))) (Some (pattern_constraint (c @ ''*''))) =
    Inr (startswith c p)"
  using no_double_star assms
  by (auto simp: pattern_constraint_def subsumes_pattern_def pattern_narrows_def ends_with_star_def startswith_def)

text \<open>C34: The comparison of patterns by prefix is right exactly within a path segment. For literal texts \<open>p\<close> and \<open>c\<close>, \<open>p*\<close>
  subsumes \<open>c*\<close> exactly when \<open>p\<close> is a prefix of \<open>c\<close>, and \<open>c*\<close> accepts exactly the extensions of \<open>c\<close> without a slash. So a
  subsumed pattern accepts only what the parent accepts if and only if what it adds to the prefix has no
  slash: \<open>docs/private/*\<close> is subsumed by \<open>docs*\<close>, which accepts none of its names.\<close>

theorem pattern_prefix_escapes:
  assumes "literal p" and "literal c"
  shows "subsumes_constraint rx canon (Some (pattern_constraint (p @ ''*''))) (Some (pattern_constraint (c @ ''*''))) =
      Inr (startswith c p) \<and>
    (\<forall>s. check_constraint rx (GoStr s) (Some (pattern_constraint (c @ ''*''))) = Inr () \<longleftrightarrow>
      (\<exists>r. s = c @ r \<and> separator \<notin> set r)) \<and>
    (\<forall>q. c = p @ q \<longrightarrow>
      ((\<forall>s. check_constraint rx (GoStr s) (Some (pattern_constraint (c @ ''*''))) = Inr () \<longrightarrow>
          check_constraint rx (GoStr s) (Some (pattern_constraint (p @ ''*''))) = Inr ()) \<longleftrightarrow>
       separator \<notin> set q))"
proof (intro conjI allI impI subsumes_prefix_pattern accepts_prefix_pattern assms)
  fix q assume q: "c = p @ q"
  show "(\<forall>s. check_constraint rx (GoStr s) (Some (pattern_constraint (c @ ''*''))) = Inr () \<longrightarrow>
          check_constraint rx (GoStr s) (Some (pattern_constraint (p @ ''*''))) = Inr ()) \<longleftrightarrow> separator \<notin> set q"
    unfolding accepts_prefix_pattern [OF assms(1)] accepts_prefix_pattern [OF assms(2)]
  proof
    assume "\<forall>s. (\<exists>r. s = c @ r \<and> separator \<notin> set r) \<longrightarrow> (\<exists>r. s = p @ r \<and> separator \<notin> set r)"
    from this [THEN spec, of c] show "separator \<notin> set q" by (simp add: q)
  qed (auto simp: q)
qed

theorem pattern_prefix_escapes_witness:
  "subsumes_constraint (\<lambda>_. None) (\<lambda>_. None) (Some (pattern_constraint (''docs'' @ ''*'')))
      (Some (pattern_constraint (''docs/private/'' @ ''*''))) = Inr True \<and>
    (\<exists>s. check_constraint (\<lambda>_. None) (GoStr s) (Some (pattern_constraint (''docs/private/'' @ ''*''))) = Inr () \<and>
      check_constraint (\<lambda>_. None) (GoStr s) (Some (pattern_constraint (''docs'' @ ''*''))) \<noteq> Inr ())"
proof -
  have l: "literal ''docs''" "literal ''docs/private/''" by simp_all
  have c: "''docs/private/'' = ''docs'' @ ''/private/''" by simp
  note t = pattern_prefix_escapes [OF l, of "\<lambda>_. None" "\<lambda>_. None"]
  have "separator \<in> set ''/private/''" by simp
  then show ?thesis using t [THEN conjunct1] t [THEN conjunct2, THEN conjunct2, THEN spec, THEN mp, OF c]
    by (auto simp: startswith_def)
qed

end
