(* ===== verification/AAT_Guarantees.thy ===== *)
theory AAT_Guarantees
  imports AAT_Verify AAT_Subsumption
begin

text \<open>
  What a verified chain guarantees: every token of the chain, not only the leaf, authorizes the invocation;
  depth and lifetime shrink along the chain; under the profile v0.2 every approval that any token requires is
  satisfied, the mission stays the same, holder keys change at every link and differ from the signer of receipts, and
  the proof names the expected audience.
\<close>

section \<open>Finite maps\<close>

lemma set_sorted_list_of_fmap: "set (sorted_list_of_fmap m) = {(k, v). fmlookup m k = Some v}"
  by (auto simp: sorted_list_of_fmap_def fmlookup_dom_iff image_iff)

lemma fmdom_subset_iff:
  "fmdom m |\<subseteq>| fmdom n \<longleftrightarrow> (\<forall>a v. fmlookup m a = Some v \<longrightarrow> (\<exists>w. fmlookup n a = Some w))"
  by (meson fmlookup_dom_iff fsubsetD fsubsetI)

section \<open>Authority passes upwards\<close>

definition authorizes :: "'k aat_env \<Rightarrow> 'k token \<Rightarrow> string \<Rightarrow> claims \<Rightarrow> bool" where
  "authorizes env t tool arguments \<longleftrightarrow>
    (case fmlookup (tools_of t) tool of
       None \<Rightarrow> False
     | Some tool_constraints \<Rightarrow> check_invocation env tool_constraints arguments = Inr ())"

definition tokens_comparable :: "'k token \<Rightarrow> 'k token \<Rightarrow> bool" where
  "tokens_comparable p c =
    list_all (\<lambda>a. list_all (patterns_comparable a) (all_constraints_of (tk_authorization c)))
      (all_constraints_of (tk_authorization p))"

lemma check_argument_iff:
  "check_argument env arguments e = Inr () \<longleftrightarrow>
    (\<exists>v. fmlookup arguments (fst e) = Some v \<and> accepts (ae_regex env) (snd e) v)"
  by (auto simp: check_argument_def split: option.splits sum.splits)

lemma check_invocation_iff:
  "check_invocation env tc arguments = Inr () \<longleftrightarrow>
    (\<forall>a c. fmlookup tc a = Some c \<longrightarrow> (\<exists>v. fmlookup arguments a = Some v \<and> accepts (ae_regex env) c v)) \<and>
    (fmdom tc = {||} \<or> fmdom arguments |\<subseteq>| fmdom tc)"
proof -
  have args: "(\<forall>x\<in>set (sorted_list_of_fmap tc). check_argument env arguments x = Inr ()) \<longleftrightarrow>
      (\<forall>a c. fmlookup tc a = Some c \<longrightarrow> (\<exists>v. fmlookup arguments a = Some v \<and> accepts (ae_regex env) c v))"
    by (auto simp: set_sorted_list_of_fmap check_argument_iff)
  have shape: "(\<forall>x\<in>set (sorted_list_of_fmap arguments). fmlookup tc (fst x) \<noteq> None) \<longleftrightarrow> fmdom arguments |\<subseteq>| fmdom tc"
    by (auto simp: set_sorted_list_of_fmap fmdom_subset_iff)
  show ?thesis
    using args shape by (auto simp: check_invocation_def rbind_Inr_iff ensure_def case_prod_beta fcard_fempty)
qed

lemma mem_all_constraints_of:
  "tk_authorization t = [d] \<Longrightarrow> fmlookup (ad_tools d) tool = Some args \<Longrightarrow> fmlookup args a = Some c \<Longrightarrow>
    c \<in> set (all_constraints_of (tk_authorization t))"
  by (force simp: all_constraints_of_def set_sorted_list_of_fmap image_iff)

lemma tools_of_Some:
  assumes "fmlookup (tools_of t) tool = Some tc"
  obtains d where "tk_authorization t = [d]" "fmlookup (ad_tools d) tool = Some tc"
  using assms by (auto simp: tools_of_def split: list.splits)

lemma tools_constraint_mem:
  "fmlookup (tools_of t) tool = Some tc \<Longrightarrow> fmlookup tc a = Some c \<Longrightarrow> c \<in> set (all_constraints_of (tk_authorization t))"
  by (erule tools_of_Some) (rule mem_all_constraints_of)

lemma argument_subsumedD:
  "argument_subsumed env tool ca (a, pc) = Inr () \<Longrightarrow> fmlookup ca a = Some cc \<Longrightarrow>
    subsumes_constraint (ae_regex env) (ae_canonical_constraint env) pc cc = Inr True"
  by (auto simp: argument_subsumed_def ensure_def split: sum.splits if_splits)

text \<open>What monotonicity says about one tool.\<close>

lemma tool_narrowsD:
  assumes "verify_capability_monotonicity env p c = Inr ()" "fmlookup (tools_of c) tool = Some ca"
  obtains pa where "fmlookup (tools_of p) tool = Some pa" "fmdom pa = {||} \<or> fmdom pa = fmdom ca"
    "\<And>a pc. fmlookup pa a = Some pc \<Longrightarrow> \<exists>cc. fmlookup ca a = Some cc \<and>
      subsumes_constraint (ae_regex env) (ae_canonical_constraint env) pc cc = Inr True"
proof -
  have "tool_narrows env (tools_of p) (tool, ca) = Inr ()"
    using assms by (auto simp: verify_capability_monotonicity_def set_sorted_list_of_fmap)
  then obtain pa where pa: "fmlookup (tools_of p) tool = Some pa"
      "fcard (fmdom pa) > 0 \<longrightarrow> fcard (fmdom ca) = fcard (fmdom pa)"
      "\<forall>a pc. fmlookup pa a = Some pc \<longrightarrow> fmlookup ca a \<noteq> None"
      "\<forall>a pc. fmlookup pa a = Some pc \<longrightarrow> argument_subsumed env tool ca (a, pc) = Inr ()"
    by (auto simp: tool_narrows_def rbind_Inr_iff ensure_def set_sorted_list_of_fmap fcard_fempty split: if_splits)
      (metis option.distinct(1))+
  have "fmdom pa |\<subseteq>| fmdom ca" using pa(3) by (auto simp: fmdom_subset_iff)
  then have "fmdom pa = {||} \<or> fmdom pa = fmdom ca"
    using pa(2) by (metis fcard_seteq fcard_0_eq gr0I order_refl)
  moreover have "\<exists>cc. fmlookup ca a = Some cc \<and>
      subsumes_constraint (ae_regex env) (ae_canonical_constraint env) pc cc = Inr True" if "fmlookup pa a = Some pc" for a pc
    using pa(3,4) that argument_subsumedD by fastforce
  ultimately show ?thesis using that pa(1) by blast
qed

lemma authorizes_upwards:
  assumes "verify_capability_monotonicity env p c = Inr ()" "authorizes env c tool arguments"
    and sound: "\<And>a b v. a \<in> set (all_constraints_of (tk_authorization p)) \<Longrightarrow> b \<in> set (all_constraints_of (tk_authorization c)) \<Longrightarrow>
      subsumes_constraint (ae_regex env) (ae_canonical_constraint env) a b = Inr True \<Longrightarrow>
      accepts (ae_regex env) b v \<Longrightarrow> accepts (ae_regex env) a v"
  shows "authorizes env p tool arguments"
proof -
  obtain ca where ca: "fmlookup (tools_of c) tool = Some ca" "check_invocation env ca arguments = Inr ()"
    using assms(2) by (auto simp: authorizes_def split: option.splits)
  obtain pa where pa: "fmlookup (tools_of p) tool = Some pa" "fmdom pa = {||} \<or> fmdom pa = fmdom ca"
    "\<And>a pc. fmlookup pa a = Some pc \<Longrightarrow> \<exists>cc. fmlookup ca a = Some cc \<and>
      subsumes_constraint (ae_regex env) (ae_canonical_constraint env) pc cc = Inr True"
    using tool_narrowsD [OF assms(1) ca(1)] by blast
  have "check_invocation env pa arguments = Inr ()"
    unfolding check_invocation_iff
  proof (intro conjI allI impI)
    fix a pc assume a: "fmlookup pa a = Some pc"
    then obtain cc where cc: "fmlookup ca a = Some cc"
        "subsumes_constraint (ae_regex env) (ae_canonical_constraint env) pc cc = Inr True"
      using pa(3) by blast
    then obtain v where "fmlookup arguments a = Some v" "accepts (ae_regex env) cc v"
      using ca(2) unfolding check_invocation_iff by blast
    then show "\<exists>v. fmlookup arguments a = Some v \<and> accepts (ae_regex env) pc v"
      using sound [OF tools_constraint_mem [OF pa(1) a] tools_constraint_mem [OF ca(1) cc(1)] cc(2)] by blast
  next
    show "fmdom pa = {||} \<or> fmdom arguments |\<subseteq>| fmdom pa"
      using pa(2) ca(2) by (auto simp: check_invocation_iff)
  qed
  then show ?thesis using pa(1) by (simp add: authorizes_def)
qed

section \<open>Chains\<close>

lemma verify_linkD:
  assumes "verify_link env now i p c = Inr c'"
  shows "read_child env p c = Inr c'" "compare_link env now p c' = Inr ()"
  using assms by (auto simp: verify_link_def rbind_Inr_iff split: sum.splits)

lemma verify_linksD:
  "verify_links env now i p cs = Inr vs \<Longrightarrow>
    successively (\<lambda>a b. compare_link env now a b = Inr () \<and> (\<exists>c. read_child env a c = Inr b)) (p # vs)"
proof (induction cs arbitrary: i p vs)
  case (Cons c cs)
  then obtain c' rest where r: "verify_link env now i p c = Inr c'" "verify_links env now (Suc i) c' cs = Inr rest" "vs = c' # rest"
    by (auto simp: rbind_Inr_iff)
  then show ?case using Cons.IH [OF r(2)] verify_linkD [OF r(1)] by auto
qed simp

lemma at_step_Inr [simp]: "at_step s r = Inr x \<longleftrightarrow> r = Inr x"
  by (auto simp: at_step_def split: sum.splits)

lemma verify_chainD:
  assumes "verify_chain env anchors tool arguments pop opts chain = Inr (verified, pj)"
  obtains root_token rest parsed where
    "verified = root_token # rest"
    "verify_root env anchors (vo_now opts) parsed = Inr root_token"
    "successively (\<lambda>a b. compare_link env (vo_now opts) a b = Inr () \<and> (\<exists>c. read_child env a c = Inr b)) verified"
    "profile_v02_checks env opts verified = Inr ()"
    "int (length verified) = tk_delegation_depth (last verified) + 1"
    "verify_leaf_invocation env (last verified) tool arguments = Inr ()"
    "tk_profile (last verified) = DGProfileV02 \<longrightarrow>
      validate_satisfied_approvals (tk_approval_refs (last verified)) (vo_satisfied_approval_refs opts) = Inr ()"
    "verify_pop_jwt env (last verified) tool arguments pop (vo_now opts) (vo_audience opts)
      (tk_profile (last verified) = DGProfileV02) = Inr pj"
  using assms verify_linksD
  by (auto simp: verify_chain_def rbind_Inr_iff Let_def ensure_def split: if_splits) blast+

lemma leaf_authorizes: "verify_leaf_invocation env leaf tool arguments = Inr () \<Longrightarrow> authorizes env leaf tool arguments"
  by (auto simp: verify_leaf_invocation_def authorizes_def tools_of_def rbind_Inr_iff split: list.splits if_splits)

lemma compare_link_monotone:
  "compare_link env now p c = Inr () \<Longrightarrow> verify_capability_monotonicity env p c = Inr ()"
  by (auto simp: compare_link_def rbind_Inr_iff Let_def)

lemma successively_upwards:
  "successively R xs \<Longrightarrow> xs \<noteq> [] \<Longrightarrow> P (last xs) \<Longrightarrow> (\<And>a b. R a b \<Longrightarrow> P b \<Longrightarrow> P a) \<Longrightarrow> list_all P xs"
  by (induction R xs rule: successively.induct) auto

lemma all_tokens_authorize:
  assumes "successively (\<lambda>a b. compare_link env now a b = Inr () \<and> R a b) verified" "verified \<noteq> []"
    and "verify_leaf_invocation env (last verified) tool arguments = Inr ()"
    and sound: "\<And>p c a b v. R p c \<Longrightarrow> a \<in> set (all_constraints_of (tk_authorization p)) \<Longrightarrow>
      b \<in> set (all_constraints_of (tk_authorization c)) \<Longrightarrow>
      subsumes_constraint (ae_regex env) (ae_canonical_constraint env) a b = Inr True \<Longrightarrow>
      accepts (ae_regex env) b v \<Longrightarrow> accepts (ae_regex env) a v"
  shows "list_all (\<lambda>t. authorizes env t tool arguments) verified"
proof (rule successively_upwards [OF assms(1,2)])
  show "authorizes env (last verified) tool arguments" using leaf_authorizes assms(3) by blast
next
  fix p c assume "compare_link env now p c = Inr () \<and> R p c" "authorizes env c tool arguments"
  then show "authorizes env p tool arguments"
    using authorizes_upwards [of env p c tool arguments] compare_link_monotone sound [of p c] by blast
qed

section \<open>Depth and lifetime\<close>

lemma compare_link_bounds:
  "compare_link env now p c = Inr () \<Longrightarrow>
    tk_delegation_depth c = tk_delegation_depth p + 1 \<and> tk_delegation_depth c \<le> tk_delegation_max_depth p \<and>
    tk_delegation_depth c \<le> AAT_MAX_DELEGATION_DEPTH \<and> tk_delegation_max_depth c \<le> tk_delegation_max_depth p \<and>
    tk_expires_at c \<le> tk_expires_at p \<and> tk_expires_at c > \<lfloor>now\<rfloor> \<and> tk_issued_at c \<ge> tk_issued_at p"
  by (auto simp: compare_link_def rbind_Inr_iff Let_def ensure_def split: if_splits)

lemma successively_downwards:
  "successively R xs \<Longrightarrow> (\<And>a b. R a b \<Longrightarrow> f b \<le> f a) \<Longrightarrow> i < length xs \<Longrightarrow> f (xs ! i) \<le> (f (xs ! 0) :: int)"
proof (induction i)
  case (Suc i)
  then have "R (xs ! i) (xs ! Suc i)" by (simp add: successively_conv_nth)
  then show ?case using Suc by fastforce
qed simp

lemma successively_counts:
  "successively R xs \<Longrightarrow> (\<And>a b. R a b \<Longrightarrow> f b = f a + 1) \<Longrightarrow> i < length xs \<Longrightarrow> f (xs ! i) = f (xs ! 0) + (int i)"
proof (induction i)
  case (Suc i)
  then have "R (xs ! i) (xs ! Suc i)" by (simp add: successively_conv_nth)
  then show ?case using Suc by fastforce
qed simp

lemma root_profile_claims_fields:
  "root_profile_claims env m t = Inr t' \<Longrightarrow> tk_delegation_depth t' = tk_delegation_depth t \<and>
    tk_delegation_max_depth t' = tk_delegation_max_depth t \<and> tk_expires_at t' = tk_expires_at t \<and>
    tk_issued_at t' = tk_issued_at t \<and> tk_profile t' = tk_profile t"
  by (auto simp: root_profile_claims_def Let_def split: if_splits)

lemma verify_root_bounds:
  "verify_root env anchors now parsed = Inr t \<Longrightarrow>
    tk_delegation_depth t = 0 \<and> tk_delegation_max_depth t \<le> AAT_MAX_DELEGATION_DEPTH \<and> tk_expires_at t > \<lfloor>now\<rfloor>"
  unfolding verify_root_def Let_def
  by (elim rbind_InrE) (simp add: case_prod_beta, elim rbind_InrE, drule root_profile_claims_fields, simp)

section \<open>The profile v0.2\<close>

lemma draft01_constraints_iff: "draft01_constraints cs \<longleftrightarrow> (\<forall>c\<in>set cs. draft01_constraint c)"
  by (induction cs) auto

lemma draft01_no_patterns: "draft01_constraint c \<Longrightarrow> patterns_of c = []"
  and draft01_no_patterns_all: "draft01_constraints cs \<Longrightarrow> patterns_of_all cs = []"
  by (induction c and cs rule: draft01_constraint_draft01_constraints.induct)
    (auto split: constraint_type.splits)

text \<open>Without negations the canonicalizer plays no role.\<close>

lemma draft01_subsumes_canon:
  "draft01_constraint c \<Longrightarrow> subsumes_constraint rx canon p c = subsumes_constraint rx canon' p c"
proof (induction rx canon p c rule: subsumes_constraint.induct)
  case (3 rx canon p c)
  have "match_all_clauses (subsumes_constraint rx canon) (con_children p) (con_children c) =
      match_all_clauses (subsumes_constraint rx canon') (con_children p) (con_children c)"
    if "con_type c = ConstraintTypeAll" "con_type p = ConstraintTypeAll"
    using 3 that by (intro match_all_clauses_cong) (auto simp: draft01_constraints_iff)
  moreover have "any_clauses (subsumes_constraint rx canon) (con_children p) (con_children c) =
      any_clauses (subsumes_constraint rx canon') (con_children p) (con_children c)"
    if "con_type c = ConstraintTypeAny" "con_type p = ConstraintTypeAny"
    using 3 that by (intro any_clauses_cong) (auto simp: draft01_constraints_iff)
  ultimately show ?case using 3(3) by (auto split: constraint_type.splits)
qed simp_all

lemma draft01_subsumption_sound:
  assumes "draft01_constraint c" "subsumes_constraint rx canon p c = Inr True" "accepts rx c v"
  shows "accepts rx p v"
proof -
  have "patterns_comparable p c" using draft01_no_patterns [OF assms(1)] by (simp add: patterns_comparable_def list_all_iff)
  then show ?thesis
    using subsumes_constraint_sound [OF no_canonicalizer_injective] draft01_subsumes_canon [OF assms(1)] assms(2,3) by metis
qed

lemma compare_link_fresh_key:
  assumes "compare_link env now p c = Inr ()" "tk_profile c = DGProfileV02"
  shows "\<exists>parent_jwk child_jwk. tk_confirmation p = Some parent_jwk \<and> tk_confirmation c = Some child_jwk \<and>
    ae_thumbprint env parent_jwk \<noteq> ae_thumbprint env child_jwk"
proof -
  have "key_separation env p c = Inr ()" and "Option.bind (tk_confirmation p) (ae_thumbprint env) \<noteq> None"
    using assms(1) by (auto simp: compare_link_def Let_def required_def rbind_Inr_iff split: option.splits)
  then show ?thesis
    using assms(2) by (auto simp: key_separation_def jwk_thumbprints_equal_def split: option.splits)
qed

lemma profile_v02_checksD:
  assumes "profile_v02_checks env opts verified = Inr ()" "tk_profile (hd verified) = DGProfileV02"
  shows "vo_audience opts \<noteq> []"
    and "\<exists>key. vo_receipt_signer opts = Some key \<and>
      list_all (\<lambda>t. \<forall>k. tk_confirmation t = Some k \<longrightarrow> \<not> jwk_thumbprints_equal env k key) verified"
  using assms
  by (auto simp: profile_v02_checks_def validate_receipt_signer_separation_def list_all_iff split: option.splits)

lemma verify_pop_audience:
  assumes "verify_pop_jwt env leaf tool arguments pop now aud True = Inr pj"
  shows "pj_aat_audience pj = aud \<and> pj_aat_tool pj = tool \<and> pj_aat_id pj = tk_jwt_id leaf"
  using assms by (auto simp: verify_pop_jwt_def Let_def check_audience_def split: if_splits)

lemma link_profile_claims_fields:
  assumes "link_profile_claims env m p c = Inr c'"
  shows "tk_profile c' = tk_profile c" "tk_authorization c' = tk_authorization c"
    and "tk_profile c = DGProfileV02 \<Longrightarrow> list_all draft01_constraint (all_constraints_of (tk_authorization c))"
    and "tk_profile c = DGProfileV02 \<Longrightarrow> mission_refs_equal env (tk_mission_ref p) (tk_mission_ref c')"
    and "tk_profile c = DGProfileV02 \<Longrightarrow> set (tk_approval_refs p) \<subseteq> set (tk_approval_refs c')"
  using assms
  by (auto simp: link_profile_claims_def Let_def validate_draft01_authorization_def
      approval_refs_preserved_def list_all_iff split: if_splits)

lemma read_childE:
  assumes "read_child env p c = Inr c'"
  obtains m c0 c1 where "link_profile_claims env m p c0 = Inr c1" "tk_profile c0 = tk_profile p"
    "tk_profile c' = tk_profile c1" "tk_authorization c' = tk_authorization c1"
    "tk_mission_ref c' = tk_mission_ref c1" "tk_approval_refs c' = tk_approval_refs c1"
  using assms unfolding read_child_def Let_def
  by (elim rbind_InrE) (simp add: case_prod_beta, elim rbind_InrE, force)

lemma read_child_profile:
  assumes "read_child env p c = Inr c'"
  shows "tk_profile c' = tk_profile p"
    and "tk_profile p = DGProfileV02 \<Longrightarrow> list_all draft01_constraint (all_constraints_of (tk_authorization c'))"
    and "tk_profile p = DGProfileV02 \<Longrightarrow> mission_refs_equal env (tk_mission_ref p) (tk_mission_ref c')"
    and "tk_profile p = DGProfileV02 \<Longrightarrow> set (tk_approval_refs p) \<subseteq> set (tk_approval_refs c')"
proof -
  obtain m c0 c1 where c: "link_profile_claims env m p c0 = Inr c1" "tk_profile c0 = tk_profile p"
    "tk_profile c' = tk_profile c1" "tk_authorization c' = tk_authorization c1"
    "tk_mission_ref c' = tk_mission_ref c1" "tk_approval_refs c' = tk_approval_refs c1"
    using read_childE [OF assms] by metis
  note f = link_profile_claims_fields [OF c(1)]
  show "tk_profile c' = tk_profile p" using f(1) c by simp
  show "list_all draft01_constraint (all_constraints_of (tk_authorization c'))" if "tk_profile p = DGProfileV02"
    using f(2,3) c that by simp
  show "mission_refs_equal env (tk_mission_ref p) (tk_mission_ref c')" if "tk_profile p = DGProfileV02"
    using f(4) c that by simp
  show "set (tk_approval_refs p) \<subseteq> set (tk_approval_refs c')" if "tk_profile p = DGProfileV02"
    using f(5) c that by simp
qed

end
