(* ===== verification/AAT_Demo.thy ===== *)
theory AAT_Demo
  imports AAT_Guarantees
begin

text \<open>
  A concrete chain of two tokens under the profile v0.2, used to apply the guarantees: the root allows transfers of
  at most 100, its child transfers of at most 10. Keys are names, a signature is right when the key and the text are
  the expected ones, and the digest of the root stays symbolic. A second root has no approval references.
\<close>

definition root_jws :: string where "root_jws = ''h.R.s''"
definition leaf_jws :: string where "leaf_jws = ''h.L.s''"
definition bare_jws :: string where "bare_jws = ''h.N.s''"

definition demo_tools :: "rat \<Rightarrow> json_tree" where
  "demo_tools limit = TreeArr [TreeObj [(''type'', TreeStr AuthorizationDetailType),
    (''tools'', TreeObj [(''pay'', TreeObj [(''amount'', TreeObj [(''max'', TreeNum limit)])])])]]"

definition demo_claims ::
  "string \<Rightarrow> string \<Rightarrow> rat \<Rightarrow> string \<Rightarrow> rat \<Rightarrow> (string \<times> json_tree) list \<Rightarrow> json_tree \<Rightarrow> (string \<times> json_tree) list" where
  "demo_claims jti iss depth key limit link refs =
    [(''ardur_approval_refs'', refs), (''mission_ref'', TreeStr ''urn:mission''),
     (''ardur_dg_profile'', TreeStr DGProfileV02)] @ link @
    [(''authorization_details'', demo_tools limit),
     (''cnf'', TreeObj [(''jwk'', TreeObj [(''kid'', TreeStr key)])]),
     (''del_max_depth'', TreeNum 1), (''del_depth'', TreeNum depth),
     (''exp'', TreeNum 2000), (''iat'', TreeNum 1000), (''iss'', TreeStr iss), (''jti'', TreeStr jti)]"

definition root_tree :: json_tree where
  "root_tree = TreeObj (demo_claims ''r1'' ''https://as'' 0 ''alice'' 100 [] (TreeArr [TreeStr ''finance'']))"

definition bare_tree :: json_tree where
  "bare_tree = TreeObj (demo_claims ''n1'' ''https://as'' 0 ''alice'' 100 [] TreeNull)"

definition leaf_tree :: json_tree where
  "leaf_tree = TreeObj (demo_claims ''l1'' (thumbprint_issuer (utf8 ''alice'')) 1 ''bob'' 10
    [(''par_hash'', TreeStr (raw_url_encode (sha256 (utf8 ''h.R''))))] (TreeArr [TreeStr ''finance'']))"

definition demo_arguments :: claims where
  "demo_arguments = fmap_of_list [(''amount'', GoNum 7)]"

definition pop_claims :: claims where
  "pop_claims = fmap_of_list [(''jti'', GoStr ''p1''), (''iat'', GoNum 1500), (''aat_id'', GoStr ''l1''),
    (''aat_tool'', GoStr ''pay''), (''aat_aud'', GoStr ''gateway''), (''hta'', GoObj demo_arguments)]"

definition demo_env :: "string aat_env" where
  "demo_env =
    \<lparr>ae_payload = (\<lambda>p. if p = ''R'' then Some root_tree else if p = ''L'' then Some leaf_tree
       else if p = ''N'' then Some bare_tree else None),
     ae_parse_signed = (\<lambda>s. s \<in> {root_jws, leaf_jws, bare_jws}),
     ae_verify = (\<lambda>k s. utf8 k = utf8 ''alice'' \<and> s = leaf_jws \<or> utf8 k = utf8 ''as'' \<and> s = bare_jws),
     ae_verify_anchor = (\<lambda>a s. a = replicate 32 7 \<and> s \<in> {root_jws, bare_jws}),
     ae_public_jwk = (\<lambda>m. case fmlookup m ''kid'' of Some (GoStr k) \<Rightarrow> Some k | _ \<Rightarrow> None),
     ae_thumbprint = (\<lambda>k. Some (utf8 k)),
     ae_decode_constraint = (\<lambda>m. case fmlookup m ''max'' of Some (GoNum q) \<Rightarrow> Some (range_constraint 0 q) | _ \<Rightarrow> None),
     ae_uri_with_scheme = (\<lambda>s. CHR '':'' \<in> set s),
     ae_int64 = (\<lambda>q. \<lfloor>q\<rfloor>),
     ae_regex = (\<lambda>_. None),
     ae_canonical_constraint = (\<lambda>_. None),
     ae_canonical_value = (\<lambda>v. Some (case v of GoStr s \<Rightarrow> s | _ \<Rightarrow> ''object'')),
     ae_canonical_text = Some,
     ae_pop_payload = (\<lambda>k s. if k = ''bob'' \<and> s = ''proof'' then Some ''payload'' else None),
     ae_unmarshal = (\<lambda>s. if s = ''payload'' then Some pop_claims else None)\<rparr>"

definition demo_opts :: "string verify_chain_opts" where
  "demo_opts = \<lparr>vo_now = 1500, vo_audience = ''gateway'', vo_receipt_signer = Some ''carol'',
    vo_satisfied_approval_refs = [''finance'']\<rparr>"

definition demo_token :: "string \<Rightarrow> string \<Rightarrow> string token" where
  "demo_token jws signing_input = blank_token jws signing_input"

definition demo_chain :: "string token option list" where
  "demo_chain = [Some (demo_token root_jws []), Some (demo_token leaf_jws [])]"

definition demo_authorization :: "rat \<Rightarrow> authorization_detail list" where
  "demo_authorization limit = [\<lparr>ad_type = AuthorizationDetailType,
    ad_tools = fmap_of_list [(''pay'', fmap_of_list [(''amount'', Some (range_constraint 0 limit))])]\<rparr>]"

definition demo_root :: "string token" where
  "demo_root = (demo_token root_jws ''h.R'')\<lparr>tk_jwt_id := ''r1'', tk_issuer := ''https://as'', tk_issued_at := 1000,
    tk_expires_at := 2000, tk_confirmation := Some ''alice'', tk_delegation_max_depth := 1,
    tk_authorization := demo_authorization 100, tk_profile := DGProfileV02, tk_mission_ref := GoStr ''urn:mission'',
    tk_approval_refs := [''finance'']\<rparr>"

definition demo_leaf :: "string token" where
  "demo_leaf = (demo_token leaf_jws ''h.L'')\<lparr>tk_jwt_id := ''l1'', tk_issuer := thumbprint_issuer (utf8 ''alice''),
    tk_issued_at := 1000, tk_expires_at := 2000, tk_confirmation := Some ''bob'', tk_delegation_depth := 1,
    tk_delegation_max_depth := 1, tk_parent_hash := raw_url_encode (sha256 (utf8 ''h.R'')),
    tk_authorization := demo_authorization 10, tk_profile := DGProfileV02, tk_mission_ref := GoStr ''urn:mission'',
    tk_approval_refs := [''finance'']\<rparr>"

definition demo_pop :: pop_jwt where
  "demo_pop = \<lparr>pj_jwt_id = ''p1'', pj_issued_at = 1500, pj_aat_id = ''l1'', pj_aat_tool = ''pay'',
    pj_aat_audience = ''gateway'', pj_hta = demo_arguments\<rparr>"

section \<open>Reading the claims\<close>

lemma sorted_list_of_fmap_singleton [simp]:
  "sorted_list_of_fmap fmempty = []" "sorted_list_of_fmap (fmupd k v fmempty) = [(k, v)]"
  by (simp_all add: sorted_list_of_fmap_def sorted_list_of_fset.rep_eq)

lemma demo_env_fields [simp]:
  "ae_parse_signed demo_env s \<longleftrightarrow> s \<in> {root_jws, leaf_jws, bare_jws}"
  "ae_verify demo_env k s \<longleftrightarrow> utf8 k = utf8 ''alice'' \<and> s = leaf_jws \<or> utf8 k = utf8 ''as'' \<and> s = bare_jws"
  "ae_verify_anchor demo_env a s \<longleftrightarrow> a = replicate 32 7 \<and> s \<in> {root_jws, bare_jws}"
  "ae_thumbprint demo_env k = Some (utf8 k)"
  "ae_int64 demo_env q = \<lfloor>q\<rfloor>"
  "ae_regex demo_env = (\<lambda>_. None)"
  "ae_canonical_constraint demo_env = (\<lambda>_. None)"
  "ae_canonical_value demo_env v = Some (case v of GoStr s \<Rightarrow> s | _ \<Rightarrow> ''object'')"
  "ae_uri_with_scheme demo_env s \<longleftrightarrow> CHR '':'' \<in> set s"
  "ae_canonical_text demo_env = Some"
  by (simp_all add: demo_env_def)

lemma demo_payloads:
  "ae_payload demo_env ''R'' = Some root_tree" "ae_payload demo_env ''L'' = Some leaf_tree"
  "ae_payload demo_env ''N'' = Some bare_tree"
  by (simp_all add: demo_env_def)

lemma demo_compact:
  "split_compact root_jws = [''h'', ''R'', ''s'']" "split_compact leaf_jws = [''h'', ''L'', ''s'']"
  "split_compact bare_jws = [''h'', ''N'', ''s'']"
  by (simp_all add: split_compact_def cut_dot_def root_jws_def leaf_jws_def bare_jws_def)

definition root_claims :: claims where
  "root_claims = (case decode_unique root_tree of Some (GoObj m) \<Rightarrow> m | _ \<Rightarrow> fmempty)"

definition leaf_claims :: claims where
  "leaf_claims = (case decode_unique leaf_tree of Some (GoObj m) \<Rightarrow> m | _ \<Rightarrow> fmempty)"

lemma root_parsed: "parse_claims demo_env root_jws = Inr root_claims"
  by (simp add: parse_claims_def demo_compact demo_payloads root_claims_def root_tree_def demo_claims_def demo_tools_def)

lemma leaf_parsed: "parse_claims demo_env leaf_jws = Inr leaf_claims"
  by (simp add: parse_claims_def demo_compact demo_payloads leaf_claims_def leaf_tree_def demo_claims_def demo_tools_def)

definition demo_tools_value :: "rat \<Rightarrow> go_value" where
  "demo_tools_value limit = GoArr [GoObj (fmap_of_list [(''type'', GoStr AuthorizationDetailType),
    (''tools'', GoObj (fmap_of_list [(''pay'', GoObj (fmap_of_list [(''amount'', GoObj (fmap_of_list [(''max'', GoNum limit)]))]))]))])]"

lemma demo_tools_decoded: "decode_unique (demo_tools limit) = Some (demo_tools_value limit)"
  by (simp add: demo_tools_def demo_tools_value_def fmupd_reorder_neq)

lemmas claims_defs = root_claims_def leaf_claims_def root_tree_def leaf_tree_def demo_claims_def

lemma root_claim_values [simp]:
  "fmlookup root_claims ''jti'' = Some (GoStr ''r1'')"
  "fmlookup root_claims ''iss'' = Some (GoStr ''https://as'')"
  "fmlookup root_claims ''iat'' = Some (GoNum 1000)"
  "fmlookup root_claims ''exp'' = Some (GoNum 2000)"
  "fmlookup root_claims ''del_depth'' = Some (GoNum 0)"
  "fmlookup root_claims ''del_max_depth'' = Some (GoNum 1)"
  "fmlookup root_claims ''par_hash'' = None"
  "fmlookup root_claims ''aat_type'' = None"
  "fmlookup root_claims ''ardur_dg_profile'' = Some (GoStr DGProfileV02)"
  "fmlookup root_claims ''mission_ref'' = Some (GoStr ''urn:mission'')"
  "fmlookup root_claims ''ardur_approval_refs'' = Some (GoArr [GoStr ''finance''])"
  "fmlookup root_claims ''authorization_details'' = Some (demo_tools_value 100)"
  "confirmation_claim demo_env root_claims = Some ''alice''"
  by (simp_all add: claims_defs demo_tools_decoded confirmation_claim_def demo_env_def)

lemma leaf_claim_values [simp]:
  "fmlookup leaf_claims ''jti'' = Some (GoStr ''l1'')"
  "fmlookup leaf_claims ''iss'' = Some (GoStr (thumbprint_issuer (utf8 ''alice'')))"
  "fmlookup leaf_claims ''iat'' = Some (GoNum 1000)"
  "fmlookup leaf_claims ''exp'' = Some (GoNum 2000)"
  "fmlookup leaf_claims ''del_depth'' = Some (GoNum 1)"
  "fmlookup leaf_claims ''del_max_depth'' = Some (GoNum 1)"
  "fmlookup leaf_claims ''par_hash'' = Some (GoStr (raw_url_encode (sha256 (utf8 ''h.R''))))"
  "fmlookup leaf_claims ''aat_type'' = None"
  "fmlookup leaf_claims ''ardur_dg_profile'' = Some (GoStr DGProfileV02)"
  "fmlookup leaf_claims ''mission_ref'' = Some (GoStr ''urn:mission'')"
  "fmlookup leaf_claims ''ardur_approval_refs'' = Some (GoArr [GoStr ''finance''])"
  "fmlookup leaf_claims ''authorization_details'' = Some (demo_tools_value 10)"
  "confirmation_claim demo_env leaf_claims = Some ''bob''"
  by (simp_all add: claims_defs demo_tools_decoded confirmation_claim_def demo_env_def)

section \<open>Verifying the chain\<close>

lemma demo_range_type [simp]: "con_type (range_constraint lo hi) = ConstraintTypeRange"
  by (simp add: range_constraint_def)

lemma demo_authorization_read:
  assumes "fmlookup m ''authorization_details'' = Some (demo_tools_value limit)"
  shows "validate_authorization m b" "extract_authorization demo_env m = Some (demo_authorization limit)"
  using assms
  by (simp_all add: demo_tools_value_def validate_authorization_def extract_authorization_def object_with_type_def
      is_aat_entry_def string_claim_def extract_detail_def parse_tool_map_def parse_argument_map_def parse_constraint_def
      demo_authorization_def demo_env_def)

lemma demo_authorization_constraints [simp]:
  "all_constraints_of (demo_authorization limit) = [Some (range_constraint 0 limit)]"
  by (simp add: all_constraints_of_def demo_authorization_def)

lemma demo_authorization_length [simp]: "length (demo_authorization limit) = 1"
  by (simp add: demo_authorization_def)

lemma demo_pop_read:
  "ae_pop_payload demo_env ''bob'' ''proof'' = Some ''payload''" "ae_unmarshal demo_env ''payload'' = Some pop_claims"
  by (simp_all add: demo_env_def)

lemma demo_jws_size: "length (utf8 root_jws) = 5" "length (utf8 leaf_jws) = 5" "root_jws \<noteq> []" "leaf_jws \<noteq> []"
  by (simp_all add: root_jws_def leaf_jws_def utf8_def code_point_def)

lemma demo_approvals:
  "fmlookup m ''ardur_approval_refs'' = Some (GoArr [GoStr ''finance'']) \<Longrightarrow> approval_refs_from_claims m = Inr [''finance'']"
  by (simp add: approval_refs_from_claims_def normalize_approval_refs_def valid_approval_ref_def trim_space_def
      is_go_space_def is_control_def code_point_def utf8_def)

lemma demo_mission: "validate_mission_ref demo_env (GoStr ''urn:mission'') = Inr ()"
  by (simp add: validate_mission_ref_def valid_mission_ref_uri_def trim_space_def is_go_space_def code_point_def)

lemma demo_profile: "fmlookup m ''ardur_dg_profile'' = Some (GoStr DGProfileV02) \<Longrightarrow> fmlookup m ''aat_type'' = None \<Longrightarrow>
    detect_token_profile m = Inr (DGProfileV02, AATTypeNone)"
  by (simp add: detect_token_profile_def)

lemma demo_root_verified: "verify_root demo_env [replicate 32 7] 1500 (demo_token root_jws ''h.R'') = Inr demo_root"
  by (simp add: verify_root_def Let_def demo_token_def blank_token_def root_parsed demo_profile integral_claim_def float_claim_def
      string_claim_def wrap64_def MAX_IAT_SKEW_S_def MAX_TOKEN_LIFETIME_S_def AAT_MAX_DELEGATION_DEPTH_def
      demo_authorization_read root_profile_claims_def validate_draft01_authorization_def demo_mission demo_approvals demo_root_def)

lemma demo_leaf_read: "read_child demo_env demo_root (demo_token leaf_jws ''h.L'') = Inr demo_leaf"
  by (simp add: read_child_def Let_def demo_token_def blank_token_def leaf_parsed demo_profile integral_claim_def float_claim_def
      string_claim_def demo_authorization_read link_profile_claims_def validate_draft01_authorization_def demo_mission
      demo_approvals mission_refs_equal_def approval_refs_preserved_def demo_root_def demo_leaf_def)

lemma demo_range_depth [simp]: "constraint_depth (Some (range_constraint lo hi)) = 1"
  by (simp add: range_constraint_def)

lemma demo_monotone: "verify_capability_monotonicity demo_env demo_root demo_leaf = Inr ()"
  by (simp add: verify_capability_monotonicity_def tools_of_def demo_root_def demo_leaf_def demo_authorization_def
      tool_narrows_def argument_subsumed_def subsumes_same_def range_narrower_or_equal_def range_constraint_def)

lemma demo_leaf_compared: "compare_link demo_env 1500 demo_root demo_leaf = Inr ()"
  using demo_monotone
  by (simp add: compare_link_def Let_def AAT_MAX_DELEGATION_DEPTH_def MAX_IAT_SKEW_S_def MAX_CONSTRAINT_DEPTH_def wrap64_def
      compute_parent_hash_def key_separation_def jwk_thumbprints_equal_def)
    (simp add: demo_root_def demo_leaf_def demo_token_def blank_token_def utf8_def code_point_def range_constraint_def
      jwk_thumbprints_equal_def)

lemma demo_leaf_invocation: "verify_leaf_invocation demo_env demo_leaf ''pay'' demo_arguments = Inr ()"
  by (simp add: verify_leaf_invocation_def demo_leaf_def demo_authorization_def check_invocation_def check_argument_def
      demo_arguments_def check_range_def range_constraint_def below_min_def above_max_def to_float64_def)

lemma demo_pop_verified: "verify_pop_jwt demo_env demo_leaf ''pay'' demo_arguments ''proof'' 1500 ''gateway'' True = Inr demo_pop"
  by (simp add: verify_pop_jwt_def demo_leaf_def demo_token_def blank_token_def Let_def string_claim_def float_claim_def
      check_audience_def check_hta_def MAX_IAT_SKEW_S_def demo_pop_def demo_pop_read pop_claims_def)

lemma demo_structure: "validate_structure demo_env demo_chain = Inr [demo_token root_jws [], demo_token leaf_jws []]"
  by (simp add: validate_structure_def demo_chain_def token_sizes_ok_def MAX_STACK_SIZE_def MAX_TOKEN_SIZE_def
      demo_token_def blank_token_def extract_untrusted_jti_def demo_compact demo_payloads demo_jws_size
      root_tree_def leaf_tree_def demo_claims_def)

lemma demo_verified:
  "verify_chain demo_env [replicate 32 7] ''pay'' demo_arguments ''proof'' demo_opts demo_chain =
    Inr ([demo_root, demo_leaf], demo_pop)"
proof -
  have "mapM prepare_compact_token [demo_token root_jws [], demo_token leaf_jws []] =
      Inr [demo_token root_jws ''h.R'', demo_token leaf_jws ''h.L'']"
    by (simp add: prepare_compact_token_def demo_token_def blank_token_def demo_jws_size demo_compact)
  moreover have "verify_link demo_env 1500 0 demo_root (demo_token leaf_jws ''h.L'') = Inr demo_leaf"
    by (simp add: verify_link_def demo_leaf_read demo_leaf_compared)
  moreover have "profile_v02_checks demo_env demo_opts [demo_root, demo_leaf] = Inr ()"
    by (simp add: profile_v02_checks_def demo_opts_def validate_receipt_signer_separation_def jwk_thumbprints_equal_def
        demo_root_def demo_leaf_def utf8_def code_point_def)
  moreover have "validate_satisfied_approvals (tk_approval_refs demo_leaf) [''finance''] = Inr ()"
    by (simp add: validate_satisfied_approvals_def demo_leaf_def)
  moreover have "tk_profile demo_leaf = DGProfileV02" "tk_delegation_depth demo_leaf = 1"
    by (simp_all add: demo_leaf_def)
  moreover have "demo_chain \<noteq> []" by (simp add: demo_chain_def)
  ultimately show ?thesis
    using demo_structure demo_root_verified demo_leaf_invocation demo_pop_verified
    by (simp add: verify_chain_def at_step_def Let_def demo_opts_def)
qed

end
