(* ===== verification/AAT_Properties.thy ===== *)
theory AAT_Properties
  imports AAT_Demo
begin

text \<open>The guarantees of chain verification (\<open>pkg/aat\<close>), applied to a concrete chain.\<close>

lemma verified_profiles:
  assumes "successively (\<lambda>a b. compare_link env now a b = Inr () \<and> (\<exists>c. read_child env a c = Inr b)) verified"
    and "verified \<noteq> []" "t \<in> set verified"
  shows "tk_profile t = tk_profile (hd verified)"
  using assms
proof (induction verified arbitrary: t)
  case (Cons a xs)
  then show ?case using read_child_profile(1) by (cases xs) fastforce+
qed simp

text \<open>C10: When a chain is permitted, every token of it authorizes the invocation, not only the leaf: the tool is among its
  tools and every argument satisfies its constraint. Two conditions: the canonical text of a constraint determines it, and
  between adjacent tokens every pair of different patterns that the code compares by prefix has a literal parent prefix, which the child
  extends without a slash, class or escape.\<close>

theorem chain_authorized_by_every_token:
  assumes "verify_chain env anchors tool arguments pop opts chain = Inr (verified, pj)"
    and "canonicalizer_injective (ae_canonical_constraint env)"
    and "successively tokens_comparable verified"
  shows "list_all (\<lambda>t. authorizes env t tool arguments) verified"
proof -
  obtain root_token rest where v: "verified = root_token # rest"
      "successively (\<lambda>a b. compare_link env (vo_now opts) a b = Inr () \<and> (\<exists>c. read_child env a c = Inr b)) verified"
      "verify_leaf_invocation env (last verified) tool arguments = Inr ()"
    by (rule verify_chainD [OF assms(1)], rule that) assumption+
  have "successively (\<lambda>a b. compare_link env (vo_now opts) a b = Inr () \<and> tokens_comparable a b) verified"
    using v(2) assms(3) by (auto simp: successively_conv_nth)
  then show ?thesis
  proof (rule all_tokens_authorize)
    fix p c a b v
    assume "tokens_comparable p c" "a \<in> set (all_constraints_of (tk_authorization p))"
      "b \<in> set (all_constraints_of (tk_authorization c))"
      "subsumes_constraint (ae_regex env) (ae_canonical_constraint env) a b = Inr True" "accepts (ae_regex env) b v"
    then show "accepts (ae_regex env) a v"
      using subsumes_constraint_sound [OF assms(2)] by (auto simp: tokens_comparable_def list_all_iff)
  qed (use v in auto)
qed

theorem chain_authorized_by_every_token_witness:
  "list_all (\<lambda>t. authorizes demo_env t ''pay'' demo_arguments) [demo_root, demo_leaf]"
proof (rule chain_authorized_by_every_token [OF demo_verified])
  show "canonicalizer_injective (ae_canonical_constraint demo_env)"
    by (simp add: no_canonicalizer_injective)
  show "successively tokens_comparable [demo_root, demo_leaf]"
    by (simp add: tokens_comparable_def demo_root_def demo_leaf_def patterns_comparable_def)
qed

text \<open>The links of a permitted chain under the profile v0.2.\<close>

abbreviation v02_link :: "'k aat_env \<Rightarrow> rat \<Rightarrow> 'k token \<Rightarrow> 'k token \<Rightarrow> bool" where
  "v02_link env now a b \<equiv> compare_link env now a b = Inr () \<and>
    ((\<exists>c. read_child env a c = Inr b) \<and> tk_profile a = DGProfileV02 \<and> tk_profile b = DGProfileV02)"

lemma v02_authorized:
  assumes "successively (v02_link env now) verified" "verified \<noteq> []"
    and "verify_leaf_invocation env (last verified) tool arguments = Inr ()"
  shows "list_all (\<lambda>t. authorizes env t tool arguments) verified"
proof (rule all_tokens_authorize [OF assms])
  fix p c a b v
  assume "(\<exists>x. read_child env p x = Inr c) \<and> tk_profile p = DGProfileV02 \<and> tk_profile c = DGProfileV02"
    "b \<in> set (all_constraints_of (tk_authorization c))"
    "subsumes_constraint (ae_regex env) (ae_canonical_constraint env) a b = Inr True" "accepts (ae_regex env) b v"
  moreover from calculation have "draft01_constraint b"
    using read_child_profile(2) unfolding list_all_iff by blast
  ultimately show "accepts (ae_regex env) a v" using draft01_subsumption_sound by blast
qed

lemma v02_approved:
  assumes "successively (v02_link env now) verified" "verified \<noteq> []"
    and "validate_satisfied_approvals (tk_approval_refs (last verified)) satisfied = Inr ()"
  shows "list_all (\<lambda>t. set (tk_approval_refs t) \<subseteq> set satisfied) verified"
proof (rule successively_upwards [OF assms(1,2)])
  show "set (tk_approval_refs (last verified)) \<subseteq> set satisfied"
    using assms(3) by (auto simp: validate_satisfied_approvals_def)
qed (use read_child_profile(4) in blast)

lemma v02_one_mission:
  assumes "successively (v02_link env now) verified" "verified \<noteq> []"
  shows "list_all (\<lambda>t. ae_canonical_value env (tk_mission_ref t) = ae_canonical_value env (tk_mission_ref (hd verified))) verified"
  unfolding list_all_length
proof (intro allI impI)
  fix i assume "i < length verified"
  then show "ae_canonical_value env (tk_mission_ref (verified ! i)) = ae_canonical_value env (tk_mission_ref (hd verified))"
  proof (induction i)
    case (Suc i)
    then show ?case using assms(1) read_child_profile(3)
      by (fastforce simp: successively_conv_nth mission_refs_equal_def)
  qed (use assms(2) in \<open>simp add: hd_conv_nth\<close>)
qed

text \<open>C11: What the profile v0.2 adds, without any condition on the constraints. A permitted chain is authorized by every
  token; every approval that any of its tokens requires is satisfied; every token has the mission of the root; the holder key changes
  at every link; the signer of receipts is given and holds no key of the chain; and the proof of possession names the expected
  audience, which is not empty.\<close>

theorem profile_v02_chain_guarantee:
  assumes "verify_chain env anchors tool arguments pop opts chain = Inr (verified, pj)"
    and "tk_profile (hd verified) = DGProfileV02"
  shows "list_all (\<lambda>t. authorizes env t tool arguments \<and>
      set (tk_approval_refs t) \<subseteq> set (vo_satisfied_approval_refs opts) \<and>
      ae_canonical_value env (tk_mission_ref t) = ae_canonical_value env (tk_mission_ref (hd verified))) verified \<and>
    successively (\<lambda>a b. \<exists>parent_jwk child_jwk. tk_confirmation a = Some parent_jwk \<and> tk_confirmation b = Some child_jwk \<and>
      ae_thumbprint env parent_jwk \<noteq> ae_thumbprint env child_jwk) verified \<and>
    (\<exists>key. vo_receipt_signer opts = Some key \<and>
      list_all (\<lambda>t. \<forall>k. tk_confirmation t = Some k \<longrightarrow> \<not> jwk_thumbprints_equal env k key) verified) \<and>
    pj_aat_audience pj = vo_audience opts \<and> vo_audience opts \<noteq> []"
proof -
  obtain root_token rest where v: "verified = root_token # rest"
      "successively (\<lambda>a b. compare_link env (vo_now opts) a b = Inr () \<and> (\<exists>c. read_child env a c = Inr b)) verified"
      "profile_v02_checks env opts verified = Inr ()"
      "verify_leaf_invocation env (last verified) tool arguments = Inr ()"
      "tk_profile (last verified) = DGProfileV02 \<longrightarrow>
        validate_satisfied_approvals (tk_approval_refs (last verified)) (vo_satisfied_approval_refs opts) = Inr ()"
      "verify_pop_jwt env (last verified) tool arguments pop (vo_now opts) (vo_audience opts)
        (tk_profile (last verified) = DGProfileV02) = Inr pj"
    by (rule verify_chainD [OF assms(1)], rule that) assumption+
  have ne: "verified \<noteq> []" using v(1) by simp
  have profile: "\<And>t. t \<in> set verified \<Longrightarrow> tk_profile t = DGProfileV02"
    using verified_profiles [OF v(2) ne] assms(2) by simp
  then have leaf: "tk_profile (last verified) = DGProfileV02" using ne by simp
  have link: "successively (v02_link env (vo_now opts)) verified"
    using v(2) profile by (auto simp: successively_conv_nth)
  have "successively (\<lambda>a b. \<exists>parent_jwk child_jwk. tk_confirmation a = Some parent_jwk \<and> tk_confirmation b = Some child_jwk \<and>
      ae_thumbprint env parent_jwk \<noteq> ae_thumbprint env child_jwk) verified"
    by (rule successively_mono [OF link]) (use compare_link_fresh_key in blast)
  moreover have "list_all (\<lambda>t. authorizes env t tool arguments \<and>
      set (tk_approval_refs t) \<subseteq> set (vo_satisfied_approval_refs opts) \<and>
      ae_canonical_value env (tk_mission_ref t) = ae_canonical_value env (tk_mission_ref (hd verified))) verified"
    using v02_authorized [OF link ne v(4)] v02_approved [OF link ne] v(5) leaf v02_one_mission [OF link ne]
    by (simp add: list_all_iff)
  ultimately show ?thesis
    using profile_v02_checksD [OF v(3) assms(2)] verify_pop_audience [OF v(6) [unfolded leaf, simplified]] by simp
qed

theorem profile_v02_chain_guarantee_witness:
  "list_all (\<lambda>t. authorizes demo_env t ''pay'' demo_arguments \<and> set (tk_approval_refs t) \<subseteq> {''finance''} \<and>
      ae_canonical_value demo_env (tk_mission_ref t) = Some ''urn:mission'') [demo_root, demo_leaf] \<and>
    vo_receipt_signer demo_opts \<noteq> None \<and> pj_aat_audience demo_pop = ''gateway''"
proof -
  have "tk_profile (hd [demo_root, demo_leaf]) = DGProfileV02" by (simp add: demo_root_def)
  from profile_v02_chain_guarantee [OF demo_verified this] show ?thesis
    by (simp add: demo_opts_def) (simp add: demo_root_def)
qed

text \<open>C17: Depth and lifetime along a permitted chain. It has at most eleven tokens and the depth of a token is its place; no
  token has expired; and along every link the expiry and the depth to which the token may be delegated do not grow and the
  time of issue does not fall, so that no token outlives the root or may be delegated further than the root allows.\<close>

theorem chain_depth_and_lifetime_bounded:
  assumes "verify_chain env anchors tool arguments pop opts chain = Inr (verified, pj)"
    and "i < length verified"
  shows "length verified \<le> 11 \<and> tk_delegation_depth (verified ! i) = int i \<and>
    tk_delegation_max_depth (verified ! i) \<le> tk_delegation_max_depth (hd verified) \<and>
    \<lfloor>vo_now opts\<rfloor> < tk_expires_at (verified ! i) \<and> tk_expires_at (verified ! i) \<le> tk_expires_at (hd verified) \<and>
    successively (\<lambda>a b. tk_expires_at b \<le> tk_expires_at a \<and> tk_issued_at a \<le> tk_issued_at b \<and>
      tk_delegation_max_depth b \<le> tk_delegation_max_depth a \<and> tk_delegation_depth b \<le> tk_delegation_max_depth a) verified"
proof -
  let ?link = "\<lambda>a b. compare_link env (vo_now opts) a b = Inr ()"
  obtain root_token rest parsed where v: "verified = root_token # rest"
      "verify_root env anchors (vo_now opts) parsed = Inr root_token"
      "successively (\<lambda>a b. compare_link env (vo_now opts) a b = Inr () \<and> (\<exists>c. read_child env a c = Inr b)) verified"
    by (rule verify_chainD [OF assms(1)], rule that) assumption+
  have link: "successively ?link verified" using v(3) by (auto simp: successively_conv_nth)
  have hd: "hd verified = verified ! 0" "verified ! 0 = root_token" using v(1) by simp_all
  have depth: "j < length verified \<Longrightarrow> tk_delegation_depth (verified ! j) = int j" for j
    using successively_counts [OF link, of tk_delegation_depth j] compare_link_bounds verify_root_bounds [OF v(2)] hd by fastforce
  have "tk_delegation_max_depth (verified ! i) \<le> tk_delegation_max_depth (hd verified)"
    using successively_downwards [OF link, of tk_delegation_max_depth i] compare_link_bounds assms(2) hd by metis
  moreover have "tk_expires_at (verified ! i) \<le> tk_expires_at (hd verified)"
    using successively_downwards [OF link, of tk_expires_at i] compare_link_bounds assms(2) hd by metis
  moreover have "j < length verified \<Longrightarrow> \<lfloor>vo_now opts\<rfloor> < tk_expires_at (verified ! j) \<and>
      tk_delegation_depth (verified ! j) \<le> AAT_MAX_DELEGATION_DEPTH" for j
  proof (cases j)
    case 0
    then show ?thesis using verify_root_bounds [OF v(2)] hd by (simp add: AAT_MAX_DELEGATION_DEPTH_def)
  next
    case (Suc k)
    assume "j < length verified"
    then have "?link (verified ! k) (verified ! j)" using link Suc by (simp add: successively_conv_nth)
    then show ?thesis using compare_link_bounds by blast
  qed
  moreover have "length verified \<le> 11"
    using depth [of "length verified - 1"] calculation(3) [of "length verified - 1"] assms(2)
    by (simp add: AAT_MAX_DELEGATION_DEPTH_def)
  moreover have "successively (\<lambda>a b. tk_expires_at b \<le> tk_expires_at a \<and> tk_issued_at a \<le> tk_issued_at b \<and>
      tk_delegation_max_depth b \<le> tk_delegation_max_depth a \<and> tk_delegation_depth b \<le> tk_delegation_max_depth a) verified"
    by (rule successively_mono [OF link]) (use compare_link_bounds in blast)
  ultimately show ?thesis using assms(2) depth by blast
qed

theorem chain_depth_and_lifetime_bounded_witness:
  "length [demo_root, demo_leaf] \<le> 11 \<and> tk_delegation_depth demo_leaf = 1 \<and>
    tk_delegation_max_depth demo_leaf \<le> tk_delegation_max_depth demo_root \<and>
    1500 < tk_expires_at demo_leaf \<and> tk_expires_at demo_leaf \<le> tk_expires_at demo_root \<and>
    tk_issued_at demo_root \<le> tk_issued_at demo_leaf"
  using chain_depth_and_lifetime_bounded [OF demo_verified, of 1] by (simp add: demo_opts_def)

end
