(* ===== verification/AAT_Derive.thy ===== *)
theory AAT_Derive
  imports AAT_Guarantees
begin

text \<open>
  Issuing and deriving tokens (\<open>pkg/aat/derive.go\<close>): the checks of \<open>IssueRoot\<close> and \<open>DeriveChild\<close>, the payload they
  sign and the token they return. Signing, keys and the JSON of a constraint belong to the issuer record, which
  stands for the JOSE and JSON libraries.
\<close>

section \<open>Inputs\<close>

text \<open>
  The issuer: whether a signer is a valid Ed25519 private key, its public key, whether a JWK is a valid public Ed25519 key,
  signing a payload into a compact token, and the JSON objects of a JWK and of a constraint.
\<close>

record ('k, 's) issuer =
  is_signer_valid :: "'s \<Rightarrow> bool"
  is_signer_public :: "'s \<Rightarrow> 'k"
  is_ed25519_public :: "'k \<Rightarrow> bool"
  is_sign :: "'s \<Rightarrow> claims \<Rightarrow> string option"
  is_jwk_object :: "'k \<Rightarrow> claims"
  is_constraint_object :: "constraint \<Rightarrow> claims"

text \<open>The options of both functions; a zero time is \<^term>\<open>None\<close>, a JWK without a key too.\<close>

record ('k, 's) issue_opts =
  io_jwt_id :: string
  io_issuer :: string
  io_now :: rat
  io_expires_at :: "rat option"
  io_token_type :: aat_type
  io_max_delegation_depth :: int
  io_holder_jwk :: 'k
  io_authorization :: "authorization_detail list"
  io_signer :: 's
  io_profile :: string
  io_mission_ref :: go_value
  io_approval_refs :: "string list"
  io_receipt_signer_jwk :: "'k option"

datatype issue_error =
    MissingInput string
  | InvalidInput string
  | Refused aat_error

definition refuse_with :: "aat_error + 'a \<Rightarrow> issue_error + 'a" where
  "refuse_with r = (case r of Inl e \<Rightarrow> Inl (Refused e) | Inr x \<Rightarrow> Inr x)"

lemma refuse_with_Inr [simp]: "refuse_with r = Inr x \<longleftrightarrow> r = Inr x" "refuse_with (Inr x) = Inr x"
  by (auto simp: refuse_with_def split: sum.splits)

definition validate_issue_profile :: "string \<Rightarrow> aat_type \<Rightarrow> issue_error + unit" where
  "validate_issue_profile profile token_type =
    (if profile = [] then ensure (token_type \<noteq> AATTypeNone) (InvalidInput ''aat_type'')
     else if profile = DGProfileV02 then ensure (token_type = AATTypeNone) (Refused (ProfileError ErrMixedDraftWire))
     else Inl (Refused (ProfileError ErrUnknownDGProfile)))"

definition validate_profile_only_inputs ::
  "string \<Rightarrow> go_value \<Rightarrow> string list \<Rightarrow> 'k option \<Rightarrow> issue_error + unit" where
  "validate_profile_only_inputs profile mission_ref approval_refs receipt_signer =
    (if profile = DGProfileV02 then Inr ()
     else ensure (mission_ref = GoNil \<and> approval_refs = [] \<and> receipt_signer = None) (Refused (ProfileError ErrMixedDraftWire)))"

text \<open>\<open>profiledAuthorization\<close>: the details of the AAT type, at most one.\<close>

definition profiled_authorization :: "authorization_detail list \<Rightarrow> string \<Rightarrow> issue_error + authorization_detail list" where
  "profiled_authorization details profile =
    (let profiled = filter (\<lambda>d. ad_type d = AuthorizationDetailType) details in
     rbind (ensure (list_all (\<lambda>d. ad_type d \<noteq> []) details) (InvalidInput ''authorization details'')) (\<lambda>_.
     rbind (ensure (length profiled \<le> 1) (InvalidInput ''authorization details'')) (\<lambda>_.
     rbind (ensure (profile = DGProfileV02 \<longrightarrow> validate_draft01_authorization profiled) (Refused (ProfileError ErrDraft01Constraint))) (\<lambda>_.
     Inr profiled))))"

definition signer_matches_jwk :: "'k aat_env \<Rightarrow> ('k, 's) issuer \<Rightarrow> 's \<Rightarrow> 'k \<Rightarrow> bool" where
  "signer_matches_jwk env iss s jwk \<longleftrightarrow> is_signer_valid iss s \<and> is_ed25519_public iss jwk \<and>
    jwk_thumbprints_equal env (is_signer_public iss s) jwk"

section \<open>The payload\<close>

definition constraint_value :: "('k, 's) issuer \<Rightarrow> constraint option \<Rightarrow> go_value" where
  "constraint_value iss c = (case c of None \<Rightarrow> GoNil | Some d \<Rightarrow> GoObj (is_constraint_object iss d))"

definition tools_value :: "('k, 's) issuer \<Rightarrow> tool_map \<Rightarrow> claims" where
  "tools_value iss tools = fmmap (\<lambda>args. GoObj (fmmap (constraint_value iss) args)) tools"

text \<open>An empty tool map is left out of the JSON object.\<close>

definition detail_value :: "('k, 's) issuer \<Rightarrow> authorization_detail \<Rightarrow> go_value" where
  "detail_value iss d =
    GoObj (if ad_tools d = fmempty then fmap_of_list [(''type'', GoStr (ad_type d))]
      else fmap_of_list [(''type'', GoStr (ad_type d)), (''tools'', GoObj (tools_value iss (ad_tools d)))])"

text \<open>\<open>normalizeApprovalRefs\<close> copies with \<open>append([]string(nil), refs...)\<close>: no references are a nil slice, which is
  marshalled as null.\<close>

definition approval_refs_value :: "string list \<Rightarrow> go_value" where
  "approval_refs_value refs = (if refs = [] then GoNil else GoArr (map GoStr refs))"

definition aat_type_name :: "aat_type \<Rightarrow> string" where
  "aat_type_name t = (case t of AATTypeNone \<Rightarrow> [] | AATTypeDelegation \<Rightarrow> ''delegation'' | AATTypeExecution \<Rightarrow> ''execution'')"

definition profile_claims :: "string \<Rightarrow> aat_type \<Rightarrow> go_value \<Rightarrow> string list \<Rightarrow> (string \<times> go_value) list" where
  "profile_claims profile token_type mission_ref refs =
    (if profile = DGProfileV02
     then [(''ardur_dg_profile'', GoStr profile), (''mission_ref'', mission_ref), (''ardur_approval_refs'', approval_refs_value refs)]
     else [(''aat_type'', GoStr (aat_type_name token_type))])"

definition common_claims ::
  "('k, 's) issuer \<Rightarrow> ('k, 's) issue_opts \<Rightarrow> int \<Rightarrow> int \<Rightarrow> int \<Rightarrow> (string \<times> go_value) list" where
  "common_claims iss opts issued expires depth =
    [(''jti'', GoStr (io_jwt_id opts)), (''iss'', GoStr (io_issuer opts)), (''iat'', GoNum (of_int issued)),
     (''exp'', GoNum (of_int expires)), (''del_depth'', GoNum (of_int depth)),
     (''del_max_depth'', GoNum (of_int (io_max_delegation_depth opts))),
     (''cnf'', GoObj (fmap_of_list [(''jwk'', GoObj (is_jwk_object iss (io_holder_jwk opts)))])),
     (''authorization_details'', GoArr (map (detail_value iss) (io_authorization opts)))]"

text \<open>Signing, and the token that both functions return.\<close>

definition sign_token ::
  "('k, 's) issuer \<Rightarrow> ('k, 's) issue_opts \<Rightarrow> claims \<Rightarrow> int \<Rightarrow> int \<Rightarrow> int \<Rightarrow> string \<Rightarrow> authorization_detail list \<Rightarrow>
    go_value \<Rightarrow> string list \<Rightarrow> issue_error + 'k token" where
  "sign_token iss opts payload issued expires depth parent_hash profiled mission_ref refs =
    rbind (required (InvalidInput ''signing'') (is_sign iss (io_signer opts) payload)) (\<lambda>jws.
    (case split_compact jws of
       [protected_segment, payload_segment, signature] \<Rightarrow>
         Inr \<lparr>tk_compact = jws, tk_signing_input = protected_segment @ ''.'' @ payload_segment, tk_jwt_id = io_jwt_id opts,
           tk_issuer = io_issuer opts, tk_issued_at = issued, tk_expires_at = expires,
           tk_confirmation = Some (io_holder_jwk opts), tk_token_type = io_token_type opts, tk_delegation_depth = depth,
           tk_delegation_max_depth = io_max_delegation_depth opts, tk_parent_hash = parent_hash,
           tk_authorization = profiled, tk_profile = io_profile opts, tk_mission_ref = mission_ref,
           tk_approval_refs = refs\<rparr>
     | _ \<Rightarrow> Inl (InvalidInput ''compact serialization'')))"

section \<open>Issuing a root\<close>

definition root_profile_inputs :: "'k aat_env \<Rightarrow> ('k, 's) issue_opts \<Rightarrow> aat_error + unit" where
  "root_profile_inputs env opts =
    (if io_profile opts \<noteq> DGProfileV02 then Inr ()
     else
       rbind (validate_mission_ref env (io_mission_ref opts)) (\<lambda>_.
       validate_receipt_signer_separation env [(blank_token [] [])\<lparr>tk_confirmation := Some (io_holder_jwk opts)\<rparr>]
         (io_receipt_signer_jwk opts)))"

definition issue_root :: "'k aat_env \<Rightarrow> ('k, 's) issuer \<Rightarrow> ('k, 's) issue_opts \<Rightarrow> issue_error + 'k token" where
  "issue_root env iss opts =
    rbind (ensure (io_jwt_id opts \<noteq> []) (MissingInput ''JWTID'')) (\<lambda>_.
    rbind (ensure (io_issuer opts \<noteq> [] \<and> ae_uri_with_scheme env (io_issuer opts)) (MissingInput ''Issuer'')) (\<lambda>_.
    rbind (required (MissingInput ''ExpiresAt'') (io_expires_at opts)) (\<lambda>expires_at.
    rbind (validate_issue_profile (io_profile opts) (io_token_type opts)) (\<lambda>_.
    rbind (validate_profile_only_inputs (io_profile opts) (io_mission_ref opts) (io_approval_refs opts)
             (io_receipt_signer_jwk opts)) (\<lambda>_.
    rbind (ensure (is_ed25519_public iss (io_holder_jwk opts)) (InvalidInput ''holder key'')) (\<lambda>_.
    rbind (ensure (0 \<le> io_max_delegation_depth opts \<and> io_max_delegation_depth opts \<le> AAT_MAX_DELEGATION_DEPTH)
             (Refused (DenyRoot ErrDenyStep3JRootMaxDepth))) (\<lambda>_.
    rbind (ensure (io_authorization opts \<noteq> []) (MissingInput ''authorization_details'')) (\<lambda>_.
    rbind (profiled_authorization (io_authorization opts) (io_profile opts)) (\<lambda>profiled.
    rbind (ensure (is_signer_valid iss (io_signer opts)) (InvalidInput ''signer'')) (\<lambda>_.
    rbind (refuse_with (normalize_approval_refs (io_approval_refs opts))) (\<lambda>refs.
    rbind (refuse_with (root_profile_inputs env opts)) (\<lambda>_.
    let issued = \<lfloor>io_now opts\<rfloor>; expires = \<lfloor>expires_at\<rfloor> in
    rbind (ensure (expires > issued) (Refused (DenyRoot ErrDenyStep3HRootLifetimeOrder))) (\<lambda>_.
    rbind (ensure (wrap64 (expires - issued) \<le> MAX_TOKEN_LIFETIME_S) (Refused (DenyRoot ErrDenyStep3IRootLifetimeBound))) (\<lambda>_.
    sign_token iss opts
      (fmap_of_list (common_claims iss opts issued expires 0 @
        profile_claims (io_profile opts) (io_token_type opts) (io_mission_ref opts) refs))
      issued expires 0 [] profiled (io_mission_ref opts) refs))))))))))))))"

section \<open>Deriving a child\<close>

definition child_key_rules :: "'k aat_env \<Rightarrow> ('k, 's) issue_opts \<Rightarrow> 'k token \<Rightarrow> 'k \<Rightarrow> byte list \<Rightarrow> issue_error + unit" where
  "child_key_rules env opts parent parent_jwk parent_thumbprint =
    (if io_profile opts = DGProfileV02
     then
       rbind (ensure (\<not> jwk_thumbprints_equal env parent_jwk (io_holder_jwk opts)) (Refused (ProfileError ErrDraft01HolderKeyReuse))) (\<lambda>_.
       rbind (refuse_with (validate_mission_ref env (tk_mission_ref parent))) (\<lambda>_.
       refuse_with (validate_receipt_signer_separation env
         [parent, (blank_token [] [])\<lparr>tk_confirmation := Some (io_holder_jwk opts)\<rparr>] (io_receipt_signer_jwk opts))))
     else if tk_token_type parent \<noteq> io_token_type opts
     then
       rbind (required (InvalidInput ''child confirmation thumbprint'') (ae_thumbprint env (io_holder_jwk opts))) (\<lambda>child_thumbprint.
       ensure (parent_thumbprint \<noteq> child_thumbprint) (Refused (DenyLink ErrDenyStep4STypeTransitionKeyReuse)))
     else Inr ())"

definition child_window :: "('k, 's) issue_opts \<Rightarrow> 'k token \<Rightarrow> int \<Rightarrow> int \<Rightarrow> issue_error + unit" where
  "child_window opts parent issued expires =
    rbind (ensure (expires \<le> tk_expires_at parent) (Refused (DenyLink ErrDenyStep4IChildExpAfterParent))) (\<lambda>_.
    rbind (ensure (issued \<ge> tk_issued_at parent) (Refused (DenyLink ErrDenyStep4KChildIATBeforeParent))) (\<lambda>_.
    rbind (ensure (expires > issued) (Refused (DenyLink ErrDenyStep4MChildLifetimeOrder))) (\<lambda>_.
    rbind (ensure (wrap64 (expires - issued) \<le> MAX_TOKEN_LIFETIME_S) (Refused (DenyRoot ErrDenyStep3IRootLifetimeBound))) (\<lambda>_.
    rbind (ensure (tk_delegation_depth parent + 1 \<le> tk_delegation_max_depth parent)
             (Refused (DenyLink ErrDenyStep4FDepthExceedsParentMax))) (\<lambda>_.
    rbind (ensure (tk_delegation_depth parent + 1 \<le> AAT_MAX_DELEGATION_DEPTH)
             (Refused (DenyLink ErrDenyStep4GDepthExceedsImplementationMax))) (\<lambda>_.
    rbind (ensure (io_max_delegation_depth opts \<le> tk_delegation_max_depth parent) (Refused (DenyLink ErrDenyStep4HChildMaxDepth))) (\<lambda>_.
    ensure (io_max_delegation_depth opts \<ge> tk_delegation_depth parent + 1) (Refused (DenyLink ErrDenyStep4NChildDepthWindow)))))))))"

definition derive_child :: "'k aat_env \<Rightarrow> ('k, 's) issuer \<Rightarrow> 'k token option \<Rightarrow> ('k, 's) issue_opts \<Rightarrow> issue_error + 'k token" where
  "derive_child env iss parent_token opts =
    rbind (required (MissingInput ''parent'') parent_token) (\<lambda>parent.
    rbind (ensure (io_jwt_id opts \<noteq> []) (MissingInput ''JWTID'')) (\<lambda>_.
    rbind (required (MissingInput ''ExpiresAt'') (io_expires_at opts)) (\<lambda>expires_at.
    rbind (ensure (is_signer_valid iss (io_signer opts)) (InvalidInput ''signer'')) (\<lambda>_.
    rbind (validate_issue_profile (io_profile opts) (io_token_type opts)) (\<lambda>_.
    rbind (validate_profile_only_inputs (io_profile opts) GoNil (io_approval_refs opts) (io_receipt_signer_jwk opts)) (\<lambda>_.
    rbind (ensure (tk_profile parent = io_profile opts) (Refused (ProfileError ErrProfileMismatch))) (\<lambda>_.
    rbind (ensure (is_ed25519_public iss (io_holder_jwk opts)) (InvalidInput ''holder key'')) (\<lambda>_.
    rbind (profiled_authorization (io_authorization opts) (io_profile opts)) (\<lambda>profiled.
    rbind (required (InvalidInput ''parent confirmation key'') (tk_confirmation parent)) (\<lambda>parent_jwk.
    rbind (ensure (is_ed25519_public iss parent_jwk) (InvalidInput ''parent confirmation key'')) (\<lambda>_.
    rbind (required (InvalidInput ''parent confirmation thumbprint'') (ae_thumbprint env parent_jwk)) (\<lambda>parent_thumbprint.
    rbind (ensure (io_issuer opts = thumbprint_issuer parent_thumbprint) (Refused (DenyLink ErrDenyStep4CIssuerMismatch))) (\<lambda>_.
    rbind (ensure (signer_matches_jwk env iss (io_signer opts) parent_jwk) (InvalidInput ''signer does not match'')) (\<lambda>_.
    rbind (child_key_rules env opts parent parent_jwk parent_thumbprint) (\<lambda>_.
    rbind (refuse_with (normalize_approval_refs (io_approval_refs opts))) (\<lambda>refs.
    rbind (ensure (approval_refs_preserved (tk_approval_refs parent) refs) (Refused (ProfileError ErrApprovalRefDropped))) (\<lambda>_.
    let issued = \<lfloor>io_now opts\<rfloor>; expires = \<lfloor>expires_at\<rfloor>; depth = tk_delegation_depth parent + 1; parent_hash = compute_parent_hash parent in
    rbind (child_window opts parent issued expires) (\<lambda>_.
    rbind (refuse_with (verify_capability_monotonicity env parent ((blank_token [] [])\<lparr>tk_authorization := profiled\<rparr>))) (\<lambda>_.
    sign_token iss opts
      (fmap_of_list (common_claims iss opts issued expires depth @ [(''par_hash'', GoStr parent_hash)] @
        profile_claims (io_profile opts) (io_token_type opts) (tk_mission_ref parent) refs))
      issued expires depth parent_hash profiled (tk_mission_ref parent) refs)))))))))))))))))))"

end
