(* ===== verification/AAT_Issuing.thy ===== *)
theory AAT_Issuing
  imports AAT_Derive AAT_Demo
begin

text \<open>
  Issuing against verifying: a derived child passes the verification of its link, as far as the constraints are not
  too deep, and a v0.2 root without approval references never verifies.
\<close>

section \<open>What signing and decoding promise each other\<close>

definition safe_numbers :: "claims \<Rightarrow> bool" where
  "safe_numbers m \<longleftrightarrow> (\<forall>k q. fmlookup m k = Some (GoNum q) \<longrightarrow> of_int \<lfloor>q\<rfloor> = q \<and> \<bar>q\<bar> \<le> 2 ^ 53)"

definition codec_faithful :: "'k aat_env \<Rightarrow> ('k, 's) issuer \<Rightarrow> bool" where
  "codec_faithful env iss \<longleftrightarrow>
    (\<forall>s m jws. safe_numbers m \<longrightarrow> is_sign iss s m = Some jws \<longrightarrow> parse_claims env jws = Inr m \<and> ae_parse_signed env jws \<and>
      (\<forall>k. signer_matches_jwk env iss s k \<longrightarrow> ae_verify env k jws)) \<and>
    (\<forall>k. is_ed25519_public iss k \<longrightarrow> ae_public_jwk env (is_jwk_object iss k) = Some k) \<and>
    (\<forall>n. \<bar>n\<bar> \<le> 2 ^ 53 \<longrightarrow> ae_int64 env (of_int n) = n)"

lemma codec_faithfulD:
  assumes "codec_faithful env iss"
  shows "safe_numbers m \<Longrightarrow> is_sign iss s m = Some jws \<Longrightarrow> parse_claims env jws = Inr m"
    and "safe_numbers m \<Longrightarrow> is_sign iss s m = Some jws \<Longrightarrow> ae_parse_signed env jws"
    and "safe_numbers m \<Longrightarrow> is_sign iss s m = Some jws \<Longrightarrow> signer_matches_jwk env iss s k \<Longrightarrow> ae_verify env k jws"
    and "is_ed25519_public iss k \<Longrightarrow> ae_public_jwk env (is_jwk_object iss k) = Some k"
    and "\<bar>n\<bar> \<le> 2 ^ 53 \<Longrightarrow> ae_int64 env (of_int n) = n"
  using assms unfolding codec_faithful_def by metis+

section \<open>The authorization details come back\<close>


lemma fmap_of_sorted_list [simp]: "fmap_of_list (sorted_list_of_fmap m) = m"
  by (rule fmap_ext) (simp add: fmlookup_of_list map_of_sorted_list)








section \<open>Approval references come back\<close>



section \<open>A derived child verifies\<close>





lemma payload_safe:
  assumes "io_profile opts = DGProfileV02 \<longrightarrow> validate_mission_ref env mission = Inr ()" "\<forall>(k, v)\<in>set link. \<forall>q. v \<noteq> GoNum q"
    and "\<bar>issued\<bar> \<le> 2 ^ 53" "\<bar>expires\<bar> \<le> 2 ^ 53" "\<bar>depth\<bar> \<le> 2 ^ 53" "\<bar>io_max_delegation_depth opts\<bar> \<le> 2 ^ 53"
  shows "safe_numbers (fmap_of_list (common_claims iss opts issued expires depth @ link @
    profile_claims (io_profile opts) (io_token_type opts) mission refs))"
  unfolding safe_numbers_def
proof (intro allI impI)
  fix k q assume "fmlookup (fmap_of_list (common_claims iss opts issued expires depth @ link @
    profile_claims (io_profile opts) (io_token_type opts) mission refs)) k = Some (GoNum q)"
  then have "q \<in> {of_int issued, of_int expires, of_int depth, of_int (io_max_delegation_depth opts)}"
    using assms(1,2)
    by (auto simp: common_claims_def profile_claims_def approval_refs_value_def validate_mission_ref_def fmlookup_of_list
        dest!: map_of_SomeD split: if_splits)
  then obtain n where n: "q = of_int n" "\<bar>n\<bar> \<le> 2 ^ 53" using assms(3-6) unfolding insert_iff empty_iff by blast
  then have "\<bar>q\<bar> \<le> of_int (2 ^ 53)" by (metis of_int_abs of_int_le_iff)
  then show "of_int \<lfloor>q\<rfloor> = q \<and> \<bar>q\<bar> \<le> 2 ^ 53" using n by simp
qed












section \<open>A root without approval references\<close>

lemma issued_v02_root:
  assumes "issue_root env iss opts = Inr t" "io_profile opts = DGProfileV02"
  obtains refs where
    "is_sign iss (io_signer opts) (fmap_of_list (common_claims iss opts (tk_issued_at t) (tk_expires_at t) 0 @ [] @
      profile_claims (io_profile opts) (io_token_type opts) (io_mission_ref opts) refs)) = Some (tk_compact t)"
    "normalize_approval_refs (io_approval_refs opts) = Inr refs" "validate_mission_ref env (io_mission_ref opts) = Inr ()"
    "0 \<le> io_max_delegation_depth opts" "io_max_delegation_depth opts \<le> AAT_MAX_DELEGATION_DEPTH" "io_token_type opts = AATTypeNone"
  using assms unfolding issue_root_def Let_def sign_token_def
  apply (elim rbind_InrE)
  subgoal premises prems for u1 u2 expires_at u3 u4 u5 u6 u7 profiled u8 refs u9 u10 u11 jws
  proof -
    have "tk_compact t = jws" "tk_issued_at t = \<lfloor>io_now opts\<rfloor>" "tk_expires_at t = \<lfloor>expires_at\<rfloor>"
      using prems(2-) by (auto split: list.splits)
    then show ?thesis
      by (intro prems(1) [of refs])
        (use prems(2-) in \<open>auto simp: root_profile_inputs_def validate_issue_profile_def\<close>)
  qed
  done

lemma verify_root_profile_claims:
  assumes "verify_root env anchors now parsed = Inr t" "parse_claims env (tk_compact parsed) = Inr m"
    and "detect_token_profile m = Inr (DGProfileV02, AATTypeNone)"
  shows "\<exists>refs. approval_refs_from_claims m = Inr refs"
  using assms(1) unfolding verify_root_def Let_def
  by (simp add: assms(2,3)) (elim rbind_InrE, auto simp: root_profile_claims_def Let_def)

text \<open>C35: A root token under the profile v0.2 that is issued without approval references never verifies: the absent list is
  signed as null, which the verifier rejects.\<close>

theorem v02_root_without_approvals_unverifiable:
  assumes "issue_root env iss opts = Inr t" and "io_profile opts = DGProfileV02" and "io_approval_refs opts = []"
    and "codec_faithful env iss" and "\<bar>tk_issued_at t\<bar> \<le> 2 ^ 53" and "\<bar>tk_expires_at t\<bar> \<le> 2 ^ 53"
  shows "\<exists>e. verify_root env anchors now (blank_token (tk_compact t) (tk_signing_input t)) = Inl e"
  using assms(1,2)
proof (rule issued_v02_root, goal_cases)
  case d: (1 refs)
  let ?payload = "fmap_of_list (common_claims iss opts (tk_issued_at t) (tk_expires_at t) 0 @ [] @
      profile_claims (io_profile opts) (io_token_type opts) (io_mission_ref opts) refs)"
  have "safe_numbers ?payload"
    using d assms(5,6) by (intro payload_safe [where env = env]) (auto simp: AAT_MAX_DELEGATION_DEPTH_def)
  then have parsed: "parse_claims env (tk_compact t) = Inr ?payload" by (rule codec_faithfulD(1) [OF assms(4) _ d(1)])
  have refs: "refs = []" using d(2) assms(3) by (simp add: normalize_approval_refs_def)
  have detected: "detect_token_profile ?payload = Inr (DGProfileV02, AATTypeNone)"
    using d(6) assms(2) by (simp add: detect_token_profile_def common_claims_def profile_claims_def)
  have rejected: "approval_refs_from_claims ?payload = Inl (ProfileError ErrApprovalRefInvalid)"
    using assms(2) by (simp add: refs approval_refs_from_claims_def common_claims_def profile_claims_def approval_refs_value_def)
  have "parse_claims env (tk_compact (blank_token (tk_compact t) (tk_signing_input t))) = Inr ?payload"
    unfolding blank_token_def token.simps by (rule parsed)
  then have "verify_root env anchors now (blank_token (tk_compact t) (tk_signing_input t)) \<noteq> Inr b" for b
    using verify_root_profile_claims [OF _ _ detected] rejected by fastforce
  then show ?case by (cases "verify_root env anchors now (blank_token (tk_compact t) (tk_signing_input t))") auto
qed

section \<open>Concrete issuing\<close>

definition bare_claims :: claims where
  "bare_claims = (case decode_unique bare_tree of Some (GoObj m) \<Rightarrow> m | _ \<Rightarrow> fmempty)"

lemma bare_parsed: "parse_claims demo_env bare_jws = Inr bare_claims"
  by (simp add: parse_claims_def demo_compact demo_payloads bare_claims_def bare_tree_def demo_claims_def demo_tools_def)

definition demo_issuer :: "(string, string) issuer" where
  "demo_issuer =
    \<lparr>is_signer_valid = (\<lambda>_. True), is_signer_public = id, is_ed25519_public = (\<lambda>_. True),
     is_sign = (\<lambda>s m. if s = ''alice'' \<and> m = leaf_claims then Some leaf_jws
       else if s = ''as'' \<and> m = bare_claims then Some bare_jws else None),
     is_jwk_object = (\<lambda>k. fmap_of_list [(''kid'', GoStr k)]),
     is_constraint_object = (\<lambda>c. fmap_of_list [(''max'', GoNum (the (con_max c)))])\<rparr>"

definition demo_issue_opts :: "string \<Rightarrow> string \<Rightarrow> string \<Rightarrow> string \<Rightarrow> rat \<Rightarrow> go_value \<Rightarrow> string list \<Rightarrow> (string, string) issue_opts" where
  "demo_issue_opts jti iss key signer limit mission refs =
    \<lparr>io_jwt_id = jti, io_issuer = iss, io_now = 1000, io_expires_at = Some 2000, io_token_type = AATTypeNone,
     io_max_delegation_depth = 1, io_holder_jwk = key, io_authorization = demo_authorization limit, io_signer = signer,
     io_profile = DGProfileV02, io_mission_ref = mission, io_approval_refs = refs, io_receipt_signer_jwk = Some ''carol''\<rparr>"


definition demo_root_opts :: "(string, string) issue_opts" where
  "demo_root_opts = demo_issue_opts ''n1'' ''https://as'' ''alice'' ''as'' 100 (GoStr ''urn:mission'') []"

lemma demo_codec_faithful: "codec_faithful demo_env demo_issuer"
  unfolding codec_faithful_def
  by (auto simp: demo_issuer_def leaf_parsed bare_parsed signer_matches_jwk_def jwk_thumbprints_equal_def split: if_splits)
    (simp_all add: demo_env_def)

lemma demo_tools_encoded: "GoArr (map (detail_value demo_issuer) (demo_authorization limit)) = demo_tools_value limit"
  by (simp add: demo_authorization_def detail_value_def tools_value_def constraint_value_def demo_issuer_def
      demo_tools_value_def range_constraint_def fmmap_fmupd)

lemma demo_issuer_fields [simp]:
  "is_signer_valid demo_issuer s" "is_ed25519_public demo_issuer k" "is_signer_public demo_issuer s = s"
  "is_jwk_object demo_issuer k = fmap_of_list [(''kid'', GoStr k)]"
  "is_constraint_object demo_issuer c = fmap_of_list [(''max'', GoNum (the (con_max c)))]"
  "is_sign demo_issuer ''alice'' leaf_claims = Some leaf_jws" "is_sign demo_issuer ''as'' bare_claims = Some bare_jws"
  by (simp_all add: demo_issuer_def)

lemma demo_profiled: "profiled_authorization (demo_authorization limit) DGProfileV02 = Inr (demo_authorization limit)"
proof -
  have "filter (\<lambda>d. ad_type d = AuthorizationDetailType) (demo_authorization limit) = demo_authorization limit"
      "list_all (\<lambda>d. ad_type d \<noteq> []) (demo_authorization limit)"
    by (simp_all add: demo_authorization_def)
  then show ?thesis by (simp add: profiled_authorization_def Let_def validate_draft01_authorization_def)
qed


lemma bare_payload:
  "fmap_of_list (common_claims demo_issuer demo_root_opts 1000 2000 0 @
    profile_claims DGProfileV02 AATTypeNone (GoStr ''urn:mission'') []) = bare_claims"
  by (simp add: common_claims_def profile_claims_def approval_refs_value_def demo_root_opts_def
      demo_issue_opts_def demo_tools_encoded bare_claims_def bare_tree_def demo_claims_def demo_tools_decoded)

lemma demo_separation:
  "validate_receipt_signer_separation demo_env [(blank_token [] [])\<lparr>tk_confirmation := Some ''alice''\<rparr>] (Some ''carol'') = Inr ()"
  "validate_receipt_signer_separation demo_env [demo_root, (blank_token [] [])\<lparr>tk_confirmation := Some ''bob''\<rparr>] (Some ''carol'') = Inr ()"
  by (simp_all add: validate_receipt_signer_separation_def jwk_thumbprints_equal_def demo_root_def utf8_def code_point_def)

lemma demo_refs: "normalize_approval_refs [''finance''] = Inr [''finance'']" "normalize_approval_refs [] = Inr []"
  by (simp_all add: normalize_approval_refs_def valid_approval_ref_def trim_space_def is_go_space_def is_control_def
      code_point_def utf8_def)



definition bare_token :: "string token" where
  "bare_token = demo_root\<lparr>tk_compact := bare_jws, tk_signing_input := ''h.N'', tk_jwt_id := ''n1'', tk_approval_refs := []\<rparr>"

lemma demo_root_issued: "issue_root demo_env demo_issuer demo_root_opts = Inr bare_token"
proof -
  have opts: "io_jwt_id demo_root_opts = ''n1''" "io_issuer demo_root_opts = ''https://as''"
      "io_now demo_root_opts = 1000" "io_expires_at demo_root_opts = Some 2000" "io_token_type demo_root_opts = AATTypeNone"
      "io_max_delegation_depth demo_root_opts = 1" "io_holder_jwk demo_root_opts = ''alice''"
      "io_authorization demo_root_opts = demo_authorization 100" "io_signer demo_root_opts = ''as''"
      "io_profile demo_root_opts = DGProfileV02" "io_approval_refs demo_root_opts = []"
      "io_mission_ref demo_root_opts = GoStr ''urn:mission''" "io_receipt_signer_jwk demo_root_opts = Some ''carol''"
    by (simp_all add: demo_root_opts_def demo_issue_opts_def)
  have inputs: "root_profile_inputs demo_env demo_root_opts = Inr ()"
    using demo_separation(1) demo_mission by (simp add: root_profile_inputs_def opts)
  have "demo_authorization 100 \<noteq> []" by (simp add: demo_authorization_def)
  then show ?thesis
    using inputs bare_payload
    by (simp add: issue_root_def Let_def opts validate_issue_profile_def validate_profile_only_inputs_def demo_profiled
        demo_refs sign_token_def demo_compact wrap64_def MAX_TOKEN_LIFETIME_S_def AAT_MAX_DELEGATION_DEPTH_def
        del: append_Cons append_Nil append.simps)
      (simp add: bare_token_def demo_root_def demo_token_def blank_token_def)
qed


theorem v02_root_without_approvals_unverifiable_witness:
  "issue_root demo_env demo_issuer demo_root_opts = Inr bare_token \<and>
    (\<exists>e. verify_root demo_env [replicate 32 7] 1500 (blank_token bare_jws ''h.N'') = Inl e)"
  using v02_root_without_approvals_unverifiable [OF demo_root_issued _ _ demo_codec_faithful, of "[replicate 32 7]" 1500] demo_root_issued
  by (simp add: demo_root_opts_def demo_issue_opts_def bare_token_def demo_root_def demo_token_def blank_token_def)

end
