(* ===== verification/Spec2Isabelle.thy ===== *)
theory Spec2Isabelle
  imports Lineage_Budget Canonical_JSON Risk_Replay Spend_Guarantees Merkle Passport_Delegation Governance_Budget AAT_Properties AAT_Issuing
begin

text \<open>
  A verification development for the governance runtime of Ardur (\<open>src/python/vibap\<close>) and
  for its token chains in Go (\<open>src/go/pkg/aat\<close>).

  \<^bold>\<open>The program.\<close> An agent holds a \<^emph>\<open>mission passport\<close>, a signed list of claims: the tools it may use,
  the resources in its scope, budgets, a working directory and how often it may delegate. A passport is
  issued and delegated by \<open>passport.py\<close>; a child passport must be narrower than its parent. Each tool call
  goes through the proxy (\<open>proxy.py\<close>): the built-in checks, the approval limit (\<open>approvals.py\<close>) and a
  list of policy engines (\<open>policy_backend.py\<close>, \<open>backends/native.py\<close>) decide, and a permitted call is
  counted in the session. Three ledgers in files keep what was reserved and spent: tool calls given to
  children (\<open>lineage_budget.py\<close>), blast radius (\<open>risk_budget.py\<close>) and tokens and money
  (\<open>spend_budget.py\<close>). Records that outlive the process go to a Merkle log (\<open>transparency.py\<close>).
  Digests are SHA-256 over canonical JSON (\<open>canonical_json.py\<close>). Between organisations authority travels as a
  chain of \<^emph>\<open>attenuating tokens\<close> (\<open>src/go/pkg/aat\<close>): the holder of a token derives a child with narrower
  constraints on tool arguments, and a gateway verifies the chain, the call and a proof of possession.

  \<^bold>\<open>Conventions.\<close> A function that may raise returns a sum, \<open>Inl\<close> for the exception; sequencing is
  \<open>rbind\<close>, a guard is \<open>ensure\<close>, a loop that may raise is \<open>mapM\<close>, \<open>foldM\<close> or \<open>checkM\<close>. A dictionary is an
  association list in insertion order without a key twice. Python integers are \<open>int\<close>, JSON numbers that
  are not integers are rationals with their text, strings are lists of characters below 256. A locked
  section on a file is a function from the payload loaded to the payload written; an exception writes
  nothing. Time, random identifiers, the key store and the engines are arguments. In the Go part a map is a
  finite map read in key order, a pointer is an option, and a token whose fields the verifier fills in place is
  returned updated.

  \<^bold>\<open>Theories.\<close>
  \<^item> \<open>Prelude\<close>: results, dictionaries, strings, JSON values, the scopes of the budgets.
  \<^item> \<open>Sha256\<close> and \<open>Canonical_JSON\<close>: the hash of the standard library on 32-bit words, and the text that is
    hashed (\<open>canonical_json.py\<close> and the vendored serializer).
  \<^item> \<open>Ledger_Spec\<close>: runs of operations and the contracts of a ledger as locales: an invariant that every
    operation keeps, a raise that changes nothing, a quantity that never falls. Each ledger, and the
    session, interprets them on its own operations.
  \<^item> \<open>Lineage_Budget\<close>: the reservations of \<open>lineage_budget.py\<close>; ceilings, totals, and an identifier that
    is used again after it was closed.
  \<^item> \<open>Risk_Policy\<close>, \<open>Risk_Attenuation\<close>: facts, contracts, claims and charges of \<open>risk_budget.py\<close>;
    normalization is idempotent, attenuation never widens, a projected policy decides the same.
  \<^item> \<open>Risk_Ledger\<close>, \<open>Risk_Accounting\<close>, \<open>Risk_Histories\<close>, \<open>Risk_Replay\<close>: the class \<open>FileRiskBudgetLedger\<close>; balanced
    books that no operation finds out of balance, an exact decision on reservations, ceilings, final spending, replay
    protection, settlement.
  \<^item> \<open>Spend_Policy\<close>, \<open>Spend_Claims\<close>, \<open>Spend_Ledger\<close>: the claim, the quote and the class
    \<open>FileSpendBudgetLedger\<close> of \<open>spend_budget.py\<close>; \<open>Spend_Accounting\<close>, \<open>Spend_Operations\<close>,
    \<open>Spend_Invariant\<close>, \<open>Spend_Properties\<close>, \<open>Spend_Histories\<close>, \<open>Spend_Demo\<close> and \<open>Spend_Guarantees\<close> show
    its ceilings, balanced books, exact settlement, single acceptance and prices that never round down.
  \<^item> \<open>Merkle\<close>: root, inclusion proof and verifier of \<open>transparency.py\<close>; the root is the recursive tree
    hash, built proofs verify, the loop ends, and a false proof that verifies gives a hash collision.
  \<^item> \<open>Passport\<close>, \<open>Passport_Delegation\<close>: claims, issuing, derivation and verification of \<open>passport.py\<close>;
    a child is narrower (its expiry up to the time between the two readings of the clock), verifies against its
    parent and carries the budgets over.
  \<^item> \<open>Python_Text\<close>: \<open>repr\<close>, \<open>str\<close> and \<open>json.dumps\<close>, which the policy checks search in.
  \<^item> \<open>Policy_Backends\<close>: the decisions of engines, their composition, the registry and the built-in checks.
  \<^item> \<open>Approvals\<close>: the approval-rate tracker; its window bound over interleaved calls and the race of
    check and record.
  \<^item> \<open>Governance_Session\<close>, \<open>Governance_Operations\<close>: a session of \<open>proxy.py\<close>, its calls, imports of usage
    and delegations; \<open>Governance_Guarantees\<close> and \<open>Governance_Budget\<close> show that a permitted call has the
    consent of every check and engine, and that every history stays within the ceilings in force.
  \<^item> \<open>Glob\<close>: \<open>filepath.Match\<close> of the Go library; when a prefix pattern covers a narrower one.
  \<^item> \<open>Clause_Matching\<close>: the augmenting-path search of \<open>matchAllClauses\<close>; it succeeds exactly when a matching
    exists.
  \<^item> \<open>AAT_Constraints\<close>, \<open>AAT_Subsumption\<close>: the checks and the subsumption of \<open>constraints.go\<close>; what a child
    constraint accepts the parent accepts, patterns compared by prefix apart, for which it is shown when it holds.
  \<^item> \<open>AAT_Chain\<close>, \<open>AAT_Verify\<close>: tokens, deny points, claims, and the steps of \<open>chain_verify.go\<close>,
    \<open>profile_v02.go\<close> and \<open>pop.go\<close>; \<open>AAT_Guarantees\<close>, \<open>AAT_Demo\<close> and \<open>AAT_Properties\<close> show that an admitted call
    is authorized by every token of the chain, what the profile v0.2 adds (approvals, mission, keys, audience), and the
    bounds on depth and lifetime.
  \<^item> \<open>AAT_Derive\<close>, \<open>AAT_Issuing\<close>: issuing and deriving tokens (\<open>derive.go\<close>); a derived child passes the
    verification of its link, and a v0.2 root without approval references never verifies.

  \<^bold>\<open>How the parts meet.\<close> Delegation in \<open>Governance_Operations\<close> reserves the budget of the child in the
  ledger of \<open>Lineage_Budget\<close> and derives its passport by \<open>Passport\<close>, which attenuates the risk claim by
  \<open>Risk_Policy\<close> and carries the spend claim of \<open>Spend_Policy\<close>; the call path puts the view of the session
  to the engines of \<open>Policy_Backends\<close>. The theorem on histories of a session spans all of them. The token chains
  use the hash of \<open>Sha256\<close> for the link to the parent; \<open>AAT_Issuing\<close> joins derivation and verification.

  \<^bold>\<open>Loops and bounds.\<close> Every function is total. Loops over lists are structural; the others have a
  termination proof with a measure, and no fuel is used. Integers are bounded only where the source bounds them
  (\<open>MAX_SAFE_INTEGER\<close>); hash words are 32 bits wide, and differences of times in Go wrap at 64 bits. A JSON number
  of Go is a rational; the rounding of the reader is part of the parameter that reads it. Times that Python keeps as
  floats (\<open>approvals.py\<close>, \<open>risk_budget.py\<close>) are exact rationals here: the rounding of a float, below a microsecond at the
  size of a clock reading, can decide differently at the very edge of a window or deadline.

  \<^bold>\<open>Parameters.\<close> Signatures and token encoding, the clock, the identifiers drawn at random, policy engines
  other than the built-in one, and the shape of digests where a theorem does not need the bits. For token chains: the JOSE library,
  base64 and JSON readers, regular expressions and the canonicalization of RFC 8785 (fields of \<open>aat_env\<close> and \<open>issuer\<close>).

  \<^bold>\<open>Not modelled.\<close>
  \<^item> File locks, \<open>fsync\<close> and permissions: a locked section is atomic in the model, so a crash between two
    writes is not covered.
  \<^item> The command line, HTTP and socket servers, hooks of host agents and the browser extension: input and output around the modelled functions.
  \<^item> Signed receipts, mission documents, evidence formats and attestations: they consist of signatures and encodings made by libraries outside the sources.
  \<^item> Optional policy engines, policy storage, log rotation and rate limits: files and wall-clock time.
  \<^item> In \<open>delegate_passport\<close> of \<open>proxy.py\<close>: the fall back to an attenuating token when the parent token is not a
    passport. How a parent token decodes is a parameter, and the model takes its claims from there.
  \<^item> In \<open>src/go/pkg/aat\<close>: the registration of extension constraint types (the built-in table is fixed) and the
    building of a proof of possession, which only signs.
  \<^item> The other Go packages: workload identity, trust bundles and transparency clients, which call services; kernel
    capture; operators and command-line programs.
  \<^item> Reports, benchmarks, fixtures, scripts and the site: they do not take part in a decision.
\<close>

end
